(* ===== verification/Prelude.thy ===== *)
theory Prelude
  imports Main "HOL-Library.Word" "HOL-Library.Monad_Syntax"
begin

text \<open>
  What the components of the tunnel share.

  \<^item> Names for the machine types of the source: bytes are \<open>8 word\<close>, \<open>u16\<close> and \<open>u64\<close> are
    words of their width, and a Rust \<open>str\<close> is the list of its UTF-8 bytes, each byte an
    Isabelle \<open>char\<close>.
  \<^item> Fallible code returns \<open>error + value\<close>; \<open>try_then\<close> is Rust's question mark on a
    call that also changes the receiver.
  \<^item> A \<open>while let\<close> loop of the source is \<open>while_let\<close>: the loop body says whether it goes on
    or leaves, and a loop that never leaves is \<open>None\<close>. An invariant rule and a termination
    rule for it carry every loop proof of the development.
  \<^item> Saturating and checked arithmetic of the standard library.
\<close>

named_theorems api_defs \<open>one-step operations that a component proof unfolds\<close>
named_theorems view_intros \<open>an operation extends the observable history of a tunnel\<close>
named_theorems inv_intros \<open>an operation keeps the invariant of its component\<close>

type_synonym byte = "8 word"
type_synonym u16 = "16 word"
type_synonym u32 = "32 word"
type_synonym u64 = "64 word"

section \<open>Results\<close>

definition try_then :: "('e + 'a) \<times> 's \<Rightarrow> ('a \<Rightarrow> 's \<Rightarrow> (('e + 'b) \<times> 's) option) \<Rightarrow> (('e + 'b) \<times> 's) option" where
  "try_then m k = (case m of (Inl e, s) \<Rightarrow> Some (Inl e, s) | (Inr a, s) \<Rightarrow> k a s)"

lemma try_then_simps [simp]:
  "try_then (Inl e, s) k = Some (Inl e, s)"
  "try_then (Inr a, s) k = k a s"
  by (simp_all add: try_then_def)

lemma try_then_Some:
  "try_then m k = Some (r, s') \<longleftrightarrow>
     (\<exists>e. m = (Inl e, s') \<and> r = Inl e) \<or> (\<exists>a s. m = (Inr a, s) \<and> k a s = Some (r, s'))"
  by (cases m; cases "fst m") auto

definition map_err :: "('e \<Rightarrow> 'f) \<Rightarrow> 'e + 'a \<Rightarrow> 'f + 'a" where
  "map_err f r = (case r of Inl e \<Rightarrow> Inl (f e) | Inr a \<Rightarrow> Inr a)"

lemma map_err_simps [simp]: "map_err f (Inl e) = Inl (f e)" "map_err f (Inr a) = Inr a"
  by (simp_all add: map_err_def)

lemma map_err_eq_Inr [simp]: "map_err f r = Inr a \<longleftrightarrow> r = Inr a"
  by (cases r) auto

definition is_ok :: "'e + 'a \<Rightarrow> bool" where
  "is_ok r = (case r of Inl _ \<Rightarrow> False | Inr _ \<Rightarrow> True)"

lemma is_ok_simps [simp]: "\<not> is_ok (Inl e)" "is_ok (Inr a)"
  by (simp_all add: is_ok_def)

definition or_default :: "'a \<Rightarrow> 'a option \<Rightarrow> 'a" where
  "or_default d x = (case x of None \<Rightarrow> d | Some a \<Rightarrow> a)"

lemma or_default_simps [simp]: "or_default d None = d" "or_default d (Some a) = a"
  by (simp_all add: or_default_def)

section \<open>Loops\<close>

datatype ('s, 'r) loop = More 's | Done 'r

partial_function (option) while_let :: "('s \<Rightarrow> ('s, 'r) loop) \<Rightarrow> 's \<Rightarrow> 'r option" where
  "while_let step s = (case step s of More s' \<Rightarrow> while_let step s' | Done r \<Rightarrow> Some r)"

declare while_let.simps [code]

lemma while_let_Done [simp]: "step s = Done r \<Longrightarrow> while_let step s = Some r"
  by (simp add: while_let.simps [of step s])

lemma while_let_More: "step s = More s' \<Longrightarrow> while_let step s = while_let step s'"
  by (simp add: while_let.simps [of step s])

lemma while_let_inv:
  assumes ret: "while_let step s = Some r"
    and init: "I s"
    and more: "\<And>s s'. I s \<Longrightarrow> step s = More s' \<Longrightarrow> I s'"
    and exit: "\<And>s r. I s \<Longrightarrow> step s = Done r \<Longrightarrow> Q r"
  shows "Q r"
proof -
  have "(\<forall>s s'. I s \<longrightarrow> step s = More s' \<longrightarrow> I s') \<longrightarrow>
        (\<forall>s r. I s \<longrightarrow> step s = Done r \<longrightarrow> Q r) \<longrightarrow> I s \<longrightarrow> Q r"
  proof (rule while_let.raw_induct
      [where P = "\<lambda>step s r. (\<forall>s s'. I s \<longrightarrow> step s = More s' \<longrightarrow> I s') \<longrightarrow>
        (\<forall>s r. I s \<longrightarrow> step s = Done r \<longrightarrow> Q r) \<longrightarrow> I s \<longrightarrow> Q r", OF _ ret])
    fix W and step and s r
    assume IH: "\<And>step s r. W step s = Some r \<Longrightarrow>
        (\<forall>s s'. I s \<longrightarrow> step s = More s' \<longrightarrow> I s') \<longrightarrow>
        (\<forall>s r. I s \<longrightarrow> step s = Done r \<longrightarrow> Q r) \<longrightarrow> I s \<longrightarrow> Q r"
      and eq: "(case step s of More s' \<Rightarrow> W step s' | Done r \<Rightarrow> Some r) = Some r"
    show "(\<forall>s s'. I s \<longrightarrow> step s = More s' \<longrightarrow> I s') \<longrightarrow>
        (\<forall>s r. I s \<longrightarrow> step s = Done r \<longrightarrow> Q r) \<longrightarrow> I s \<longrightarrow> Q r"
      using eq IH by (cases "step s") auto
  qed
  then show ?thesis using more exit init by blast
qed

lemma while_let_total:
  fixes m :: "'s \<Rightarrow> nat"
  assumes init: "I s"
    and more: "\<And>s s'. I s \<Longrightarrow> step s = More s' \<Longrightarrow> I s' \<and> m s' < m s"
  shows "\<exists>r. while_let step s = Some r"
  using init
proof (induction "m s" arbitrary: s rule: less_induct)
  case less
  show ?case
  proof (cases "step s")
    case (More s')
    with more [OF less.prems More] less.hyps [of s'] show ?thesis
      by (simp add: while_let_More)
  next
    case (Done r)
    then show ?thesis by simp
  qed
qed

text \<open>A loop whose body calls code that may itself not return: \<open>Done None\<close> stands for such a call.\<close>

lemma while_bind_inv:
  assumes "Option.bind (while_let step s) id = Some r" "I s"
    and "\<And>s s'. I s \<Longrightarrow> step s = More s' \<Longrightarrow> I s'"
    and "\<And>s r. I s \<Longrightarrow> step s = Done (Some r) \<Longrightarrow> Q r"
  shows "Q r"
proof -
  obtain x where x: "while_let step s = Some x" "x = Some r" using assms(1) by (auto simp: bind_eq_Some_conv)
  have "\<forall>r. x = Some r \<longrightarrow> Q r" by (rule while_let_inv [where I = I, OF x(1) assms(2)]) (use assms(3,4) in auto)
  then show ?thesis using x(2) by blast
qed

lemma while_bind_total:
  fixes m :: "'s \<Rightarrow> nat"
  assumes "I s"
    and more: "\<And>s s'. I s \<Longrightarrow> step s = More s' \<Longrightarrow> I s' \<and> m s' < m s"
    and exit: "\<And>s. I s \<Longrightarrow> step s \<noteq> Done None"
  shows "\<exists>r. Option.bind (while_let step s) id = Some r"
proof -
  obtain x where x: "while_let step s = Some x" using while_let_total [of I s step m, OF assms(1) more] by blast
  have "x \<noteq> None"
  proof (rule while_let_inv [where I = I, OF x assms(1)])
    show "I s' \<Longrightarrow> step s' = More u \<Longrightarrow> I u" for s' u using more by blast
    show "I s' \<Longrightarrow> step s' = Done r \<Longrightarrow> r \<noteq> None" for s' r using exit [of s'] by auto
  qed
  then show ?thesis using x by auto
qed

text \<open>
  The polling discipline of the protocol engines: every element a poll returns has been
  taken out of a finite queue, so polling until \<open>None\<close> comes to an end.
\<close>

definition drains :: "('s \<Rightarrow> 'x option \<times> 's) \<Rightarrow> bool" where
  "drains poll = (\<exists>m :: 's \<Rightarrow> nat. \<forall>s x s'. poll s = (Some x, s') \<longrightarrow> m s' < m s)"

lemma drainsE:
  assumes "drains poll"
  obtains m :: "'s \<Rightarrow> nat" where "\<And>s x s'. poll s = (Some x, s') \<Longrightarrow> m s' < m s"
  using assms unfolding drains_def by blast

definition pop_front :: "'a list \<Rightarrow> 'a option \<times> 'a list" where
  "pop_front q = (case q of [] \<Rightarrow> (None, []) | x # xs \<Rightarrow> (Some x, xs))"

lemma pop_front_simps [simp]: "pop_front [] = (None, [])" "pop_front (x # xs) = (Some x, xs)"
  by (simp_all add: pop_front_def)

lemma drains_pop_front: "drains pop_front"
  unfolding drains_def by (rule exI [of _ length]) (auto simp: pop_front_def split: list.splits)

section \<open>Machine arithmetic\<close>

definition saturating_add_u64 :: "u64 \<Rightarrow> u64 \<Rightarrow> u64" where
  "saturating_add_u64 a b = (if unat a + unat b < 2 ^ 64 then a + b else - 1)"

lemma unat_saturating_add_u64: "unat (saturating_add_u64 a b) = min (unat a + unat b) (2 ^ 64 - 1)"
proof (cases "unat a + unat b < 2 ^ 64")
  case True
  then show ?thesis by (simp add: saturating_add_u64_def unat_word_ariths)
next
  case False
  have "unat (- 1 :: u64) = 2 ^ 64 - 1" by (simp add: unsigned_minus_1_eq_mask mask_eq_exp_minus_1)
  with False show ?thesis by (simp add: saturating_add_u64_def)
qed

lemma saturating_add_u64_mono: "a \<le> saturating_add_u64 a b"
  using unsigned_less [of a, where 'a = nat] by (simp add: word_le_nat_alt unat_saturating_add_u64)

text \<open>\<open>usize\<close> is 32 bits on the shipped wasm target and 64 bits natively, so its largest value
  is an argument.\<close>

definition saturating_add_usize :: "nat \<Rightarrow> nat \<Rightarrow> nat \<Rightarrow> nat" where
  "saturating_add_usize usize_max a b = min usize_max (a + b)"

lemma saturating_add_usize_le:
  "saturating_add_usize m a b \<le> cap \<Longrightarrow> cap < m \<Longrightarrow> a + b \<le> cap"
  by (auto simp: saturating_add_usize_def min_def split: if_splits)

section \<open>Lists\<close>

lemma filter_id_conv_set: "(\<forall>x \<in> set xs. P x) \<Longrightarrow> filter P xs = xs"
  by (induction xs) auto

end
