(* ===== verification/Rust_Str.thy ===== *)
theory Rust_Str
  imports Prelude "HOL-Library.Char_ord"
begin

text \<open>
  The part of Rust's \<open>str\<close> and \<open>fmt\<close> that the sources use. A \<open>str\<close> is the list of its
  UTF-8 bytes, each an Isabelle \<open>char\<close>, so \<open>len\<close>, \<open>into_bytes\<close>, \<open>strip_prefix\<close>,
  \<open>split_once\<close> and \<open>lines\<close> are exact. White space is Unicode's \<open>White_Space\<close>, recognised by
  its UTF-8 encodings. \<open>to_lowercase\<close> maps the ASCII letters and leaves the other bytes; the
  code uses it on fingerprints, which it then compares with lower-case hexadecimal only, and no
  other character has a lower-case form among the hexadecimal digits.
\<close>

type_synonym rstr = string

abbreviation code :: "char \<Rightarrow> nat" where
  "code c \<equiv> of_char c"

definition str_bytes :: "rstr \<Rightarrow> byte list" where
  "str_bytes s = map of_char s"

definition bytes_str :: "byte list \<Rightarrow> rstr" where
  "bytes_str bs = map (\<lambda>b. char_of (unat b)) bs"

section \<open>White space\<close>

text \<open>The number of bytes of the white-space character at the start, 0 when there is none.\<close>

definition ws3 :: "nat \<Rightarrow> nat \<Rightarrow> nat \<Rightarrow> bool" where
  "ws3 a b c = (a = 0xE1 \<and> b = 0x9A \<and> c = 0x80
     \<or> a = 0xE2 \<and> b = 0x80 \<and> (0x80 \<le> c \<and> c \<le> 0x8A \<or> c = 0xA8 \<or> c = 0xA9 \<or> c = 0xAF)
     \<or> a = 0xE2 \<and> b = 0x81 \<and> c = 0x9F
     \<or> a = 0xE3 \<and> b = 0x80 \<and> c = 0x80)"

definition ws1 :: "nat \<Rightarrow> bool" where
  "ws1 a = (9 \<le> a \<and> a \<le> 13 \<or> a = 32)"

definition ws2 :: "nat \<Rightarrow> nat \<Rightarrow> bool" where
  "ws2 a b = (a = 0xC2 \<and> (b = 0x85 \<or> b = 0xA0))"

fun ws_head :: "rstr \<Rightarrow> nat" where
  "ws_head [] = 0"
| "ws_head (a # s) = (if ws1 (code a) then 1 else
     case s of [] \<Rightarrow> 0 | b # s' \<Rightarrow> if ws2 (code a) (code b) then 2 else
     (case s' of [] \<Rightarrow> 0 | c # _ \<Rightarrow> if ws3 (code a) (code b) (code c) then 3 else 0))"

text \<open>The same for the last character, on the reversed string.\<close>

fun ws_tail :: "rstr \<Rightarrow> nat" where
  "ws_tail [] = 0"
| "ws_tail (a # s) = (if ws1 (code a) then 1 else
     case s of [] \<Rightarrow> 0 | b # s' \<Rightarrow> if ws2 (code b) (code a) then 2 else
     (case s' of [] \<Rightarrow> 0 | c # _ \<Rightarrow> if ws3 (code c) (code b) (code a) then 3 else 0))"

lemma ws_head_pos: "0 < ws_head s \<Longrightarrow> 0 < length s"
  by (cases s) auto

lemma ws_tail_pos: "0 < ws_tail s \<Longrightarrow> 0 < length s"
  by (cases s) auto

function trim_start :: "rstr \<Rightarrow> rstr" where
  "trim_start s = (if 0 < ws_head s then trim_start (drop (ws_head s) s) else s)"
  by pat_completeness auto
termination
  by (relation "measure length") (auto intro: diff_less ws_head_pos)

function trim_rev :: "rstr \<Rightarrow> rstr" where
  "trim_rev s = (if 0 < ws_tail s then trim_rev (drop (ws_tail s) s) else s)"
  by pat_completeness auto
termination
  by (relation "measure length") (auto intro: diff_less ws_tail_pos)

declare trim_start.simps [simp del] trim_rev.simps [simp del]

definition trim :: "rstr \<Rightarrow> rstr" where
  "trim s = rev (trim_rev (rev (trim_start s)))"

text \<open>\<open>split_whitespace\<close>: maximal runs without white space; \<open>acc\<close> is the current run, reversed.\<close>

function split_ws :: "rstr \<Rightarrow> rstr \<Rightarrow> rstr list" where
  "split_ws acc s = (case s of
       [] \<Rightarrow> if acc = [] then [] else [rev acc]
     | c # s' \<Rightarrow> if 0 < ws_head s
         then (if acc = [] then [] else [rev acc]) @ split_ws [] (drop (ws_head s) s)
         else split_ws (c # acc) s')"
  by pat_completeness auto
termination
  by (relation "measure (\<lambda>(acc, s). length s)") (auto split: if_splits list.splits)

declare split_ws.simps [simp del]

definition split_whitespace :: "rstr \<Rightarrow> rstr list" where
  "split_whitespace s = split_ws [] s"

text \<open>A string of visible ASCII characters: ICE credentials, fingerprints, addresses.\<close>

definition graphic :: "rstr \<Rightarrow> bool" where
  "graphic s = list_all (\<lambda>c. 33 \<le> code c \<and> code c \<le> 126) s"

lemma graphic_simps [simp]:
  "graphic []"
  "graphic (c # s) \<longleftrightarrow> 33 \<le> code c \<and> code c \<le> 126 \<and> graphic s"
  "graphic (s @ t) \<longleftrightarrow> graphic s \<and> graphic t"
  by (auto simp: graphic_def)

lemma graphic_rev [simp]: "graphic (rev s) = graphic s"
  by (simp add: graphic_def)

lemma ws_head_visible: "33 \<le> code c \<Longrightarrow> code c \<le> 126 \<Longrightarrow> ws_head (c # s) = 0"
  by (auto simp: ws1_def ws2_def ws3_def split: list.splits)

lemma ws_tail_visible: "33 \<le> code c \<Longrightarrow> code c \<le> 126 \<Longrightarrow> ws_tail (c # s) = 0"
  by (auto simp: ws1_def ws2_def ws3_def split: list.splits)

lemma trim_start_visible: "33 \<le> code c \<Longrightarrow> code c \<le> 126 \<Longrightarrow> trim_start (c # s) = c # s"
  by (simp add: trim_start.simps [of "c # s"] ws_head_visible del: ws_head.simps)

lemma trim_rev_visible: "33 \<le> code c \<Longrightarrow> code c \<le> 126 \<Longrightarrow> trim_rev (c # s) = c # s"
  by (simp add: trim_rev.simps [of "c # s"] ws_tail_visible del: ws_tail.simps)

text \<open>A string whose first and last characters are visible is its own trimmed form.\<close>

lemma trim_visible:
  assumes "s \<noteq> []" "33 \<le> code (hd s)" "code (hd s) \<le> 126" "33 \<le> code (last s)" "code (last s) \<le> 126"
  shows "trim s = s"
proof -
  from assms have "trim_start s = s"
    by (cases s) (simp_all add: trim_start_visible)
  moreover from assms have "trim_rev (rev s) = rev s"
    by (cases s rule: rev_cases) (simp_all add: trim_rev_visible)
  ultimately show ?thesis by (simp add: trim_def)
qed

lemma trim_Nil [simp]: "trim [] = []"
  by (simp add: trim_def trim_start.simps [of "[]"] trim_rev.simps [of "[]"])

lemma trim_graphic [simp]: "graphic s \<Longrightarrow> trim s = s"
  by (cases "s = []")
    (auto intro!: trim_visible simp: graphic_def list_all_iff)

lemma trim_append_graphic:
  assumes "33 \<le> code c" "code c \<le> 126" "graphic t" "t \<noteq> []"
  shows "trim (c # s @ t) = c # s @ t"
  using assms by (intro trim_visible) (auto simp: graphic_def list_all_iff last_append)

lemma split_ws_graphic_acc: "graphic t \<Longrightarrow> split_ws acc (t @ s) = split_ws (rev t @ acc) s"
proof (induction t arbitrary: acc)
  case (Cons c t)
  then show ?case
    by (simp add: split_ws.simps [of acc "c # t @ s"] ws_head_visible del: ws_head.simps)
qed simp

lemma split_ws_space: "split_ws acc (CHR '' '' # s) = (if acc = [] then [] else [rev acc]) @ split_ws [] s"
  by (simp add: split_ws.simps [of acc "CHR '' '' # s"] ws1_def)

lemma split_ws_Nil [simp]: "split_ws acc [] = (if acc = [] then [] else [rev acc])"
  by (simp add: split_ws.simps)

lemma split_whitespace_Cons:
  "graphic t \<Longrightarrow> t \<noteq> [] \<Longrightarrow> split_whitespace (t @ CHR '' '' # s) = t # split_whitespace s"
  by (simp add: split_whitespace_def split_ws_graphic_acc split_ws_space)

lemma split_whitespace_single: "graphic t \<Longrightarrow> t \<noteq> [] \<Longrightarrow> split_whitespace t = [t]"
  using split_ws_graphic_acc [of t "[]" "[]"] by (simp add: split_whitespace_def)

section \<open>Prefixes, splits and lines\<close>

fun strip_prefix :: "rstr \<Rightarrow> rstr \<Rightarrow> rstr option" where
  "strip_prefix [] s = Some s"
| "strip_prefix (p # ps) [] = None"
| "strip_prefix (p # ps) (c # s) = (if p = c then strip_prefix ps s else None)"

lemma strip_prefix_append [simp]: "strip_prefix p (p @ s) = Some s"
  by (induction p) auto

lemma strip_prefix_Some: "strip_prefix p s = Some t \<longleftrightarrow> s = p @ t"
  by (induction p s rule: strip_prefix.induct) auto

fun split_once :: "char \<Rightarrow> rstr \<Rightarrow> (rstr \<times> rstr) option" where
  "split_once d [] = None"
| "split_once d (c # s) = (if c = d then Some ([], s)
     else map_option (\<lambda>(a, b). (c # a, b)) (split_once d s))"

lemma split_once_append [simp]: "d \<notin> set a \<Longrightarrow> split_once d (a @ d # b) = Some (a, b)"
  by (induction a) auto

lemma split_once_Some: "split_once d s = Some (a, b) \<Longrightarrow> s = a @ d # b \<and> d \<notin> set a"
  by (induction s arbitrary: a) (auto split: if_splits)

text \<open>One line of \<open>str::lines\<close>: the newline goes, and so does a carriage return before it. A
  last line without a newline keeps its carriage return.\<close>

abbreviation LF :: char where "LF \<equiv> CHR 0x0A"
abbreviation CR :: char where "CR \<equiv> CHR 0x0D"

definition strip_cr :: "rstr \<Rightarrow> rstr" where
  "strip_cr l = (if l \<noteq> [] \<and> last l = CR then butlast l else l)"

function lines :: "rstr \<Rightarrow> rstr list" where
  "lines s = (case split_once LF s of
       None \<Rightarrow> if s = [] then [] else [s]
     | Some (l, rest) \<Rightarrow> strip_cr l # lines rest)"
  by pat_completeness auto
termination
  by (relation "measure length") (auto dest: split_once_Some)

declare lines.simps [simp del]

lemma lines_Nil [simp]: "lines [] = []"
  by (simp add: lines.simps)

lemma strip_cr_snoc [simp]: "strip_cr (l @ [CR]) = l"
  by (simp add: strip_cr_def)

lemma lines_crlf: "LF \<notin> set l \<Longrightarrow> lines (l @ CR # LF # s) = l # lines s"
proof -
  assume "LF \<notin> set l"
  then have "split_once LF ((l @ [CR]) @ LF # s) = Some (l @ [CR], s)"
    by (intro split_once_append) auto
  then show ?thesis by (simp add: lines.simps [of "l @ CR # LF # s"])
qed

text \<open>A text rendered as CRLF-terminated lines reads back as those lines.\<close>

definition crlf_text :: "rstr list \<Rightarrow> rstr" where
  "crlf_text ls = concat (map (\<lambda>l. l @ [CR, LF]) ls)"

lemma crlf_text_simps [simp]:
  "crlf_text [] = []" "crlf_text (l # ls) = l @ CR # LF # crlf_text ls"
  by (simp_all add: crlf_text_def)

lemma lines_crlf_text: "list_all (\<lambda>l. LF \<notin> set l) ls \<Longrightarrow> lines (crlf_text ls) = ls"
  by (induction ls) (simp_all add: lines_crlf)

lemma graphic_no_LF: "graphic s \<Longrightarrow> LF \<notin> set s"
  by (auto simp: graphic_def list_all_iff)

section \<open>Letters, digits and numbers\<close>

definition to_lower_char :: "char \<Rightarrow> char" where
  "to_lower_char c = (if 65 \<le> code c \<and> code c \<le> 90 then char_of (code c + 32) else c)"

definition to_lowercase :: "rstr \<Rightarrow> rstr" where
  "to_lowercase s = map to_lower_char s"

definition eq_ignore_ascii_case :: "rstr \<Rightarrow> rstr \<Rightarrow> bool" where
  "eq_ignore_ascii_case s t = (to_lowercase s = to_lowercase t)"

lemma code_to_lower_char:
  "code (to_lower_char c) = (if 65 \<le> code c \<and> code c \<le> 90 then code c + 32 else code c)"
  by (auto simp: to_lower_char_def)

lemma to_lower_char_idem [simp]: "to_lower_char (to_lower_char c) = to_lower_char c"
  by (auto simp: to_lower_char_def code_to_lower_char)

lemma to_lowercase_idem [simp]: "to_lowercase (to_lowercase s) = to_lowercase s"
  by (simp add: to_lowercase_def)

lemma graphic_to_lowercase [simp]: "graphic s \<Longrightarrow> graphic (to_lowercase s)"
  by (auto simp: graphic_def to_lowercase_def list_all_iff code_to_lower_char)

definition digit_char :: "nat \<Rightarrow> char" where
  "digit_char d = (if d < 10 then char_of (48 + d) else char_of (87 + d))"

definition to_digit :: "nat \<Rightarrow> char \<Rightarrow> nat option" where
  "to_digit radix c = (let n = code c;
       d = (if 48 \<le> n \<and> n \<le> 57 then Some (n - 48)
            else if 97 \<le> n \<and> n \<le> 122 then Some (n - 87)
            else if 65 \<le> n \<and> n \<le> 90 then Some (n - 55) else None)
     in case d of None \<Rightarrow> None | Some v \<Rightarrow> if v < radix then Some v else None)"

lemma code_digit_char: "d < 16 \<Longrightarrow> code (digit_char d) = (if d < 10 then 48 + d else 87 + d)"
  by (simp add: digit_char_def)

lemma to_digit_digit_char [simp]: "d < radix \<Longrightarrow> radix \<le> 16 \<Longrightarrow> to_digit radix (digit_char d) = Some d"
  by (simp add: to_digit_def code_digit_char)

text \<open>\<open>Display\<close> of an unsigned integer in a radix, without leading zeros.\<close>

function digits :: "nat \<Rightarrow> nat \<Rightarrow> nat list" where
  "digits r n = (if n < r \<or> r < 2 then [n] else digits r (n div r) @ [n mod r])"
  by pat_completeness auto
termination
  by (relation "measure snd") (auto intro: div_less_dividend)

declare digits.simps [simp del]

definition show_radix :: "nat \<Rightarrow> nat \<Rightarrow> rstr" where
  "show_radix r n = map digit_char (digits r n)"

abbreviation show_dec :: "nat \<Rightarrow> rstr" where
  "show_dec \<equiv> show_radix 10"

text \<open>\<open>format!("{b:02x}")\<close> of a byte, and the colon-separated form of a digest.\<close>

definition hex02 :: "byte \<Rightarrow> rstr" where
  "hex02 b = [digit_char (unat b div 16), digit_char (unat b mod 16)]"

fun join :: "rstr \<Rightarrow> rstr list \<Rightarrow> rstr" where
  "join sep [] = []"
| "join sep [x] = x"
| "join sep (x # y # xs) = x @ sep @ join sep (y # xs)"

lemma digits_nonempty [simp]: "digits r n \<noteq> []"
  by (subst digits.simps) simp

lemma digits_bound: "2 \<le> r \<Longrightarrow> \<forall>d \<in> set (digits r n). d < r"
proof (induction r n rule: digits.induct)
  case (1 r n)
  show ?case
  proof (cases "n < r")
    case True
    then show ?thesis by (simp add: digits.simps [of r n])
  next
    case False
    with 1 have "\<forall>d \<in> set (digits r (n div r)). d < r" by simp
    moreover from 1 have "n mod r < r" by simp
    ultimately show ?thesis using False 1 by (auto simp: digits.simps [of r n])
  qed
qed

lemma foldl_digits: "2 \<le> r \<Longrightarrow> foldl (\<lambda>a d. a * r + d) 0 (digits r n) = n"
proof (induction r n rule: digits.induct)
  case (1 r n)
  then show ?case by (cases "n < r") (simp_all add: digits.simps [of r n])
qed

lemma digits_length: "2 \<le> r \<Longrightarrow> n < r ^ k \<Longrightarrow> 0 < k \<Longrightarrow> length (digits r n) \<le> k"
proof (induction k arbitrary: n)
  case (Suc k)
  show ?case
  proof (cases "n < r")
    case True
    then show ?thesis by (simp add: digits.simps [of r n])
  next
    case False
    with Suc.prems have "0 < k" by (cases k) auto
    from Suc.prems have "n div r < r ^ k"
      by (simp add: less_mult_imp_div_less mult.commute)
    with Suc \<open>0 < k\<close> False show ?thesis by (simp add: digits.simps [of r n])
  qed
qed simp

lemma hd_digits: "2 \<le> r \<Longrightarrow> 0 < n \<Longrightarrow> hd (digits r n) \<noteq> 0"
proof (induction r n rule: digits.induct)
  case (1 r n)
  show ?case
  proof (cases "n < r")
    case True
    with 1 show ?thesis by (simp add: digits.simps [of r n])
  next
    case False
    with 1 have "0 < n div r" by (simp add: div_greater_zero_iff)
    with 1 False show ?thesis by (simp add: digits.simps [of r n])
  qed
qed

lemma show_radix_nonempty [simp]: "show_radix r n \<noteq> []"
  by (simp add: show_radix_def)

lemma graphic_show_radix: "2 \<le> r \<Longrightarrow> r \<le> 16 \<Longrightarrow> graphic (show_radix r n)"
  using digits_bound [of r n]
  by (force simp: graphic_def show_radix_def list_all_iff code_digit_char)

lemma graphic_show_dec [simp]: "graphic (show_dec n)"
  by (simp add: graphic_show_radix)

lemma graphic_hex02: "graphic (hex02 b)"
proof -
  have "unat b < 256" using unsigned_less [of b, where 'a = nat] by simp
  then have "unat b div 16 < 16" "unat b mod 16 < 16" by auto
  then show ?thesis by (auto simp: hex02_def code_digit_char)
qed

lemma graphic_join: "list_all graphic xs \<Longrightarrow> graphic sep \<Longrightarrow> graphic (join sep xs)"
  by (induction sep xs rule: join.induct) auto

end
