(* ===== verification/Net_Addr.thy ===== *)
theory Net_Addr
  imports Rust_Str
begin

text \<open>
  Internet addresses as the standard library of the source has them: \<open>IpAddr\<close> and
  \<open>SocketAddr\<close>, the parser behind \<open>str::parse::<SocketAddr>\<close> and the \<open>Display\<close> of an
  address. The core reads candidate addresses from an offer with the parser and writes them into
  an answer with \<open>Display\<close>, so the round trip of the two is what lets a peer find the tunnel.
  The parser is Rust's recursive descent parser; every reader returns the value and the rest of
  the input, and a failed reader leaves the input to its caller, as \<open>read_atomically\<close> does.
\<close>

type_synonym ipv4 = "byte \<times> byte \<times> byte \<times> byte"

datatype ip_addr = IpV4 ipv4 | IpV6 "u16 list"

datatype socket_addr = SockV4 ipv4 u16 | SockV6 "u16 list" u16 u32 u32

primrec sock_ip :: "socket_addr \<Rightarrow> ip_addr" where
  "sock_ip (SockV4 a p) = IpV4 a"
| "sock_ip (SockV6 g p f s) = IpV6 g"

primrec sock_port :: "socket_addr \<Rightarrow> u16" where
  "sock_port (SockV4 a p) = p"
| "sock_port (SockV6 g p f s) = p"

primrec is_ipv4 :: "socket_addr \<Rightarrow> bool" where
  "is_ipv4 (SockV4 a p) = True"
| "is_ipv4 (SockV6 g p f s) = False"

definition is_unspecified :: "ip_addr \<Rightarrow> bool" where
  "is_unspecified ip = (case ip of IpV4 a \<Rightarrow> a = (0, 0, 0, 0) | IpV6 g \<Rightarrow> list_all (\<lambda>x. x = 0) g)"

primrec sock_wf :: "socket_addr \<Rightarrow> bool" where
  "sock_wf (SockV4 a p) = True"
| "sock_wf (SockV6 g p f s) = (length g = 8)"

section \<open>The parser\<close>

fun read_digits :: "nat \<Rightarrow> nat \<Rightarrow> nat \<Rightarrow> rstr \<Rightarrow> nat \<times> nat \<times> rstr" where
  "read_digits radix acc k [] = (acc, k, [])"
| "read_digits radix acc k (c # s) = (case to_digit radix c of
       None \<Rightarrow> (acc, k, c # s)
     | Some d \<Rightarrow> read_digits radix (acc * radix + d) (Suc k) s)"

definition read_number :: "nat \<Rightarrow> nat option \<Rightarrow> bool \<Rightarrow> nat \<Rightarrow> rstr \<Rightarrow> (nat \<times> rstr) option" where
  "read_number radix max_digits allow_zero_prefix max_value s =
     (let (v, k, rest) = read_digits radix 0 0 s in
      if (case max_digits of None \<Rightarrow> False | Some m \<Rightarrow> m < k) then None
      else if k = 0 then None
      else if \<not> allow_zero_prefix \<and> take 1 s = ''0'' \<and> 1 < k then None
      else if max_value < v then None else Some (v, rest))"

fun read_char :: "char \<Rightarrow> rstr \<Rightarrow> rstr option" where
  "read_char c [] = None"
| "read_char c (d # s) = (if c = d then Some s else None)"

definition read_sep :: "char \<Rightarrow> nat \<Rightarrow> (rstr \<Rightarrow> ('a \<times> rstr) option) \<Rightarrow> rstr \<Rightarrow> ('a \<times> rstr) option" where
  "read_sep sep i inner s = (if i = 0 then inner s else case read_char sep s of None \<Rightarrow> None | Some s' \<Rightarrow> inner s')"

abbreviation read_octet :: "rstr \<Rightarrow> (nat \<times> rstr) option" where
  "read_octet \<equiv> read_number 10 (Some 3) False 255"

abbreviation dot :: char where "dot \<equiv> CHR ''.''"
abbreviation colon :: char where "colon \<equiv> CHR '':''"

definition read_ipv4 :: "rstr \<Rightarrow> ((nat \<times> nat \<times> nat \<times> nat) \<times> rstr) option" where
  "read_ipv4 s = do {
     (a, s) \<leftarrow> read_octet s;
     (b, s) \<leftarrow> read_sep dot 1 read_octet s;
     (c, s) \<leftarrow> read_sep dot 2 read_octet s;
     (d, s) \<leftarrow> read_sep dot 3 read_octet s;
     Some ((a, b, c, d), s) }"

text \<open>\<open>read_groups\<close> with \<open>i\<close> groups read and \<open>n\<close> slots left.\<close>

fun read_groups :: "nat \<Rightarrow> nat \<Rightarrow> rstr \<Rightarrow> nat list \<times> bool \<times> rstr" where
  "read_groups i 0 s = ([], False, s)"
| "read_groups i (Suc n) s =
     (case (if 0 < n then read_sep colon i read_ipv4 s else None) of
        Some ((a, b, c, d), s') \<Rightarrow> ([a * 256 + b, c * 256 + d], True, s')
      | None \<Rightarrow>
          (case read_sep colon i (read_number 16 (Some 4) True 65535) s of
             None \<Rightarrow> ([], False, s)
           | Some (g, s') \<Rightarrow>
               (let (gs, v4, s'') = read_groups (Suc i) n s' in (g # gs, v4, s''))))"

definition read_ipv6 :: "rstr \<Rightarrow> (nat list \<times> rstr) option" where
  "read_ipv6 s = (let (hs, head_ipv4, s1) = read_groups 0 8 s in
     if length hs = 8 then Some (hs, s1)
     else if head_ipv4 then None
     else do {
       s2 \<leftarrow> read_char colon s1;
       s3 \<leftarrow> read_char colon s2;
       let (ts, _, s4) = read_groups 0 (8 - (length hs + 1)) s3;
       Some (hs @ replicate (8 - length hs - length ts) 0 @ ts, s4) })"

definition read_port :: "rstr \<Rightarrow> (nat \<times> rstr) option" where
  "read_port s = do { s \<leftarrow> read_char colon s; read_number 10 None True 65535 s }"

definition read_scope_id :: "rstr \<Rightarrow> (nat \<times> rstr) option" where
  "read_scope_id s = do { s \<leftarrow> read_char (CHR ''%'') s; read_number 10 None True (2 ^ 32 - 1) s }"

definition read_sock_v4 :: "rstr \<Rightarrow> (socket_addr \<times> rstr) option" where
  "read_sock_v4 s = do {
     ((a, b, c, d), s) \<leftarrow> read_ipv4 s;
     (p, s) \<leftarrow> read_port s;
     Some (SockV4 (of_nat a, of_nat b, of_nat c, of_nat d) (of_nat p), s) }"

definition read_sock_v6 :: "rstr \<Rightarrow> (socket_addr \<times> rstr) option" where
  "read_sock_v6 s = do {
     s \<leftarrow> read_char (CHR ''['') s;
     (g, s) \<leftarrow> read_ipv6 s;
     let (scope, s) = (case read_scope_id s of None \<Rightarrow> (0, s) | Some x \<Rightarrow> x);
     s \<leftarrow> read_char (CHR '']'') s;
     (p, s) \<leftarrow> read_port s;
     Some (SockV6 (map of_nat g) (of_nat p) 0 (of_nat scope), s) }"

definition parse_socket_addr :: "rstr \<Rightarrow> socket_addr option" where
  "parse_socket_addr s =
     (case (case read_sock_v4 s of Some r \<Rightarrow> Some r | None \<Rightarrow> read_sock_v6 s) of
        Some (a, []) \<Rightarrow> Some a
      | _ \<Rightarrow> None)"

section \<open>Display\<close>

fun show_ipv4 :: "ipv4 \<Rightarrow> rstr" where
  "show_ipv4 (a, b, c, d) = join [dot] (map (\<lambda>x. show_dec (unat x)) [a, b, c, d])"

text \<open>The first longest run of zero groups: \<open>(start, length)\<close>.\<close>

fun zero_run :: "nat \<Rightarrow> nat \<times> nat \<Rightarrow> nat \<times> nat \<Rightarrow> u16 list \<Rightarrow> nat \<times> nat" where
  "zero_run i cur best [] = best"
| "zero_run i (st, len) best (g # gs) =
     (if g = 0 then
        (let cur = (if len = 0 then i else st, Suc len) in
         zero_run (Suc i) cur (if snd best < snd cur then cur else best) gs)
      else zero_run (Suc i) (0, 0) best gs)"

definition show_groups :: "u16 list \<Rightarrow> rstr" where
  "show_groups gs = join [colon] (map (\<lambda>g. show_radix 16 (unat g)) gs)"

definition octets :: "u16 \<Rightarrow> byte \<times> byte" where
  "octets g = (of_nat (unat g div 256), of_nat (unat g mod 256))"

definition show_ipv6 :: "u16 list \<Rightarrow> rstr" where
  "show_ipv6 gs = (if take 6 gs = [0, 0, 0, 0, 0, 0xFFFF] \<and> length gs = 8
     then (let (a, b) = octets (gs ! 6); (c, d) = octets (gs ! 7)
           in ''::ffff:'' @ show_ipv4 (a, b, c, d))
     else (let (st, len) = zero_run 0 (0, 0) (0, 0) gs in
           if 1 < len then show_groups (take st gs) @ ''::'' @ show_groups (drop (st + len) gs)
           else show_groups gs))"

definition show_ip :: "ip_addr \<Rightarrow> rstr" where
  "show_ip ip = (case ip of IpV4 a \<Rightarrow> show_ipv4 a | IpV6 g \<Rightarrow> show_ipv6 g)"

section \<open>Reading back what was written\<close>

definition no_digit :: "nat \<Rightarrow> rstr \<Rightarrow> bool" where
  "no_digit radix s = (case s of [] \<Rightarrow> True | c # _ \<Rightarrow> to_digit radix c = None)"

lemma read_digits_append:
  "list_all (\<lambda>d. d < radix) ds \<Longrightarrow> radix \<le> 16 \<Longrightarrow> no_digit radix s \<Longrightarrow>
   read_digits radix acc k (map digit_char ds @ s) =
     (foldl (\<lambda>a d. a * radix + d) acc ds, k + length ds, s)"
proof (induction ds arbitrary: acc k)
  case Nil
  then show ?case by (cases s) (auto simp: no_digit_def)
qed simp

lemma read_digits_show:
  assumes "2 \<le> radix" "radix \<le> 16" "no_digit radix s"
  shows "read_digits radix 0 0 (show_radix radix n @ s) = (n, length (digits radix n), s)"
  using assms digits_bound [of radix n]
  by (simp add: show_radix_def read_digits_append foldl_digits list_all_iff)

lemma take_1_show_radix:
  assumes "2 \<le> r" "r \<le> 16" "take 1 (show_radix r n @ s) = ''0''"
  shows "n = 0"
proof (rule ccontr)
  assume "n \<noteq> 0"
  then have hd: "hd (digits r n) \<noteq> 0" using hd_digits [of r n] assms by simp
  obtain d ds where ds: "digits r n = d # ds" by (cases "digits r n") auto
  with digits_bound [of r n] assms have "d < 16" by auto
  have "code (digit_char d) = 48" using assms(3) ds by (simp add: show_radix_def)
  with \<open>d < 16\<close> have "d = 0" by (auto simp: code_digit_char split: if_splits)
  with hd ds show False by simp
qed

lemma read_number_show:
  assumes "2 \<le> r" "r \<le> 16" "no_digit r s" "n \<le> max_value"
    and md: "\<And>m. max_digits = Some m \<Longrightarrow> 0 < m \<and> n < r ^ m"
  shows "read_number r max_digits az max_value (show_radix r n @ s) = Some (n, s)"
proof -
  have len: "max_digits = Some m \<Longrightarrow> length (digits r n) \<le> m" for m
    using md [of m] assms digits_length [of r n m] by simp
  have zero: "take 1 (show_radix r n @ s) = ''0'' \<Longrightarrow> length (digits r n) = 1"
    using take_1_show_radix [of r n s] assms by (auto simp: digits.simps [of r 0])
  have k: "length (digits r n) \<noteq> 0" by simp
  show ?thesis
    unfolding read_number_def read_digits_show [OF assms(1-3)] Let_def prod.case
    using len zero k assms(4) by (auto split: option.splits)
qed

lemma read_octet_show:
  "no_digit 10 s \<Longrightarrow> read_octet (show_dec (unat (x :: byte)) @ s) = Some (unat x, s)"
  using unsigned_less [of x, where 'a = nat] by (intro read_number_show) auto

lemma no_digit_simps [simp]:
  "no_digit r []"
  "no_digit 10 (dot # s)" "no_digit 10 (colon # s)" "no_digit 16 (colon # s)"
  "no_digit 16 (dot # s)" "no_digit 16 (CHR '']'' # s)" "no_digit 10 (CHR '']'' # s)"
  by (simp_all add: no_digit_def to_digit_def)

lemma read_ipv4_show:
  "no_digit 10 s \<Longrightarrow> read_ipv4 (show_ipv4 (a, b, c, d) @ s) = Some ((unat a, unat b, unat c, unat d), s)"
  by (simp add: read_ipv4_def read_sep_def read_octet_show)

lemma read_port_show: "read_port (colon # show_dec (unat (p :: u16))) = Some (unat p, [])"
proof -
  have "read_number 10 None True 65535 (show_dec (unat p) @ []) = Some (unat p, [])"
    using unsigned_less [of p, where 'a = nat] by (intro read_number_show) auto
  then show ?thesis by (simp add: read_port_def)
qed

lemma parse_show_v4:
  "parse_socket_addr (show_ipv4 a @ colon # show_dec (unat p)) = Some (SockV4 a p)"
proof -
  obtain x y z w where a: "a = (x, y, z, w)" by (cases a) auto
  show ?thesis unfolding a parse_socket_addr_def read_sock_v4_def
    by (subst read_ipv4_show) (simp_all add: read_port_show)
qed

lemma graphic_show_ipv4 [simp]: "graphic (show_ipv4 a)"
  by (cases a) simp

lemma show_ipv4_nonempty [simp]: "show_ipv4 a \<noteq> []"
  by (cases a) simp

lemma colon_notin_show_radix: "2 \<le> r \<Longrightarrow> r \<le> 16 \<Longrightarrow> colon \<notin> set (show_radix r n)"
proof
  assume r: "2 \<le> r" "r \<le> 16" and "colon \<in> set (show_radix r n)"
  then obtain d where d: "d \<in> set (digits r n)" "colon = digit_char d"
    by (auto simp: show_radix_def)
  then have "d < 16" using digits_bound [of r n] r by auto
  then have "code colon = (if d < 10 then 48 + d else 87 + d)"
    using d code_digit_char [of d] by simp
  then show False by (simp split: if_splits)
qed

lemma colon_notin_show_ipv4 [simp]: "colon \<notin> set (show_ipv4 a)"
  by (cases a) (simp add: colon_notin_show_radix)

end
