(* ===== verification/Core_Types.thy ===== *)
theory Core_Types
  imports Net_Addr
begin

text \<open>
  The vocabulary of \<open>rtc-tunnel-core\<close>: the configuration of a tunnel (\<open>config.rs\<close>), its
  errors (\<open>error.rs\<close>), the events it hands to the host (\<open>event.rs\<close>), the limits of
  \<open>lib.rs\<close> and the handshake trace (\<open>trace.rs\<close>). The trace is the part with behaviour:
  each phase keeps its first observation for ever.
\<close>

section \<open>Configuration\<close>

record tunnel_config =
  cfg_remote :: socket_addr
  cfg_ice_ufrag :: rstr
  cfg_ice_pwd :: rstr
  cfg_remote_fingerprint :: rstr
  cfg_fingerprint_algorithm :: rstr
  cfg_sctp_port :: u16
  cfg_stream_id :: u16
  cfg_ordered :: bool
  cfg_max_retransmits :: "u16 option"
  cfg_handshake_timeout_ms :: nat
  cfg_disable_fingerprint_verification :: bool

definition tunnel_config_new :: "socket_addr \<Rightarrow> rstr \<Rightarrow> rstr \<Rightarrow> rstr \<Rightarrow> tunnel_config" where
  "tunnel_config_new remote ice_ufrag ice_pwd remote_fingerprint =
     \<lparr>cfg_remote = remote, cfg_ice_ufrag = ice_ufrag, cfg_ice_pwd = ice_pwd,
      cfg_remote_fingerprint = remote_fingerprint, cfg_fingerprint_algorithm = ''sha-256'',
      cfg_sctp_port = 5000, cfg_stream_id = 0, cfg_ordered = False,
      cfg_max_retransmits = Some 0, cfg_handshake_timeout_ms = 30000,
      cfg_disable_fingerprint_verification = False\<rparr>"

definition DEFAULT_SEND_BUFFER_CAP :: nat where
  "DEFAULT_SEND_BUFFER_CAP = 1024 * 1024"

definition MAX_MESSAGE_SIZE :: nat where
  "MAX_MESSAGE_SIZE = 262144"

section \<open>Errors\<close>

text \<open>An error of the \<open>rtc\<close> stack is represented by its \<open>Display\<close> text.\<close>

datatype tunnel_error = PeerConnection rstr | Config rstr

primrec show_tunnel_error :: "tunnel_error \<Rightarrow> rstr" where
  "show_tunnel_error (PeerConnection err) = ''peer connection error: '' @ err"
| "show_tunnel_error (Config msg) = ''invalid tunnel config: '' @ msg"

primrec error_source :: "tunnel_error \<Rightarrow> rstr option" where
  "error_source (PeerConnection err) = Some err"
| "error_source (Config msg) = None"

definition tunnel_error_from :: "rstr \<Rightarrow> tunnel_error" where
  "tunnel_error_from err = PeerConnection err"

section \<open>Events\<close>

datatype close_reason = Local | Remote | Timeout | Failure

datatype event = SendDatagram "byte list" | Opened | Message "byte list" | Closed close_reason

datatype send_result = Accepted | Backpressure | TooLarge | NotOpen

primrec is_opened_event :: "event \<Rightarrow> bool" where
  "is_opened_event (SendDatagram b) = False"
| "is_opened_event Opened = True"
| "is_opened_event (Message b) = False"
| "is_opened_event (Closed r) = False"

primrec is_closed_event :: "event \<Rightarrow> bool" where
  "is_closed_event (SendDatagram b) = False"
| "is_closed_event Opened = False"
| "is_closed_event (Message b) = False"
| "is_closed_event (Closed r) = True"

section \<open>The handshake trace\<close>

record handshake_trace =
  start_ms :: nat
  ice_ms :: "nat option"
  dtls_ms :: "nat option"
  sctp_ms :: "nat option"
  opened_ms :: "nat option"

definition trace_new :: "nat \<Rightarrow> handshake_trace" where
  "trace_new start = \<lparr>start_ms = start, ice_ms = None, dtls_ms = None, sctp_ms = None, opened_ms = None\<rparr>"

definition observe_ice :: "nat \<Rightarrow> handshake_trace \<Rightarrow> handshake_trace" where
  "observe_ice now_ms t = (if ice_ms t = None then t\<lparr>ice_ms := Some now_ms\<rparr> else t)"

definition observe_dtls :: "nat \<Rightarrow> handshake_trace \<Rightarrow> handshake_trace" where
  "observe_dtls now_ms t = (if dtls_ms t = None then t\<lparr>dtls_ms := Some now_ms\<rparr> else t)"

definition observe_sctp :: "nat \<Rightarrow> handshake_trace \<Rightarrow> handshake_trace" where
  "observe_sctp now_ms t = (if sctp_ms t = None then t\<lparr>sctp_ms := Some now_ms\<rparr> else t)"

definition observe_open :: "nat \<Rightarrow> handshake_trace \<Rightarrow> handshake_trace" where
  "observe_open now_ms t = (if opened_ms t = None then t\<lparr>opened_ms := Some now_ms\<rparr> else t)"

definition is_complete :: "handshake_trace \<Rightarrow> bool" where
  "is_complete t = (opened_ms t \<noteq> None)"

text \<open>The sampling observer of the \<open>rtc\<close> backend, with its early return and its four guarded
  writes in order.\<close>

definition observe :: "nat \<Rightarrow> bool \<Rightarrow> bool \<Rightarrow> bool \<Rightarrow> bool \<Rightarrow> handshake_trace \<Rightarrow> handshake_trace" where
  "observe now_ms ice_ready dtls_ready sctp_ready opened t =
     (if opened_ms t \<noteq> None then t else
      let t = (if ice_ready \<and> ice_ms t = None then t\<lparr>ice_ms := Some now_ms\<rparr> else t);
          t = (if dtls_ready \<and> dtls_ms t = None then t\<lparr>dtls_ms := Some now_ms\<rparr> else t);
          t = (if sctp_ready \<and> sctp_ms t = None then t\<lparr>sctp_ms := Some now_ms\<rparr> else t);
          t = (if opened \<and> opened_ms t = None then t\<lparr>opened_ms := Some now_ms\<rparr> else t)
      in t)"

lemmas observe_defs = observe_ice_def observe_dtls_def observe_sctp_def observe_open_def

text \<open>A later trace agrees with an earlier one wherever the earlier one has an observation.\<close>

definition keeps_opt :: "'a option \<Rightarrow> 'a option \<Rightarrow> bool" where
  "keeps_opt a b = (case a of None \<Rightarrow> True | Some x \<Rightarrow> b = Some x)"

lemma keeps_opt_simps [simp]: "keeps_opt None b" "keeps_opt (Some x) b = (b = Some x)" "keeps_opt a a"
  by (auto simp: keeps_opt_def split: option.splits)

lemma keeps_opt_trans [trans]: "keeps_opt a b \<Longrightarrow> keeps_opt b c \<Longrightarrow> keeps_opt a c"
  by (auto simp: keeps_opt_def split: option.splits)

definition trace_le :: "handshake_trace \<Rightarrow> handshake_trace \<Rightarrow> bool" where
  "trace_le t u = (start_ms u = start_ms t \<and> keeps_opt (ice_ms t) (ice_ms u)
     \<and> keeps_opt (dtls_ms t) (dtls_ms u) \<and> keeps_opt (sctp_ms t) (sctp_ms u)
     \<and> keeps_opt (opened_ms t) (opened_ms u))"

lemma trace_le_refl [simp, intro]: "trace_le t t"
  by (simp add: trace_le_def)

lemma trace_le_trans [trans]: "trace_le t u \<Longrightarrow> trace_le u v \<Longrightarrow> trace_le t v"
  by (auto simp: trace_le_def intro: keeps_opt_trans)

lemma trace_le_observe [simp, intro]:
  "trace_le t (observe_ice n t)" "trace_le t (observe_dtls n t)"
  "trace_le t (observe_sctp n t)" "trace_le t (observe_open n t)"
  by (auto simp: trace_le_def observe_defs)

lemma trace_le_then [intro]:
  "trace_le t u \<Longrightarrow> trace_le t (observe_ice n u)" "trace_le t u \<Longrightarrow> trace_le t (observe_dtls n u)"
  "trace_le t u \<Longrightarrow> trace_le t (observe_sctp n u)" "trace_le t u \<Longrightarrow> trace_le t (observe_open n u)"
  using trace_le_trans trace_le_observe by blast+

lemma observe_guards:
  "(if b \<and> ice_ms t = None then t\<lparr>ice_ms := Some n\<rparr> else t) = (if b then observe_ice n else id) t"
  "(if b \<and> dtls_ms t = None then t\<lparr>dtls_ms := Some n\<rparr> else t) = (if b then observe_dtls n else id) t"
  "(if b \<and> sctp_ms t = None then t\<lparr>sctp_ms := Some n\<rparr> else t) = (if b then observe_sctp n else id) t"
  "(if b \<and> opened_ms t = None then t\<lparr>opened_ms := Some n\<rparr> else t) = (if b then observe_open n else id) t"
  by (simp_all add: observe_defs)

lemma observe_unfold:
  "opened_ms t = None \<Longrightarrow>
   observe n i d s p t =
     (if p then observe_open n else id) ((if s then observe_sctp n else id)
       ((if d then observe_dtls n else id) ((if i then observe_ice n else id) t)))"
  by (simp only: observe_def Let_def observe_guards not_True_eq_False simp_thms if_False)

lemma trace_le_observe_all [simp, intro]: "trace_le t (observe n i d s p t)"
proof (cases "opened_ms t")
  case None
  then show ?thesis
    by (simp add: observe_unfold trace_le_then)
next
  case (Some x)
  then show ?thesis by (simp add: observe_def)
qed

lemma opened_ms_observe [simp]:
  "opened_ms (observe_ice n t) = opened_ms t" "opened_ms (observe_dtls n t) = opened_ms t"
  "opened_ms (observe_sctp n t) = opened_ms t" "opened_ms (observe_open n t) \<noteq> None"
  by (auto simp: observe_defs)

end
