(* ===== verification/Wasm_Num.thy ===== *)
theory Wasm_Num
  imports Core_Types
begin

text \<open>
  What crosses the C ABI of the wasm module: IEEE doubles, UTF-8 text and linear memory.

  \<^item> An \<open>f64\<close> is \<open>NaN\<close>, an infinity or \<open>m * 2 ^ e\<close> (zeros are not told apart: no operation of
    the module does). The three operations the module uses are \<open>max(0.0)\<close>, the saturating cast to
    \<open>u64\<close> and the rounding cast from \<open>u64\<close>, to the nearest double with ties to even.
  \<^item> \<open>utf8_valid\<close> is the check of \<open>str::from_utf8\<close> (Unicode table 3-7).
  \<^item> Memory maps 32-bit addresses to bytes; a null or empty slice is empty.
\<close>

section \<open>Doubles\<close>

datatype f64 = NaN | Infinity | NegInfinity | Finite int int

definition f64_max_zero :: "f64 \<Rightarrow> f64" where
  "f64_max_zero x = (case x of
       NaN \<Rightarrow> Finite 0 0
     | Infinity \<Rightarrow> Infinity
     | NegInfinity \<Rightarrow> Finite 0 0
     | Finite m e \<Rightarrow> if m < 0 then Finite 0 0 else Finite m e)"

definition f64_positive :: "f64 \<Rightarrow> bool" where
  "f64_positive x = (case x of NaN \<Rightarrow> False | Infinity \<Rightarrow> True | NegInfinity \<Rightarrow> False | Finite m e \<Rightarrow> 0 < m)"

definition f64_as_u64 :: "f64 \<Rightarrow> nat" where
  "f64_as_u64 x = (case x of
       NaN \<Rightarrow> 0
     | Infinity \<Rightarrow> 2 ^ 64 - 1
     | NegInfinity \<Rightarrow> 0
     | Finite m e \<Rightarrow> if m \<le> 0 then 0
         else min (2 ^ 64 - 1) (nat (if 0 \<le> e then m * 2 ^ nat e else m div 2 ^ nat (- e))))"

fun bit_length :: "nat \<Rightarrow> nat" where
  "bit_length n = (if n = 0 then 0 else Suc (bit_length (n div 2)))"

declare bit_length.simps [simp del]

definition round_half_even :: "nat \<Rightarrow> nat \<Rightarrow> nat" where
  "round_half_even n k =
     (let q = n div 2 ^ k; r = n mod 2 ^ k in
      if 2 ^ k < 2 * r \<or> (2 * r = 2 ^ k \<and> odd q) then q + 1 else q)"

definition u64_as_f64 :: "nat \<Rightarrow> f64" where
  "u64_as_f64 n = (if n < 2 ^ 53 then Finite (int n) 0
     else (let k = bit_length n - 53 in Finite (int (round_half_even n k)) (int k)))"

abbreviation f64_minus_one :: f64 where "f64_minus_one \<equiv> Finite (- 1) 0"

lemma f64_round_trip:
  assumes "n < 2 ^ 53"
  shows "f64_as_u64 (u64_as_f64 n) = n"
proof -
  have "(2 :: nat) ^ 53 \<le> 2 ^ 64 - 1" by simp
  then have "n \<le> 2 ^ 64 - 1" using assms by linarith
  then show ?thesis using assms by (simp add: u64_as_f64_def f64_as_u64_def)
qed

lemma f64_as_u64_bound: "f64_as_u64 x \<le> 2 ^ 64 - 1"
  by (cases x) (simp_all add: f64_as_u64_def)

text \<open>Rounding stays within half a unit in the last place.\<close>

lemma round_half_even_error:
  "2 * n \<le> 2 * (round_half_even n k * 2 ^ k) + 2 ^ k \<and> 2 * (round_half_even n k * 2 ^ k) \<le> 2 * n + 2 ^ k"
proof -
  let ?q = "n div 2 ^ k" and ?r = "n mod 2 ^ k"
  have n: "n = ?q * 2 ^ k + ?r" by (rule div_mult_mod_eq [symmetric])
  have r: "?r < 2 ^ k" by simp
  show ?thesis
  proof (cases "2 ^ k < 2 * ?r \<or> (2 * ?r = 2 ^ k \<and> odd ?q)")
    case True
    then have "round_half_even n k = ?q + 1" by (auto simp: round_half_even_def Let_def)
    then have "round_half_even n k * 2 ^ k = ?q * 2 ^ k + 2 ^ k" by (simp add: algebra_simps)
    then show ?thesis using n r True by linarith
  next
    case False
    then have "round_half_even n k = ?q" by (auto simp: round_half_even_def Let_def)
    moreover from False have "2 * ?r \<le> 2 ^ k" by auto
    ultimately show ?thesis using n by (simp only:) linarith
  qed
qed

section \<open>Text\<close>

definition cont :: "byte \<Rightarrow> bool" where
  "cont b = (0x80 \<le> unat b \<and> unat b \<le> 0xBF)"

fun utf8_valid :: "byte list \<Rightarrow> bool" where
  "utf8_valid [] = True"
| "utf8_valid (a # s) =
     (if unat a < 0x80 then utf8_valid s
      else if 0xC2 \<le> unat a \<and> unat a \<le> 0xDF
      then (case s of b # s' \<Rightarrow> cont b \<and> utf8_valid s' | [] \<Rightarrow> False)
      else if 0xE0 \<le> unat a \<and> unat a \<le> 0xEF
      then (case s of
          b # c # s' \<Rightarrow> cont b \<and> cont c \<and> (unat a = 0xE0 \<longrightarrow> 0xA0 \<le> unat b) \<and> (unat a = 0xED \<longrightarrow> unat b \<le> 0x9F)
            \<and> utf8_valid s'
        | _ \<Rightarrow> False)
      else if 0xF0 \<le> unat a \<and> unat a \<le> 0xF4
      then (case s of
          b # c # d # s' \<Rightarrow> cont b \<and> cont c \<and> cont d \<and> (unat a = 0xF0 \<longrightarrow> 0x90 \<le> unat b)
            \<and> (unat a = 0xF4 \<longrightarrow> unat b \<le> 0x8F) \<and> utf8_valid s'
        | _ \<Rightarrow> False)
      else False)"

lemma utf8_valid_ascii: "list_all (\<lambda>b. unat b < 0x80) s \<Longrightarrow> utf8_valid s"
  by (induction s) auto

lemma bytes_str_bytes [simp]: "bytes_str (str_bytes s) = s"
proof -
  have "unat (of_char c :: byte) = of_char c" for c
    using unat_of_nat [where 'a = 8, of "of_char c"] nat_of_char_less_256 [of c] by (simp add: take_bit_eq_mod of_nat_of_char)
  then show ?thesis by (induction s) (simp_all add: bytes_str_def str_bytes_def)
qed

section \<open>Memory\<close>

type_synonym memory = "u32 \<Rightarrow> byte"

definition slice_from :: "memory \<Rightarrow> u32 \<Rightarrow> nat \<Rightarrow> byte list" where
  "slice_from mem ptr len = (if ptr = 0 \<or> len = 0 then [] else map (\<lambda>i. mem (ptr + of_nat i)) [0..<len])"

definition copy_nonoverlapping :: "byte list \<Rightarrow> u32 \<Rightarrow> nat \<Rightarrow> memory \<Rightarrow> memory" where
  "copy_nonoverlapping src buf n mem =
     (\<lambda>a. if unat (a - buf) < n then src ! unat (a - buf) else mem a)"

lemma slice_after_copy:
  assumes "buf \<noteq> 0" "n \<le> length src" "n \<le> 2 ^ 32"
  shows "slice_from (copy_nonoverlapping src buf n mem) buf n = take n src"
proof (cases "n = 0")
  case False
  have "unat (word_of_nat i :: u32) = i" if "i < n" for i
    using that assms(3) by (simp add: unat_of_nat take_bit_eq_mod)
  then show ?thesis using False assms
    by (intro nth_equalityI) (auto simp: slice_from_def copy_nonoverlapping_def)
qed (simp add: slice_from_def)

lemma copy_outside: "n \<le> unat (a - buf) \<Longrightarrow> copy_nonoverlapping src buf n mem a = mem a"
  by (simp add: copy_nonoverlapping_def)

end
