(* ===== verification/Backend.thy ===== *)
theory Backend
  imports Core_Types
begin

text \<open>
  The interface both backends of the core implement and the wasm layer calls. \<open>lib.rs\<close> exports
  one type named \<open>Tunnel\<close>, which is \<open>DirectTunnel\<close> or the \<open>rtc\<close>-driven \<open>Tunnel\<close> by a
  build feature; the two have the same methods. \<open>tunnel_api\<close> is that method table. A method
  that runs the protocol loops returns an option, \<open>None\<close> when a loop does not end.

  \<open>advances\<close> is the contract of every method on what the host can see: the event queue only
  grows at its end, the flags \<open>opened\<close> and \<open>finished\<close> are never taken back, and the \<open>Opened\<close>
  and \<open>Closed\<close> events are queued exactly when their flag turns on. The locale
  \<open>tunnel_backend\<close> states this for each method; the lemmas about whole host sessions are proved
  in it once, and both backends interpret it.
\<close>

type_synonym view = "event list \<times> bool \<times> bool"

fun advances :: "view \<Rightarrow> view \<Rightarrow> bool" where
  "advances (q, op, fin) (q', op', fin') =
     (\<exists>new. q' = q @ new \<and> (op \<longrightarrow> op') \<and> (fin \<longrightarrow> fin')
        \<and> length (filter is_opened_event new) = (if op' \<and> \<not> op then 1 else 0)
        \<and> length (filter is_closed_event new) = (if fin' \<and> \<not> fin then 1 else 0))"

lemma advances_refl [simp, intro, view_intros]: "advances v v"
  by (cases v) auto

lemma advances_trans [trans]:
  assumes "advances u v" "advances v w"
  shows "advances u w"
proof -
  obtain q op fin q' op' fin' q'' op'' fin''
    where eqs: "u = (q, op, fin)" "v = (q', op', fin')" "w = (q'', op'', fin'')"
    by (cases u; cases v; cases w) auto
  from assms obtain n m where "q' = q @ n" "q'' = q' @ m"
    and n: "op \<longrightarrow> op'" "fin \<longrightarrow> fin'"
      "length (filter is_opened_event n) = (if op' \<and> \<not> op then 1 else 0)"
      "length (filter is_closed_event n) = (if fin' \<and> \<not> fin then 1 else 0)"
    and m: "op' \<longrightarrow> op''" "fin' \<longrightarrow> fin''"
      "length (filter is_opened_event m) = (if op'' \<and> \<not> op' then 1 else 0)"
      "length (filter is_closed_event m) = (if fin'' \<and> \<not> fin' then 1 else 0)"
    unfolding eqs by auto
  then have "q'' = q @ (n @ m)" by simp
  moreover have "length (filter is_opened_event (n @ m)) = (if op'' \<and> \<not> op then 1 else 0)"
    using n(1,3) m(1,3) by (cases op; cases op'; cases op'') simp_all
  moreover have "length (filter is_closed_event (n @ m)) = (if fin'' \<and> \<not> fin then 1 else 0)"
    using n(2,4) m(2,4) by (cases fin; cases fin'; cases fin'') simp_all
  ultimately show ?thesis unfolding eqs advances.simps using n(1,2) m(1,2) by blast
qed

lemma advances_opened: "advances (q, False, fin) (q @ [Opened], True, fin)"
  by simp

lemma advances_closed: "advances (q, op, False) (q @ [Closed r], op, True)"
  by simp

lemma advances_plain:
  "\<not> is_opened_event e \<Longrightarrow> \<not> is_closed_event e \<Longrightarrow> advances (q, op, fin) (q @ [e], op, fin)"
  by simp

lemma advances_prepend: "advances (q, op, fin) (q', op', fin') \<Longrightarrow> advances (o' @ q, op, fin) (o' @ q', op', fin')"
  by auto

declare advances.simps [simp del]

section \<open>The method table\<close>

text \<open>\<open>set_remote_ice_credentials\<close> is a method of the direct backend only; the other one has the
  identity there.\<close>

record 't tunnel_api =
  new_op :: "tunnel_config \<Rightarrow> socket_addr \<Rightarrow> nat \<Rightarrow> (tunnel_error + 't) option"
  receive_op :: "nat \<Rightarrow> byte list \<Rightarrow> 't \<Rightarrow> 't option"
  receive_deferred_op :: "nat \<Rightarrow> byte list \<Rightarrow> 't \<Rightarrow> 't option"
  finish_input_batch_op :: "'t \<Rightarrow> 't option"
  tick_op :: "nat \<Rightarrow> 't \<Rightarrow> 't option"
  send_op :: "byte list \<Rightarrow> 't \<Rightarrow> (send_result \<times> 't) option"
  close_op :: "'t \<Rightarrow> 't"
  poll_event_op :: "'t \<Rightarrow> event option \<times> 't"
  next_deadline_op :: "'t \<Rightarrow> nat option \<times> 't"
  set_send_buffer_cap_op :: "nat \<Rightarrow> 't \<Rightarrow> 't"
  is_open_op :: "'t \<Rightarrow> bool"
  is_finished_op :: "'t \<Rightarrow> bool"
  dropped_datagrams_op :: "'t \<Rightarrow> u64"
  buffered_bytes_op :: "'t \<Rightarrow> nat"
  handshake_trace_op :: "'t \<Rightarrow> handshake_trace"
  cipher_suite_op :: "'t \<Rightarrow> rstr option \<times> 't"
  offer_sdp_op :: "'t \<Rightarrow> rstr option"
  set_remote_op :: "socket_addr \<Rightarrow> 't \<Rightarrow> 't"
  apply_answer_op :: "rstr \<Rightarrow> 't \<Rightarrow> ((tunnel_error + unit) \<times> 't) option"
  set_credentials_op :: "rstr \<Rightarrow> rstr \<Rightarrow> 't \<Rightarrow> 't"
  queue_op :: "'t \<Rightarrow> event list"

definition tview :: "'t tunnel_api \<Rightarrow> 't \<Rightarrow> view" where
  "tview api t = (queue_op api t, is_open_op api t, is_finished_op api t)"

section \<open>Host sessions\<close>

datatype host_call = Receive nat "byte list" | ReceiveDeferred nat "byte list" | FinishInputBatch
  | Tick nat | Send "byte list" | Close | PollEvent | NextDeadline | SetSendBufferCap nat | CipherSuite
  | SetRemote socket_addr | ApplyAnswer rstr | SetCredentials rstr rstr

text \<open>One call of the host; \<open>out\<close> collects the events it has polled so far.\<close>

fun host_step :: "'t tunnel_api \<Rightarrow> host_call \<Rightarrow> 't \<times> event list \<Rightarrow> ('t \<times> event list) option" where
  "host_step api (Receive n d) (t, out) = map_option (\<lambda>t'. (t', out)) (receive_op api n d t)"
| "host_step api (ReceiveDeferred n d) (t, out) = map_option (\<lambda>t'. (t', out)) (receive_deferred_op api n d t)"
| "host_step api FinishInputBatch (t, out) = map_option (\<lambda>t'. (t', out)) (finish_input_batch_op api t)"
| "host_step api (Tick n) (t, out) = map_option (\<lambda>t'. (t', out)) (tick_op api n t)"
| "host_step api (Send d) (t, out) = map_option (\<lambda>(r, t'). (t', out)) (send_op api d t)"
| "host_step api Close (t, out) = Some (close_op api t, out)"
| "host_step api PollEvent (t, out) = (case poll_event_op api t of
     (None, t') \<Rightarrow> Some (t', out) | (Some e, t') \<Rightarrow> Some (t', out @ [e]))"
| "host_step api NextDeadline (t, out) = Some (snd (next_deadline_op api t), out)"
| "host_step api (SetSendBufferCap c) (t, out) = Some (set_send_buffer_cap_op api c t, out)"
| "host_step api CipherSuite (t, out) = Some (snd (cipher_suite_op api t), out)"
| "host_step api (SetRemote a) (t, out) = Some (set_remote_op api a t, out)"
| "host_step api (ApplyAnswer sdp) (t, out) = map_option (\<lambda>(r, t'). (t', out)) (apply_answer_op api sdp t)"
| "host_step api (SetCredentials u p) (t, out) = Some (set_credentials_op api u p t, out)"

inductive host_reach :: "'t tunnel_api \<Rightarrow> 't \<Rightarrow> 't \<times> event list \<Rightarrow> bool" for api t0 where
  start: "host_reach api t0 (t0, [])"
| step: "host_reach api t0 s \<Longrightarrow> host_step api c s = Some s' \<Longrightarrow> host_reach api t0 s'"

text \<open>The calls that make the tunnel work, as opposed to polling it and setting its parameters.\<close>

fun drives :: "host_call \<Rightarrow> bool" where
  "drives (Receive n d) = True"
| "drives (ReceiveDeferred n d) = True"
| "drives FinishInputBatch = True"
| "drives (Tick n) = True"
| "drives (Send d) = True"
| "drives Close = True"
| "drives NextDeadline = True"
| "drives _ = False"

text \<open>Everything the host has been told or will be told: polled events, then the queue.\<close>

fun history :: "'t tunnel_api \<Rightarrow> 't \<times> event list \<Rightarrow> view" where
  "history api (t, out) = (out @ queue_op api t, is_open_op api t, is_finished_op api t)"

text \<open>Polling until the queue is empty, as every driver does.\<close>

definition poll_all :: "'t tunnel_api \<Rightarrow> 't \<Rightarrow> (event list \<times> 't) option" where
  "poll_all api t = while_let (\<lambda>(out, t). case poll_event_op api t of
       (None, t') \<Rightarrow> Done (out, t')
     | (Some e, t') \<Rightarrow> More (out @ [e], t')) ([], t)"

section \<open>The contract\<close>

locale tunnel_backend =
  fixes api :: "'t tunnel_api"
  assumes receive_advances: "receive_op api n d t = Some t' \<Longrightarrow> advances (tview api t) (tview api t')"
    and receive_deferred_advances:
      "receive_deferred_op api n d t = Some t' \<Longrightarrow> advances (tview api t) (tview api t')"
    and finish_batch_advances:
      "finish_input_batch_op api t = Some t' \<Longrightarrow> advances (tview api t) (tview api t')"
    and tick_advances: "tick_op api n t = Some t' \<Longrightarrow> advances (tview api t) (tview api t')"
    and send_advances: "send_op api d t = Some (r, t') \<Longrightarrow> advances (tview api t) (tview api t')"
    and close_view: "tview api (close_op api t) =
      (if is_finished_op api t then tview api t
       else (queue_op api t @ [Closed Local], is_open_op api t, True))"
    and poll_pops: "poll_event_op api t = (e, t') \<Longrightarrow>
      pop_front (queue_op api t) = (e, queue_op api t')
      \<and> is_open_op api t' = is_open_op api t \<and> is_finished_op api t' = is_finished_op api t"
    and deadline_view: "tview api (snd (next_deadline_op api t)) = tview api t"
    and set_cap_view: "tview api (set_send_buffer_cap_op api c t) = tview api t"
    and cipher_view: "tview api (snd (cipher_suite_op api t)) = tview api t"
    and set_remote_view: "tview api (set_remote_op api a t) = tview api t"
    and set_credentials_view: "tview api (set_credentials_op api u p t) = tview api t"
    and apply_answer_advances: "apply_answer_op api sdp t = Some (r', t') \<Longrightarrow> advances (tview api t) (tview api t')"
    and finished_absorbs: "is_finished_op api t \<Longrightarrow>
      receive_op api n d t = Some t \<and> receive_deferred_op api n d t = Some t
      \<and> finish_input_batch_op api t = Some t \<and> tick_op api n t = Some t
      \<and> send_op api d t = Some (NotOpen, t) \<and> close_op api t = t
      \<and> next_deadline_op api t = (None, t)"
    and send_accepted: "send_op api d t = Some (Accepted, t') \<Longrightarrow>
      \<not> is_finished_op api t \<and> is_open_op api t' \<and> length d \<le> MAX_MESSAGE_SIZE"
begin

lemma history_tview: "history api (t, out) = (out @ fst (tview api t), snd (tview api t))"
  by (simp add: tview_def)

lemma history_mono:
  "advances (tview api t) (tview api t') \<Longrightarrow> advances (history api (t, out)) (history api (t', out))"
  by (simp add: tview_def advances_prepend)

lemma history_same: "tview api t' = tview api t \<Longrightarrow> advances (history api (t, out)) (history api (t', out))"
  by (rule history_mono) simp

lemma close_advances: "advances (tview api t) (tview api (close_op api t))"
  using close_view [of t]
  by (cases "is_finished_op api t") (simp_all add: tview_def [of api t] advances_closed)

lemma poll_history:
  assumes "host_step api PollEvent (t, out) = Some (t', out')"
  shows "history api (t', out') = history api (t, out)"
proof -
  obtain e u where p: "poll_event_op api t = (e, u)" by (cases "poll_event_op api t") auto
  from poll_pops [OF p] assms p show ?thesis
    by (cases "queue_op api t") auto
qed

text \<open>One call of the host extends the history and changes nothing in it.\<close>

lemma step_history:
  assumes "host_step api c s = Some s'"
  shows "advances (history api s) (history api s')"
proof -
  obtain t out t' out' where s: "s = (t, out)" "s' = (t', out')" by (cases s; cases s') auto
  show ?thesis
  proof (cases c)
    case PollEvent
    then show ?thesis using assms poll_history [of t out t' out'] unfolding s by simp
  next
    case NextDeadline
    then show ?thesis using assms deadline_view unfolding s by (auto intro!: history_same simp del: history.simps)
  next
    case (SetSendBufferCap n)
    then show ?thesis using assms set_cap_view unfolding s by (auto intro!: history_same simp del: history.simps)
  next
    case CipherSuite
    then show ?thesis using assms cipher_view unfolding s by (auto intro!: history_same simp del: history.simps)
  next
    case (SetRemote a)
    then show ?thesis using assms set_remote_view unfolding s by (auto intro!: history_same simp del: history.simps)
  next
    case (SetCredentials u p)
    then show ?thesis using assms set_credentials_view unfolding s by (auto intro!: history_same simp del: history.simps)
  next
    case Close
    then have "t' = close_op api t" "out' = out" using assms unfolding s by auto
    then show ?thesis unfolding s using history_mono [OF close_advances] by simp
  qed (use assms s in \<open>auto simp del: history.simps intro!: history_mono
        intro: receive_advances receive_deferred_advances finish_batch_advances
          tick_advances send_advances apply_answer_advances\<close>)
qed

lemma reach_history: "host_reach api t0 s \<Longrightarrow> advances (tview api t0) (history api s)"
proof (induction rule: host_reach.induct)
  case start
  show ?case by (simp add: tview_def)
next
  case (step s c s')
  then show ?case using advances_trans step_history by blast
qed

text \<open>A tunnel that has evolved from an empty start, as one whose constructor already drained, has
  told its host of each flag exactly once.\<close>

lemma reach_counts:
  assumes "host_reach api t0 (t, out)" "advances ([], False, False) (tview api t0)"
  shows "length (filter is_opened_event (out @ queue_op api t)) = (if is_open_op api t then 1 else 0)
    \<and> length (filter is_closed_event (out @ queue_op api t)) = (if is_finished_op api t then 1 else 0)"
  using advances_trans [OF assms(2) reach_history [OF assms(1)]] by (auto simp: advances.simps)

text \<open>A fresh tunnel tells its host at most once that it opened and at most once that it closed,
  and it has told it exactly when the flag is set.\<close>

lemma reach_once:
  assumes "host_reach api t0 (t, out)"
    and fresh: "filter is_opened_event (queue_op api t0) = []" "filter is_closed_event (queue_op api t0) = []"
      "\<not> is_open_op api t0" "\<not> is_finished_op api t0"
  shows "length (filter is_opened_event (out @ queue_op api t)) = (if is_open_op api t then 1 else 0)
    \<and> length (filter is_closed_event (out @ queue_op api t)) = (if is_finished_op api t then 1 else 0)"
proof -
  have "advances ([], False, False) (tview api t0)"
    using fresh by (simp add: tview_def advances.simps filter_empty_conv)
  then show ?thesis by (rule reach_counts [OF assms(1)])
qed

text \<open>A call that drives a finished tunnel changes nothing: what is left is polling, asking for
  statistics and setting parameters.\<close>

lemma finished_frozen:
  assumes "is_finished_op api t" "host_step api c (t, out) = Some (t', out')" "drives c"
  shows "t' = t \<and> out' = out"
  using assms finished_absorbs [OF assms(1)] by (cases c) auto

lemma poll_all_queue:
  "\<exists>t'. poll_all api t = Some (queue_op api t, t') \<and> queue_op api t' = []
     \<and> is_open_op api t' = is_open_op api t \<and> is_finished_op api t' = is_finished_op api t"
proof -
  let ?step = "\<lambda>(out, t). case poll_event_op api t of
       (None, t') \<Rightarrow> Done (out, t') | (Some e, t') \<Rightarrow> More (out @ [e], t')"
  have "\<exists>t'. while_let ?step (out, t) = Some (out @ queue_op api t, t') \<and> queue_op api t' = []
     \<and> is_open_op api t' = is_open_op api t \<and> is_finished_op api t' = is_finished_op api t" for out
  proof (induction "queue_op api t" arbitrary: t out)
    case Nil
    obtain e u where p: "poll_event_op api t = (e, u)" by (cases "poll_event_op api t") auto
    from poll_pops [OF p] Nil have "e = None" "queue_op api u = []" by auto
    with p poll_pops [OF p] Nil show ?case by (auto intro!: exI [of _ u])
  next
    case (Cons x xs)
    obtain e u where p: "poll_event_op api t = (e, u)" by (cases "poll_event_op api t") auto
    from Cons(2) have q: "queue_op api t = x # xs" by simp
    from poll_pops [OF p] q have u: "e = Some x" "xs = queue_op api u" by auto
    from Cons(1) [OF u(2), of "out @ [x]"] u p poll_pops [OF p] q show ?case
      by (simp add: while_let_More [of ?step "(out, t)" "(out @ [x], u)"])
  qed
  from this [of "[]"] show ?thesis by (simp add: poll_all_def)
qed

end

end
