(* ===== verification/Wasm_Abi.thy ===== *)
theory Wasm_Abi
  imports Wasm_Num Backend
begin

text \<open>
  The C ABI of the wasm module, \<open>rtc-tunnel-wasm/src/lib.rs\<close>, over any backend. A handle pointer is
  \<open>None\<close> when null; a function that changes the handle returns it. Linear memory, and the
  addresses the allocator gave to the buffers the module points into, are arguments. \<open>LAST_ERROR\<close>
  is threaded through \<open>create\<close>; the module is single threaded, so its mutex is never poisoned.
  An outer option is \<open>None\<close> when a loop of the backend does not end.
\<close>

section \<open>Codes\<close>

abbreviation (input) EVENT_NONE :: u32 where "EVENT_NONE \<equiv> 0"
abbreviation (input) EVENT_DATAGRAM :: u32 where "EVENT_DATAGRAM \<equiv> 1"
abbreviation (input) EVENT_OPENED :: u32 where "EVENT_OPENED \<equiv> 2"
abbreviation (input) EVENT_MESSAGE :: u32 where "EVENT_MESSAGE \<equiv> 3"
abbreviation (input) EVENT_CLOSED :: u32 where "EVENT_CLOSED \<equiv> 4"

primrec send_code :: "send_result \<Rightarrow> u32" where
  "send_code Accepted = 0"
| "send_code Backpressure = 1"
| "send_code TooLarge = 3"
| "send_code NotOpen = 2"

definition rtc_tunnel_abi_version :: u32 where
  "rtc_tunnel_abi_version = 1"

primrec close_reason_code :: "close_reason \<Rightarrow> u32" where
  "close_reason_code Local = 0"
| "close_reason_code Remote = 1"
| "close_reason_code Timeout = 2"
| "close_reason_code Failure = 3"

section \<open>The last error\<close>

definition set_last_error :: "rstr \<Rightarrow> byte list" where
  "set_last_error message = str_bytes message"

definition clear_last_error :: "byte list" where
  "clear_last_error = []"

definition rtc_tunnel_last_error_len :: "byte list \<Rightarrow> nat" where
  "rtc_tunnel_last_error_len last_error = length last_error"

definition rtc_tunnel_last_error_copy :: "byte list \<Rightarrow> u32 \<Rightarrow> nat \<Rightarrow> memory \<Rightarrow> nat \<times> memory" where
  "rtc_tunnel_last_error_copy last_error buf cap mem = (if buf = 0 then (0, mem)
     else (let n = min (length last_error) cap in (n, copy_nonoverlapping last_error buf n mem)))"

section \<open>Handles\<close>

record 't tunnel_handle =
  th_tunnel :: 't
  th_offer :: "byte list"
  th_event_kind :: u32
  th_event_payload :: "byte list"
  th_event_reason :: u32
  th_drained :: "event list"
  th_descriptors :: "u32 list"
  th_cipher :: "byte list option"

definition cipher_name :: "'t tunnel_api \<Rightarrow> 't tunnel_handle \<Rightarrow> byte list option \<times> 't tunnel_handle" where
  "cipher_name api h =
     (let h = (if th_cipher h = None then
         (let (suite, t) = cipher_suite_op api (th_tunnel h)
          in h\<lparr>th_tunnel := t, th_cipher := map_option str_bytes suite\<rparr>) else h)
      in (th_cipher h, h))"

text \<open>The allocator of the target: a nonzero request goes to it.\<close>

definition rtc_tunnel_alloc :: "(nat \<Rightarrow> 'm \<Rightarrow> u32 \<times> 'm) \<Rightarrow> nat \<Rightarrow> 'm \<Rightarrow> u32 \<times> 'm" where
  "rtc_tunnel_alloc alloc len m = (if len = 0 then (0, m) else alloc len m)"

definition rtc_tunnel_free :: "(u32 \<Rightarrow> nat \<Rightarrow> 'm \<Rightarrow> 'm) \<Rightarrow> u32 \<Rightarrow> nat \<Rightarrow> 'm \<Rightarrow> 'm" where
  "rtc_tunnel_free dealloc ptr len m = (if ptr \<noteq> 0 \<and> 0 < len then dealloc ptr len m else m)"

definition str_arg :: "memory \<Rightarrow> u32 \<Rightarrow> nat \<Rightarrow> unit + rstr" where
  "str_arg mem ptr len = (if ptr = 0 then Inl ()
     else (let s = slice_from mem ptr len in if utf8_valid s then Inr (bytes_str s) else Inl ()))"

definition addr_arg :: "memory \<Rightarrow> u32 \<Rightarrow> nat \<Rightarrow> unit + socket_addr" where
  "addr_arg mem ptr len = (case str_arg mem ptr len of
       Inl u \<Rightarrow> Inl u
     | Inr s \<Rightarrow> (case parse_socket_addr s of None \<Rightarrow> Inl () | Some a \<Rightarrow> Inr a))"

section \<open>Creation\<close>

record create_args =
  ca_remote :: "u32 \<times> nat"
  ca_ufrag :: "u32 \<times> nat"
  ca_pwd :: "u32 \<times> nat"
  ca_fingerprint :: "u32 \<times> nat"
  ca_fingerprint_algorithm :: "u32 \<times> nat"
  ca_local :: "u32 \<times> nat"
  ca_sctp_port :: u32
  ca_stream_id :: u32
  ca_ordered :: u32
  ca_max_retransmits :: u32
  ca_handshake_timeout_ms :: f64
  ca_disable_fingerprint_verification :: u32
  ca_now_ms :: f64

definition create_config ::
  "create_args \<Rightarrow> socket_addr \<Rightarrow> rstr \<Rightarrow> rstr \<Rightarrow> rstr \<Rightarrow> rstr \<Rightarrow> tunnel_config" where
  "create_config a remote ufrag pwd fingerprint fingerprint_algorithm =
     (let config = tunnel_config_new remote ufrag pwd fingerprint;
          config = config\<lparr>cfg_sctp_port := ucast (ca_sctp_port a), cfg_stream_id := ucast (ca_stream_id a),
            cfg_fingerprint_algorithm := fingerprint_algorithm, cfg_ordered := ca_ordered a \<noteq> 0,
            cfg_max_retransmits := (if 0 \<le> sint (ca_max_retransmits a) then Some (ucast (ca_max_retransmits a)) else None)\<rparr>;
          config = (if f64_positive (ca_handshake_timeout_ms a)
            then config\<lparr>cfg_handshake_timeout_ms := f64_as_u64 (ca_handshake_timeout_ms a)\<rparr> else config)
      in config\<lparr>cfg_disable_fingerprint_verification := ca_disable_fingerprint_verification a \<noteq> 0\<rparr>)"

definition new_handle :: "'t tunnel_api \<Rightarrow> 't \<Rightarrow> 't tunnel_handle" where
  "new_handle api t = \<lparr>th_tunnel = t, th_offer = str_bytes (or_default [] (offer_sdp_op api t)),
     th_event_kind = EVENT_NONE, th_event_payload = [], th_event_reason = 0, th_drained = [],
     th_descriptors = [], th_cipher = None\<rparr>"

definition create_result :: "'t tunnel_api \<Rightarrow> tunnel_error + 't \<Rightarrow> 't tunnel_handle option \<times> byte list" where
  "create_result api r = (case r of
       Inr t \<Rightarrow> (Some (new_handle api t), clear_last_error)
     | Inl err \<Rightarrow> (None, set_last_error (show_tunnel_error err)))"

text \<open>Returns the handle pointer and the new \<open>LAST_ERROR\<close>.\<close>

definition rtc_tunnel_create ::
  "'t tunnel_api \<Rightarrow> memory \<Rightarrow> create_args \<Rightarrow> ('t tunnel_handle option \<times> byte list) option" where
  "rtc_tunnel_create api mem a =
     (case addr_arg mem (fst (ca_remote a)) (snd (ca_remote a)) of
        Inl _ \<Rightarrow> Some (None, set_last_error ''remote must be an ip:port string'')
      | Inr remote \<Rightarrow>
     (case addr_arg mem (fst (ca_local a)) (snd (ca_local a)) of
        Inl _ \<Rightarrow> Some (None, set_last_error ''local must be an ip:port string'')
      | Inr loc \<Rightarrow>
     (case str_arg mem (fst (ca_ufrag a)) (snd (ca_ufrag a)) of
        Inl _ \<Rightarrow> Some (None, set_last_error ''ice ufrag must be valid utf-8'')
      | Inr ufrag \<Rightarrow>
     (case str_arg mem (fst (ca_pwd a)) (snd (ca_pwd a)) of
        Inl _ \<Rightarrow> Some (None, set_last_error ''ice pwd must be valid utf-8'')
      | Inr pwd \<Rightarrow>
     (case str_arg mem (fst (ca_fingerprint a)) (snd (ca_fingerprint a)) of
        Inl _ \<Rightarrow> Some (None, set_last_error ''fingerprint must be valid utf-8'')
      | Inr fingerprint \<Rightarrow>
     (case str_arg mem (fst (ca_fingerprint_algorithm a)) (snd (ca_fingerprint_algorithm a)) of
        Inl _ \<Rightarrow> Some (None, set_last_error ''fingerprint algorithm must be valid utf-8'')
      | Inr algorithm \<Rightarrow>
          if 65535 < ca_sctp_port a then Some (None, set_last_error ''sctp port must fit in u16'')
          else if 65534 < ca_stream_id a then Some (None, set_last_error ''stream id must be 0..=65534'')
          else map_option (create_result api)
            (new_op api (create_config a remote ufrag pwd fingerprint algorithm) loc
              (f64_as_u64 (f64_max_zero (ca_now_ms a))))))))))"

definition rtc_tunnel_destroy :: "'t tunnel_handle option \<Rightarrow> 't tunnel_handle option" where
  "rtc_tunnel_destroy h = None"

section \<open>Calls that run the tunnel\<close>

definition on_tunnel ::
  "('t \<Rightarrow> 't option) \<Rightarrow> 't tunnel_handle option \<Rightarrow> 't tunnel_handle option option" where
  "on_tunnel f h = (case h of None \<Rightarrow> Some None
     | Some h \<Rightarrow> map_option (\<lambda>t. Some (h\<lparr>th_tunnel := t\<rparr>)) (f (th_tunnel h)))"

definition rtc_tunnel_input ::
  "'t tunnel_api \<Rightarrow> memory \<Rightarrow> 't tunnel_handle option \<Rightarrow> f64 \<Rightarrow> u32 \<Rightarrow> nat \<Rightarrow> 't tunnel_handle option option" where
  "rtc_tunnel_input api mem h now_ms data_ptr data_len =
     on_tunnel (receive_op api (f64_as_u64 (f64_max_zero now_ms)) (slice_from mem data_ptr data_len)) h"

definition rtc_tunnel_input_deferred ::
  "'t tunnel_api \<Rightarrow> memory \<Rightarrow> 't tunnel_handle option \<Rightarrow> f64 \<Rightarrow> u32 \<Rightarrow> nat \<Rightarrow> 't tunnel_handle option option" where
  "rtc_tunnel_input_deferred api mem h now_ms data_ptr data_len =
     on_tunnel (receive_deferred_op api (f64_as_u64 (f64_max_zero now_ms)) (slice_from mem data_ptr data_len)) h"

definition rtc_tunnel_finish_input_batch ::
  "'t tunnel_api \<Rightarrow> 't tunnel_handle option \<Rightarrow> 't tunnel_handle option option" where
  "rtc_tunnel_finish_input_batch api h = on_tunnel (finish_input_batch_op api) h"

definition rtc_tunnel_tick :: "'t tunnel_api \<Rightarrow> 't tunnel_handle option \<Rightarrow> f64 \<Rightarrow> 't tunnel_handle option option" where
  "rtc_tunnel_tick api h now_ms = on_tunnel (tick_op api (f64_as_u64 (f64_max_zero now_ms))) h"

definition rtc_tunnel_send ::
  "'t tunnel_api \<Rightarrow> memory \<Rightarrow> 't tunnel_handle option \<Rightarrow> u32 \<Rightarrow> nat \<Rightarrow> (u32 \<times> 't tunnel_handle option) option" where
  "rtc_tunnel_send api mem h data_ptr data_len = (case h of
       None \<Rightarrow> Some (send_code NotOpen, None)
     | Some h \<Rightarrow> map_option (\<lambda>(r, t). (send_code r, Some (h\<lparr>th_tunnel := t\<rparr>)))
         (send_op api (slice_from mem data_ptr data_len) (th_tunnel h)))"

definition rtc_tunnel_next_deadline ::
  "'t tunnel_api \<Rightarrow> 't tunnel_handle option \<Rightarrow> f64 \<times> 't tunnel_handle option" where
  "rtc_tunnel_next_deadline api h = (case h of
       None \<Rightarrow> (f64_minus_one, None)
     | Some h \<Rightarrow> (let (d, t) = next_deadline_op api (th_tunnel h)
         in (or_default f64_minus_one (map_option u64_as_f64 d), Some (h\<lparr>th_tunnel := t\<rparr>))))"

definition rtc_tunnel_is_open :: "'t tunnel_api \<Rightarrow> 't tunnel_handle option \<Rightarrow> u32" where
  "rtc_tunnel_is_open api h = (case h of None \<Rightarrow> 0 | Some h \<Rightarrow> of_bool (is_open_op api (th_tunnel h)))"

definition rtc_tunnel_is_finished :: "'t tunnel_api \<Rightarrow> 't tunnel_handle option \<Rightarrow> u32" where
  "rtc_tunnel_is_finished api h = (case h of None \<Rightarrow> 1 | Some h \<Rightarrow> of_bool (is_finished_op api (th_tunnel h)))"

definition rtc_tunnel_dropped_datagrams :: "'t tunnel_api \<Rightarrow> 't tunnel_handle option \<Rightarrow> f64" where
  "rtc_tunnel_dropped_datagrams api h = (case h of None \<Rightarrow> Finite 0 0
     | Some h \<Rightarrow> u64_as_f64 (unat (dropped_datagrams_op api (th_tunnel h))))"

definition rtc_tunnel_close :: "'t tunnel_api \<Rightarrow> 't tunnel_handle option \<Rightarrow> 't tunnel_handle option" where
  "rtc_tunnel_close api h = map_option (\<lambda>h. h\<lparr>th_tunnel := close_op api (th_tunnel h)\<rparr>) h"

definition rtc_tunnel_set_send_buffer_cap ::
  "'t tunnel_api \<Rightarrow> 't tunnel_handle option \<Rightarrow> nat \<Rightarrow> 't tunnel_handle option" where
  "rtc_tunnel_set_send_buffer_cap api h cap = map_option (\<lambda>h. h\<lparr>th_tunnel := set_send_buffer_cap_op api cap (th_tunnel h)\<rparr>) h"

definition rtc_tunnel_offer_len :: "'t tunnel_handle option \<Rightarrow> nat" where
  "rtc_tunnel_offer_len h = (case h of None \<Rightarrow> 0 | Some h \<Rightarrow> length (th_offer h))"

definition rtc_tunnel_offer_copy :: "'t tunnel_handle option \<Rightarrow> u32 \<Rightarrow> nat \<Rightarrow> memory \<Rightarrow> nat \<times> memory" where
  "rtc_tunnel_offer_copy h buf cap mem = (case h of
       None \<Rightarrow> (0, mem)
     | Some h \<Rightarrow> if buf = 0 then (0, mem)
         else (let n = min (length (th_offer h)) cap in (n, copy_nonoverlapping (th_offer h) buf n mem)))"

section \<open>Events\<close>

definition rtc_tunnel_poll_event ::
  "'t tunnel_api \<Rightarrow> 't tunnel_handle option \<Rightarrow> u32 \<times> 't tunnel_handle option" where
  "rtc_tunnel_poll_event api h = (case h of
       None \<Rightarrow> (EVENT_NONE, None)
     | Some h \<Rightarrow>
         (let h = h\<lparr>th_event_kind := EVENT_NONE, th_event_payload := [], th_event_reason := 0\<rparr>;
              (e, t) = poll_event_op api (th_tunnel h);
              h = h\<lparr>th_tunnel := t\<rparr>
          in case e of
               None \<Rightarrow> (EVENT_NONE, Some h)
             | Some (SendDatagram bytes) \<Rightarrow>
                 (EVENT_DATAGRAM, Some (h\<lparr>th_event_payload := bytes, th_event_kind := EVENT_DATAGRAM\<rparr>))
             | Some Opened \<Rightarrow> (EVENT_OPENED, Some (h\<lparr>th_event_kind := EVENT_OPENED\<rparr>))
             | Some (Message bytes) \<Rightarrow>
                 (EVENT_MESSAGE, Some (h\<lparr>th_event_payload := bytes, th_event_kind := EVENT_MESSAGE\<rparr>))
             | Some (Closed reason) \<Rightarrow>
                 (EVENT_CLOSED, Some (h\<lparr>th_event_reason := close_reason_code reason, th_event_kind := EVENT_CLOSED\<rparr>))))"

text \<open>\<open>as_ptr\<close> of a vector: the address the allocator gave its buffer.\<close>

definition rtc_tunnel_event_ptr :: "(byte list \<Rightarrow> u32) \<Rightarrow> 't tunnel_handle option \<Rightarrow> u32" where
  "rtc_tunnel_event_ptr as_ptr h = (case h of None \<Rightarrow> 0 | Some h \<Rightarrow> as_ptr (th_event_payload h))"

definition rtc_tunnel_event_len :: "'t tunnel_handle option \<Rightarrow> nat" where
  "rtc_tunnel_event_len h = (case h of None \<Rightarrow> 0 | Some h \<Rightarrow> length (th_event_payload h))"

definition rtc_tunnel_event_reason :: "'t tunnel_handle option \<Rightarrow> u32" where
  "rtc_tunnel_event_reason h = (case h of None \<Rightarrow> 0 | Some h \<Rightarrow> th_event_reason h)"

definition rtc_tunnel_event_kind :: "'t tunnel_handle option \<Rightarrow> u32" where
  "rtc_tunnel_event_kind h = (case h of None \<Rightarrow> EVENT_NONE | Some h \<Rightarrow> th_event_kind h)"

text \<open>The four words of one event; \<open>addr\<close> is where its payload lies.\<close>

primrec descriptor :: "u32 \<Rightarrow> event \<Rightarrow> u32 list" where
  "descriptor addr (SendDatagram bytes) = [EVENT_DATAGRAM, addr, of_nat (length bytes), 0]"
| "descriptor addr Opened = [EVENT_OPENED, 0, 0, 0]"
| "descriptor addr (Message bytes) = [EVENT_MESSAGE, addr, of_nat (length bytes), 0]"
| "descriptor addr (Closed reason) = [EVENT_CLOSED, 0, 0, close_reason_code reason]"

text \<open>The polling loop with a number of pushes left, then the descriptors of what was drained.\<close>

fun drain_loop :: "'t tunnel_api \<Rightarrow> nat \<Rightarrow> 't \<Rightarrow> event list \<times> 't" where
  "drain_loop api 0 t = ([], t)"
| "drain_loop api (Suc n) t = (case poll_event_op api t of
       (None, t) \<Rightarrow> ([], t)
     | (Some e, t) \<Rightarrow> (let (es, t) = drain_loop api n t in (e # es, t)))"

definition rtc_tunnel_drain_events ::
  "'t tunnel_api \<Rightarrow> (nat \<Rightarrow> u32) \<Rightarrow> 't tunnel_handle option \<Rightarrow> u32 \<Rightarrow> u32 \<times> 't tunnel_handle option" where
  "rtc_tunnel_drain_events api as_ptr h max_events = (case h of
       None \<Rightarrow> (0, None)
     | Some h \<Rightarrow>
         (let (drained, t) = drain_loop api (unat max_events) (th_tunnel h);
              descriptors = concat (map (\<lambda>(i, e). descriptor (as_ptr i) e) (enumerate 0 drained))
          in (of_nat (length descriptors div 4),
              Some (h\<lparr>th_tunnel := t, th_drained := drained, th_descriptors := descriptors\<rparr>))))"

definition rtc_tunnel_events_ptr :: "(u32 list \<Rightarrow> u32) \<Rightarrow> 't tunnel_handle option \<Rightarrow> u32" where
  "rtc_tunnel_events_ptr as_ptr h = (case h of None \<Rightarrow> 0 | Some h \<Rightarrow> as_ptr (th_descriptors h))"

section \<open>Statistics\<close>

definition rtc_tunnel_buffered_bytes :: "'t tunnel_api \<Rightarrow> 't tunnel_handle option \<Rightarrow> f64" where
  "rtc_tunnel_buffered_bytes api h = (case h of None \<Rightarrow> Finite 0 0
     | Some h \<Rightarrow> u64_as_f64 (buffered_bytes_op api (th_tunnel h)))"

definition rtc_tunnel_stage_ms :: "'t tunnel_api \<Rightarrow> 't tunnel_handle option \<Rightarrow> u32 \<Rightarrow> f64" where
  "rtc_tunnel_stage_ms api h stage = (case h of
       None \<Rightarrow> f64_minus_one
     | Some h \<Rightarrow>
         (let trace = handshake_trace_op api (th_tunnel h);
              value = (if stage = 0 then Some (start_ms trace) else if stage = 1 then ice_ms trace
                else if stage = 2 then dtls_ms trace else if stage = 3 then sctp_ms trace
                else if stage = 4 then opened_ms trace else None)
          in or_default f64_minus_one (map_option u64_as_f64 value)))"

definition rtc_tunnel_cipher_len ::
  "'t tunnel_api \<Rightarrow> 't tunnel_handle option \<Rightarrow> nat \<times> 't tunnel_handle option" where
  "rtc_tunnel_cipher_len api h = (case h of
       None \<Rightarrow> (0, None)
     | Some h \<Rightarrow> (let (name, h) = cipher_name api h in (or_default 0 (map_option length name), Some h)))"

definition rtc_tunnel_cipher_copy ::
  "'t tunnel_api \<Rightarrow> 't tunnel_handle option \<Rightarrow> u32 \<Rightarrow> nat \<Rightarrow> memory \<Rightarrow> nat \<times> 't tunnel_handle option \<times> memory" where
  "rtc_tunnel_cipher_copy api h buf cap mem = (case h of
       None \<Rightarrow> (0, None, mem)
     | Some h \<Rightarrow> if buf = 0 then (0, Some h, mem)
         else (let (name, h) = cipher_name api h in
           case name of
             None \<Rightarrow> (0, Some h, mem)
           | Some s \<Rightarrow> (let n = min (length s) cap in (n, Some h, copy_nonoverlapping s buf n mem))))"

end
