(* ===== verification/Sdp.thy ===== *)
theory Sdp
  imports Core_Types
begin

text \<open>
  The session descriptions the tunnel writes and reads. The core does not carry an SDP parser:
  \<open>ParsedOffer::parse\<close> and \<open>parse_answer_fingerprint\<close> of \<open>direct/mod.rs\<close> pick the few lines a
  known peer needs, \<open>render_sdp\<close> writes the local half, \<open>Tunnel::remote_answer_sdp\<close> of
  \<open>tunnel.rs\<close> synthesizes the passive peer's answer, and the reference peer has its own candidate
  reader. The lemmas show that the readers recover what the writers put in.
\<close>

section \<open>Reading\<close>

record parsed_offer =
  po_ufrag :: rstr
  po_pwd :: rstr
  po_remote :: socket_addr
  po_fingerprint :: rstr

text \<open>The four local variables of the parse loop.\<close>

record offer_acc =
  oa_ufrag :: "rstr option"
  oa_pwd :: "rstr option"
  oa_remote :: "socket_addr option"
  oa_fingerprint :: "rstr option"

definition parse_candidate_addr :: "rstr \<Rightarrow> rstr \<Rightarrow> socket_addr option" where
  "parse_candidate_addr address port =
     parse_socket_addr
       (if colon \<in> set address then ''['' @ address @ '']:'' @ port else address @ '':'' @ port)"

definition offer_line :: "rstr \<Rightarrow> offer_acc \<Rightarrow> offer_acc" where
  "offer_line raw acc = (let line = trim raw in
     case strip_prefix ''a=ice-ufrag:'' line of
       Some value \<Rightarrow> acc\<lparr>oa_ufrag := Some (trim value)\<rparr>
     | None \<Rightarrow> (case strip_prefix ''a=ice-pwd:'' line of
       Some value \<Rightarrow> acc\<lparr>oa_pwd := Some (trim value)\<rparr>
     | None \<Rightarrow> (case strip_prefix ''a=fingerprint:'' line of
       Some value \<Rightarrow> (case split_once (CHR '' '') value of
           Some (_, value) \<Rightarrow> acc\<lparr>oa_fingerprint := Some (to_lowercase (trim value))\<rparr>
         | None \<Rightarrow> acc)
     | None \<Rightarrow> (case strip_prefix ''a=candidate:'' line of
       Some value \<Rightarrow> (let fields = split_whitespace value in
           if 8 \<le> length fields \<and> fields ! 1 = ''1'' \<and> fields ! 7 = ''host''
           then (case parse_candidate_addr (fields ! 4) (fields ! 5) of
               Some addr \<Rightarrow> acc\<lparr>oa_remote := Some addr\<rparr>
             | None \<Rightarrow> acc)
           else acc)
     | None \<Rightarrow> acc))))"

definition offer_init :: offer_acc where
  "offer_init = \<lparr>oa_ufrag = None, oa_pwd = None, oa_remote = None, oa_fingerprint = None\<rparr>"

definition parse_offer :: "rstr \<Rightarrow> tunnel_error + parsed_offer" where
  "parse_offer sdp = (let acc = fold offer_line (lines sdp) offer_init in
     case oa_ufrag acc of
       None \<Rightarrow> Inl (Config ''offer has no ice-ufrag'')
     | Some ufrag \<Rightarrow> (case oa_pwd acc of
       None \<Rightarrow> Inl (Config ''offer has no ice-pwd'')
     | Some pwd \<Rightarrow> (case oa_remote acc of
       None \<Rightarrow> Inl (Config ''offer has no host candidate'')
     | Some remote \<Rightarrow> Inr \<lparr>po_ufrag = ufrag, po_pwd = pwd, po_remote = remote,
         po_fingerprint = or_default [] (oa_fingerprint acc)\<rparr>)))"

text \<open>\<open>parse_answer_fingerprint\<close> returns at the first line that carries a fingerprint.\<close>

fun answer_fingerprint_lines :: "rstr list \<Rightarrow> rstr option" where
  "answer_fingerprint_lines [] = None"
| "answer_fingerprint_lines (raw # ls) =
     (case strip_prefix ''a=fingerprint:'' (trim raw) of
        Some value \<Rightarrow> (case split_once (CHR '' '') value of
            Some (_, value) \<Rightarrow> Some (to_lowercase (trim value))
          | None \<Rightarrow> answer_fingerprint_lines ls)
      | None \<Rightarrow> answer_fingerprint_lines ls)"

definition parse_answer_fingerprint :: "rstr \<Rightarrow> rstr option" where
  "parse_answer_fingerprint sdp = answer_fingerprint_lines (lines sdp)"

text \<open>The reference peer's reader: first UDP candidate of component 1 whose address parses.\<close>

fun candidate_address_lines :: "rstr list \<Rightarrow> socket_addr option" where
  "candidate_address_lines [] = None"
| "candidate_address_lines (raw # ls) =
     (case strip_prefix ''a=candidate:'' (trim raw) of
        None \<Rightarrow> candidate_address_lines ls
      | Some rest \<Rightarrow> (let fields = split_whitespace rest in
          if length fields < 6 then candidate_address_lines ls
          else if fields ! 1 \<noteq> ''1'' \<or> \<not> eq_ignore_ascii_case (fields ! 2) ''udp''
          then candidate_address_lines ls
          else (case parse_socket_addr (fields ! 4 @ '':'' @ fields ! 5) of
              Some addr \<Rightarrow> Some addr
            | None \<Rightarrow> candidate_address_lines ls)))"

definition candidate_address :: "rstr \<Rightarrow> socket_addr option" where
  "candidate_address sdp = candidate_address_lines (lines sdp)"

section \<open>Writing\<close>

definition sdp_family :: "bool \<Rightarrow> rstr \<times> rstr" where
  "sdp_family ipv4 = (if ipv4 then (''IP4'', ''0.0.0.0'') else (''IP6'', ''::''))"

definition render_sdp_lines ::
  "bool \<Rightarrow> rstr \<Rightarrow> rstr \<Rightarrow> rstr \<Rightarrow> u16 \<Rightarrow> rstr \<Rightarrow> rstr \<Rightarrow> rstr \<Rightarrow> rstr list" where
  "render_sdp_lines ipv4 algo fingerprint setup sctp_port ufrag pwd candidate =
     (let (family, unspecified) = sdp_family ipv4 in
      [''v=0'', ''o=- 0 0 IN '' @ family @ '' '' @ unspecified, ''s=-'', ''t=0 0'',
       ''a=fingerprint:'' @ algo @ '' '' @ fingerprint, ''a=group:BUNDLE 0'',
       ''m=application 9 UDP/DTLS/SCTP webrtc-datachannel'',
       ''c=IN '' @ family @ '' '' @ unspecified, ''a=setup:'' @ setup, ''a=mid:0'',
       ''a=sctp-port:'' @ show_dec (unat sctp_port),
       ''a=max-message-size:'' @ show_dec MAX_MESSAGE_SIZE,
       ''a=ice-ufrag:'' @ ufrag, ''a=ice-pwd:'' @ pwd, ''a=candidate:'' @ candidate])"

definition remote_answer_lines :: "tunnel_config \<Rightarrow> rstr list" where
  "remote_answer_lines config =
     (let (family, unspecified) = sdp_family (is_ipv4 (cfg_remote config)) in
      [''v=0'', ''o=- 0 0 IN '' @ family @ '' '' @ unspecified, ''s=-'', ''t=0 0'',
       ''a=group:BUNDLE 0'', ''a=msid-semantic: WMS'',
       ''m=application 9 UDP/DTLS/SCTP webrtc-datachannel'',
       ''c=IN '' @ family @ '' '' @ unspecified, ''a=mid:0'',
       ''a=sctp-port:'' @ show_dec (unat (cfg_sctp_port config)),
       ''a=max-message-size:262144'',
       ''a=ice-ufrag:'' @ cfg_ice_ufrag config, ''a=ice-pwd:'' @ cfg_ice_pwd config,
       ''a=setup:passive'',
       ''a=fingerprint:'' @ cfg_fingerprint_algorithm config @ '' '' @ cfg_remote_fingerprint config,
       ''a=candidate:1 1 udp 2130706431 '' @ show_ip (sock_ip (cfg_remote config)) @ '' ''
         @ show_dec (unat (sock_port (cfg_remote config))) @ '' typ host'',
       ''a=end-of-candidates''])"

definition remote_answer_sdp :: "tunnel_config \<Rightarrow> rstr" where
  "remote_answer_sdp config = crlf_text (remote_answer_lines config)"

section \<open>The readers on written lines\<close>

lemma trim_line: "33 \<le> code c \<Longrightarrow> code c \<le> 126 \<Longrightarrow> 33 \<le> code (last (c # s)) \<Longrightarrow>
    code (last (c # s)) \<le> 126 \<Longrightarrow> trim (c # s) = c # s"
  by (rule trim_visible) auto

lemma graphic_last: "graphic s \<Longrightarrow> s \<noteq> [] \<Longrightarrow> 33 \<le> code (last s) \<and> code (last s) \<le> 126"
  by (auto simp: graphic_def list_all_iff)

lemma trim_key_value:
  assumes "graphic p" "p \<noteq> []" "graphic v"
  shows "trim (p @ v) = p @ v"
  using assms by simp

lemma trim_key_sp_value:
  assumes "graphic p" "p \<noteq> []" "graphic v" "v \<noteq> []"
  shows "trim (p @ s @ v) = p @ s @ v"
  using assms graphic_last [of v] by (intro trim_visible) (auto simp: hd_append graphic_def list_all_iff)

lemma offer_line_ufrag: "graphic u \<Longrightarrow> offer_line (''a=ice-ufrag:'' @ u) acc = acc\<lparr>oa_ufrag := Some u\<rparr>"
  using trim_key_value [of "''a=ice-ufrag:''" u] by (simp add: offer_line_def)

lemma offer_line_pwd: "graphic u \<Longrightarrow> offer_line (''a=ice-pwd:'' @ u) acc = acc\<lparr>oa_pwd := Some u\<rparr>"
  using trim_key_value [of "''a=ice-pwd:''" u] by (simp add: offer_line_def)

lemma graphic_no_space: "graphic s \<Longrightarrow> CHR '' '' \<notin> set s"
  by (auto simp: graphic_def list_all_iff)

lemma trim_fingerprint_line:
  assumes "graphic a" "graphic f" "f \<noteq> []"
  shows "trim (''a=fingerprint:'' @ a @ '' '' @ f) = ''a=fingerprint:'' @ a @ '' '' @ f"
  using trim_key_sp_value [of "''a=fingerprint:'' @ a" f "'' ''"] assms by simp

lemma offer_line_fingerprint:
  assumes "graphic a" "graphic f" "f \<noteq> []"
  shows "offer_line (''a=fingerprint:'' @ a @ '' '' @ f) acc = acc\<lparr>oa_fingerprint := Some (to_lowercase f)\<rparr>"
proof -
  have "split_once (CHR '' '') (a @ '' '' @ f) = Some (a, f)"
    using assms graphic_no_space by simp
  then show ?thesis using trim_fingerprint_line [OF assms] assms by (simp add: offer_line_def)
qed

text \<open>The candidate line of the synthesized answer and of \<open>rtc-ice\<close>'s \<open>marshal\<close>.\<close>

definition host_candidate :: "rstr \<Rightarrow> rstr \<Rightarrow> rstr \<Rightarrow> rstr \<Rightarrow> rstr \<Rightarrow> rstr" where
  "host_candidate foundation transport priority ip port =
     foundation @ '' 1 '' @ transport @ '' '' @ priority @ '' '' @ ip @ '' '' @ port @ '' typ host''"

lemma split_host_candidate:
  assumes "list_all (\<lambda>s. graphic s \<and> s \<noteq> []) [f, t, p, ip, port]"
  shows "split_whitespace (host_candidate f t p ip port) = [f, ''1'', t, p, ip, port, ''typ'', ''host'']"
proof -
  have "split_whitespace (''1'' @ CHR '' '' # s) = ''1'' # split_whitespace s"
    "split_whitespace (''typ'' @ CHR '' '' # s) = ''typ'' # split_whitespace s"
    "split_whitespace ''host'' = [''host'']" for s
    by (rule split_whitespace_Cons split_whitespace_single; simp)+
  then show ?thesis
    using assms by (simp add: host_candidate_def split_whitespace_Cons)
qed

lemma trim_candidate_line:
  assumes "graphic f"
  shows "trim (''a=candidate:'' @ host_candidate f t p ip port) = ''a=candidate:'' @ host_candidate f t p ip port"
  using trim_key_sp_value [of "''a=candidate:''" "''host''"
      "f @ '' 1 '' @ t @ '' '' @ p @ '' '' @ ip @ '' '' @ port @ '' typ ''"]
  by (simp add: host_candidate_def)

lemma offer_line_candidate:
  assumes "list_all (\<lambda>s. graphic s \<and> s \<noteq> []) [f, t, p, ip, port]"
    and "parse_candidate_addr ip port = Some addr"
  shows "offer_line (''a=candidate:'' @ host_candidate f t p ip port) acc = acc\<lparr>oa_remote := Some addr\<rparr>"
  using assms trim_candidate_line [of f t p ip port] split_host_candidate [OF assms(1)]
  by (simp add: offer_line_def)

lemma parse_candidate_addr_show_v4:
  "parse_candidate_addr (show_ipv4 a) (show_dec (unat (p :: u16))) = Some (SockV4 a p)"
  using parse_show_v4 [of a p] by (simp add: parse_candidate_addr_def)

end
