(* ===== verification/Engines.thy ===== *)
theory Engines
  imports Core_Types
begin

text \<open>
  What the direct backend calls in the crates \<open>rtc-ice\<close>, \<open>rtc-dtls\<close>, \<open>rtc-sctp\<close>,
  \<open>rtc-crypto\<close> and \<open>rcgen\<close>, whose sources are not part of the repository. The record
  \<open>stack\<close> has one field per call; it is an argument of every definition of the direct backend, so
  each theorem about the backend holds for any behaviour of these crates, except where it names
  the one hypothesis of the development about them: \<open>stack_drains\<close>, that each queue a loop of
  the backend polls runs empty.

  The type variables stand for the crates' own types: \<open>'i\<close> the ICE agent, \<open>'c\<close> an ICE
  candidate, \<open>'k\<close> a certificate with its key, \<open>'d\<close> the DTLS endpoint, \<open>'s\<close> the SCTP
  endpoint, \<open>'a\<close> an SCTP association, \<open>'e\<close> the events that endpoint and association exchange.
  An error of a crate is its \<open>Display\<close> text. An \<open>Instant\<close> is a number of nanoseconds.
\<close>

type_synonym instant = nat

definition millis :: "nat \<Rightarrow> nat" where
  "millis n = n * 1000000"

text \<open>\<open>Instant::checked_sub\<close>: there is no instant before the zero of the clock.\<close>

definition instant_checked_sub :: "instant \<Rightarrow> nat \<Rightarrow> instant option" where
  "instant_checked_sub i d = (if d \<le> i then Some (i - d) else None)"

datatype cipher_suite_id =
    Tls_Ecdhe_Ecdsa_With_ChaCha20_Poly1305_Sha256 | Tls_Ecdhe_Ecdsa_With_Aes_128_Gcm_Sha256

datatype srtp_profile = Srtp_Aead_Aes_128_Gcm | Srtp_Aead_Aes_256_Gcm
  | Srtp_Aes128_Cm_Hmac_Sha1_80 | Srtp_Aes128_Cm_Hmac_Sha1_32

text \<open>ICE: only \<open>Connected\<close> and \<open>Completed\<close> are told apart from the other states.\<close>

datatype ice_state = IceConnected | IceCompleted | IceOther

datatype ice_event = ConnectionStateChange ice_state | OtherIceEvent

record agent_config =
  ac_local_ufrag :: rstr
  ac_local_pwd :: rstr
  ac_udp4 :: bool
  ac_is_controlling :: bool

record host_config =
  hc_address :: rstr
  hc_port :: u16
  hc_component :: nat

text \<open>DTLS: what \<open>prepare_dtls\<close> hands to \<open>ConfigBuilder\<close>. The verification closure is
  represented by the two values it captures.\<close>

record peer_verifier =
  pv_expected :: rstr
  pv_algorithm :: rstr

record 'k dtls_config =
  dc_certificate :: 'k
  dc_srtp_profiles :: "srtp_profile list"
  dc_require_any_client_cert :: bool
  dc_insecure_skip_verify :: bool
  dc_verify :: "peer_verifier option"
  dc_cipher_suites :: "cipher_suite_id list"
  dc_require_ems :: bool
  dc_is_client :: bool
  dc_remote :: socket_addr

datatype endpoint_event = HandshakeComplete | ApplicationData "byte list" | OtherEndpointEvent

text \<open>SCTP.\<close>

record sctp_transport_config =
  st_max_message_size :: nat
  st_sctp_port :: u16

datatype ppid = PpidBinary | PpidBinaryEmpty | PpidString | PpidStringEmpty | PpidOther

datatype reliability = Reliable | Rexmit

datatype sctp_event = SctpConnected | StreamReadable u16 | AssociationLost | OtherSctpEvent

datatype ('a, 'e) datagram_event = NewAssociation 'a | AssociationEvent 'e | OtherDatagramEvent

datatype payload = RawEncode "byte list list" | OtherPayload

record ('i, 'c, 'k, 'd, 's, 'a, 'e) stack =
  \<comment> \<open>std and rtc-crypto\<close>
  instant_now :: instant
  instant_now_again :: instant
  usize_max :: nat
  on_wasm32 :: bool
  default_provider :: "rstr + unit"
  sha256 :: "byte list \<Rightarrow> rstr + byte list"
  \<comment> \<open>rtc-ice\<close>
  generate_ufrag :: rstr
  generate_pwd :: rstr
  agent_new :: "instant \<Rightarrow> agent_config \<Rightarrow> rstr + 'i"
  new_candidate_host :: "host_config \<Rightarrow> rstr + 'c"
  candidate_marshal :: "'c \<Rightarrow> rstr"
  add_local_candidate :: "'c \<Rightarrow> 'i \<Rightarrow> (rstr + unit) \<times> 'i"
  add_remote_candidate :: "'c \<Rightarrow> 'i \<Rightarrow> (rstr + unit) \<times> 'i"
  get_local_candidates :: "'i \<Rightarrow> 'c list"
  get_local_credentials :: "'i \<Rightarrow> rstr \<times> rstr"
  set_remote_credentials :: "rstr \<Rightarrow> rstr \<Rightarrow> 'i \<Rightarrow> (rstr + unit) \<times> 'i"
  get_remote_credentials :: "'i \<Rightarrow> (rstr \<times> rstr) option"
  start_connectivity_checks :: "instant \<Rightarrow> bool \<Rightarrow> rstr \<Rightarrow> rstr \<Rightarrow> 'i \<Rightarrow> (rstr + unit) \<times> 'i"
  selected_pair :: "'i \<Rightarrow> bool"
  ice_handle_read :: "instant \<Rightarrow> socket_addr \<Rightarrow> socket_addr \<Rightarrow> byte list \<Rightarrow> 'i \<Rightarrow> (rstr + unit) \<times> 'i"
  ice_handle_timeout :: "instant \<Rightarrow> 'i \<Rightarrow> 'i"
  ice_poll_event :: "'i \<Rightarrow> (instant \<times> ice_event) option \<times> 'i"
  ice_poll_write :: "'i \<Rightarrow> byte list option \<times> 'i"
  ice_poll_timeout :: "'i \<Rightarrow> instant option \<times> 'i"
  ice_close :: "'i \<Rightarrow> 'i"
  \<comment> \<open>rcgen and rtc-dtls\<close>
  generate_self_signed :: "rstr + 'k"
  certificate_chain :: "'k \<Rightarrow> byte list list"
  dtls_config_build :: "'k dtls_config \<Rightarrow> rstr + unit"
  dtls_endpoint_new :: 'd
  set_server_config :: "'k dtls_config \<Rightarrow> 'd \<Rightarrow> 'd"
  dtls_connect :: "instant \<Rightarrow> socket_addr \<Rightarrow> 'k dtls_config \<Rightarrow> 'd \<Rightarrow> (rstr + unit) \<times> 'd"
  dtls_read :: "instant \<Rightarrow> socket_addr \<Rightarrow> byte list \<Rightarrow> 'd \<Rightarrow> (rstr + endpoint_event list) \<times> 'd"
  dtls_write :: "instant \<Rightarrow> socket_addr \<Rightarrow> byte list \<Rightarrow> 'd \<Rightarrow> (rstr + unit) \<times> 'd"
  dtls_handle_timeout :: "socket_addr \<Rightarrow> instant \<Rightarrow> 'd \<Rightarrow> 'd"
  dtls_poll_transmit :: "'d \<Rightarrow> byte list option \<times> 'd"
  dtls_poll_timeout :: "socket_addr \<Rightarrow> 'd \<Rightarrow> instant option \<times> 'd"
  connection_cipher_suite :: "socket_addr \<Rightarrow> 'd \<Rightarrow> rstr option option"
  \<comment> \<open>rtc-sctp\<close>
  sctp_endpoint_new :: "sctp_transport_config option \<Rightarrow> 's"
  sctp_connect :: "instant \<Rightarrow> sctp_transport_config \<Rightarrow> socket_addr \<Rightarrow> 's \<Rightarrow> (rstr + nat \<times> 'a) \<times> 's"
  sctp_handle :: "instant \<Rightarrow> socket_addr \<Rightarrow> byte list \<Rightarrow> 's \<Rightarrow> (nat \<times> ('a, 'e) datagram_event) option \<times> 's"
  sctp_handle_event :: "nat \<Rightarrow> 'e \<Rightarrow> 's \<Rightarrow> 's"
  assoc_handle_event :: "'e \<Rightarrow> 'a \<Rightarrow> 'a"
  assoc_poll :: "'a \<Rightarrow> sctp_event option \<times> 'a"
  assoc_poll_endpoint_event :: "'a \<Rightarrow> 'e option \<times> 'a"
  assoc_poll_transmit :: "instant \<Rightarrow> 'a \<Rightarrow> payload option \<times> 'a"
  assoc_handle_timeout :: "instant \<Rightarrow> 'a \<Rightarrow> 'a"
  assoc_poll_timeout :: "'a \<Rightarrow> instant option"
  assoc_open_stream :: "u16 \<Rightarrow> ppid \<Rightarrow> 'a \<Rightarrow> (rstr + unit) \<times> 'a"
  assoc_stream :: "u16 \<Rightarrow> 'a \<Rightarrow> bool"
  stream_set_reliability :: "u16 \<Rightarrow> bool \<Rightarrow> reliability \<Rightarrow> u32 \<Rightarrow> 'a \<Rightarrow> (rstr + unit) \<times> 'a"
  stream_buffered_amount :: "u16 \<Rightarrow> 'a \<Rightarrow> rstr + nat"
  stream_is_writable :: "u16 \<Rightarrow> 'a \<Rightarrow> bool"
  stream_write :: "u16 \<Rightarrow> byte list \<Rightarrow> ppid \<Rightarrow> 'a \<Rightarrow> (rstr + unit) \<times> 'a"
  stream_read :: "u16 \<Rightarrow> 'a \<Rightarrow> (rstr + (ppid \<times> byte list) option) \<times> 'a"
  chunks_to_payload :: "byte list \<Rightarrow> nat \<Rightarrow> rstr + byte list"

text \<open>
  The documented polling discipline. \<open>read_some\<close> is the reading loop's view of a stream: a chunk,
  or nothing more to read.
\<close>

definition read_some :: "('a \<Rightarrow> (rstr + 'x option) \<times> 'a) \<Rightarrow> 'a \<Rightarrow> 'x option \<times> 'a" where
  "read_some f a = (case f a of (Inr r, a') \<Rightarrow> (r, a') | (Inl e, a') \<Rightarrow> (None, a'))"

definition stack_drains :: "('i, 'c, 'k, 'd, 's, 'a, 'e) stack \<Rightarrow> bool" where
  "stack_drains E = (drains (ice_poll_event E) \<and> drains (ice_poll_write E)
     \<and> drains (dtls_poll_transmit E) \<and> drains (assoc_poll E) \<and> drains (assoc_poll_endpoint_event E)
     \<and> (\<forall>now. drains (assoc_poll_transmit E now)) \<and> (\<forall>sid. drains (read_some (stream_read E sid))))"

end
