(* ===== verification/Direct.thy ===== *)
theory Direct
  imports Sdp Engines Backend
begin

text \<open>
  The shipped backend, \<open>DirectTunnel\<close> of \<open>direct/mod.rs\<close>: the state machine that drives ICE,
  DTLS and SCTP for one negotiated stream. The record \<open>direct_tunnel\<close> has the fields of the
  struct (the crypto provider is part of the stack argument), and each method is one definition
  with the method's guards and early returns in their order. A method that only ever adds to the
  state is a function to the next state; one that can fail returns the result and the state it
  leaves, since Rust keeps every effect made before the error.
\<close>

datatype role = Offerer | Answerer

definition DTLS_FIRST_BYTE_MIN :: nat where "DTLS_FIRST_BYTE_MIN = 20"

definition DTLS_FIRST_BYTE_MAX :: nat where "DTLS_FIRST_BYTE_MAX = 63"

definition preferred_cipher_suites :: "bool \<Rightarrow> cipher_suite_id list" where
  "preferred_cipher_suites wasm32 = (if wasm32
     then [Tls_Ecdhe_Ecdsa_With_ChaCha20_Poly1305_Sha256, Tls_Ecdhe_Ecdsa_With_Aes_128_Gcm_Sha256]
     else [Tls_Ecdhe_Ecdsa_With_Aes_128_Gcm_Sha256, Tls_Ecdhe_Ecdsa_With_ChaCha20_Poly1305_Sha256])"

definition is_stun :: "byte list \<Rightarrow> bool" where
  "is_stun datagram = (case datagram of [] \<Rightarrow> False | b # _ \<Rightarrow> unat b \<le> 3)"

definition is_dtls :: "byte list \<Rightarrow> bool" where
  "is_dtls datagram = (case datagram of [] \<Rightarrow> False
     | b # _ \<Rightarrow> DTLS_FIRST_BYTE_MIN \<le> unat b \<and> unat b \<le> DTLS_FIRST_BYTE_MAX)"

record ('i, 'k, 'd, 's, 'a) direct_tunnel =
  dt_role :: role
  dt_ice :: 'i
  dt_dtls :: 'd
  dt_dtls_config :: "'k dtls_config option"
  dt_local_fingerprint :: rstr
  dt_sctp :: "'s option"
  dt_sctp_config :: "sctp_transport_config option"
  dt_association :: "'a option"
  dt_association_handle :: "nat option"
  dt_local_addr :: socket_addr
  dt_remote_addr :: socket_addr
  dt_sctp_port :: u16
  dt_stream_id :: u16
  dt_ordered :: bool
  dt_max_retransmits :: u16
  dt_remote_fingerprint :: rstr
  dt_fingerprint_algorithm :: rstr
  dt_disable_fingerprint_verification :: bool
  dt_dtls_started :: bool
  dt_dtls_connected :: bool
  dt_sctp_connected :: bool
  dt_channel_dialed :: bool
  dt_opened :: bool
  dt_finished :: bool
  dt_dropped_datagrams :: u64
  dt_epoch :: instant
  dt_last_now :: instant
  dt_handshake_deadline :: instant
  dt_send_buffer_cap :: nat
  dt_events :: "event list"
  dt_trace :: handshake_trace

section \<open>Time, events and the end of a tunnel\<close>

definition ms_since :: "instant \<Rightarrow> instant \<Rightarrow> nat" where
  "ms_since epoch t = ((t - epoch) div 1000000) mod 2 ^ 64"

abbreviation dt_ms :: "('i, 'k, 'd, 's, 'a) direct_tunnel \<Rightarrow> instant \<Rightarrow> nat" where
  "dt_ms t i \<equiv> ms_since (dt_epoch t) i"

definition push_event :: "event \<Rightarrow> ('i, 'k, 'd, 's, 'a) direct_tunnel \<Rightarrow> ('i, 'k, 'd, 's, 'a) direct_tunnel" where
  "push_event e t = t\<lparr>dt_events := dt_events t @ [e]\<rparr>"

definition dt_finish :: "close_reason \<Rightarrow> ('i, 'k, 'd, 's, 'a) direct_tunnel \<Rightarrow> ('i, 'k, 'd, 's, 'a) direct_tunnel" where
  "dt_finish reason t = (if dt_finished t then t
     else push_event (Closed reason) (t\<lparr>dt_finished := True\<rparr>))"

definition dt_maybe_open :: "('i, 'k, 'd, 's, 'a) direct_tunnel \<Rightarrow> ('i, 'k, 'd, 's, 'a) direct_tunnel" where
  "dt_maybe_open t = (if dt_opened t then t
     else if dt_sctp_connected t \<and> dt_channel_dialed t
     then push_event Opened
       (t\<lparr>dt_opened := True, dt_trace := observe_open (dt_ms t (dt_last_now t)) (dt_trace t)\<rparr>)
     else t)"

section \<open>Construction\<close>

definition epoch_of :: "('i, 'c, 'k, 'd, 's, 'a, 'e) stack \<Rightarrow> nat \<Rightarrow> instant" where
  "epoch_of E now_ms = (case instant_checked_sub (instant_now E) (millis now_ms) of
       Some epoch \<Rightarrow> epoch | None \<Rightarrow> instant_now_again E)"

definition fingerprint_hex :: "byte list \<Rightarrow> rstr" where
  "fingerprint_hex hash = join '':'' (map hex02 hash)"

definition fingerprint_of :: "('i, 'c, 'k, 'd, 's, 'a, 'e) stack \<Rightarrow> 'k \<Rightarrow> tunnel_error + rstr" where
  "fingerprint_of E certificate = (case certificate_chain E certificate of
       [] \<Rightarrow> Inl (Config ''certificate chain empty'')
     | der # _ \<Rightarrow> (case sha256 E der of
         Inl e \<Rightarrow> Inl (Config (''fingerprint: '' @ e))
       | Inr hash \<Rightarrow> Inr (fingerprint_hex hash)))"

datatype verify_error = ErrNonCertificate | ErrUnsupportedFingerprintAlgorithm | ErrCrypto rstr
  | ErrNoMatchingCertificateFingerprint

text \<open>The closure \<open>prepare_dtls\<close> installs as \<open>verify_peer_certificate\<close>.\<close>

definition verify_peer :: "('i, 'c, 'k, 'd, 's, 'a, 'e) stack \<Rightarrow> peer_verifier \<Rightarrow> byte list list \<Rightarrow> verify_error + unit" where
  "verify_peer E pv certs = (case certs of
       [] \<Rightarrow> Inl ErrNonCertificate
     | cert # _ \<Rightarrow>
         if pv_algorithm pv \<noteq> ''sha-256'' then Inl ErrUnsupportedFingerprintAlgorithm
         else (case sha256 E cert of
             Inl e \<Rightarrow> Inl (ErrCrypto e)
           | Inr hash \<Rightarrow> if fingerprint_hex hash = pv_expected pv then Inr ()
               else Inl ErrNoMatchingCertificateFingerprint))"

definition dtls_config_of ::
  "('i, 'c, 'k, 'd, 's, 'a, 'e) stack \<Rightarrow> 'k \<Rightarrow> ('i, 'k, 'd, 's, 'a) direct_tunnel \<Rightarrow> 'k dtls_config" where
  "dtls_config_of E certificate t =
     \<lparr>dc_certificate = certificate,
      dc_srtp_profiles = [Srtp_Aead_Aes_128_Gcm, Srtp_Aead_Aes_256_Gcm,
        Srtp_Aes128_Cm_Hmac_Sha1_80, Srtp_Aes128_Cm_Hmac_Sha1_32],
      dc_require_any_client_cert = True, dc_insecure_skip_verify = True,
      dc_verify = (if dt_disable_fingerprint_verification t then None
        else Some \<lparr>pv_expected = to_lowercase (dt_remote_fingerprint t),
                   pv_algorithm = dt_fingerprint_algorithm t\<rparr>),
      dc_cipher_suites = preferred_cipher_suites (on_wasm32 E), dc_require_ems = True,
      dc_is_client = (dt_role t = Offerer), dc_remote = dt_remote_addr t\<rparr>"

definition prepare_dtls ::
  "('i, 'c, 'k, 'd, 's, 'a, 'e) stack \<Rightarrow> ('i, 'k, 'd, 's, 'a) direct_tunnel \<Rightarrow> tunnel_error + ('i, 'k, 'd, 's, 'a) direct_tunnel" where
  "prepare_dtls E t = (case generate_self_signed E of
       Inl e \<Rightarrow> Inl (Config (''certificate: '' @ e))
     | Inr certificate \<Rightarrow> (case fingerprint_of E certificate of
         Inl e \<Rightarrow> Inl e
       | Inr fp \<Rightarrow>
           (let t = t\<lparr>dt_local_fingerprint := fp\<rparr>;
                is_client = (dt_role t = Offerer);
                config = dtls_config_of E certificate t
            in case dtls_config_build E config of
                 Inl e \<Rightarrow> Inl (Config (''dtls config: '' @ e))
               | Inr _ \<Rightarrow>
                   (let t = t\<lparr>dt_dtls_config := Some config\<rparr> in
                    Inr (if \<not> is_client then t\<lparr>dt_dtls := set_server_config E config (dt_dtls t)\<rparr> else t)))))"

definition host_candidate_of :: "('i, 'c, 'k, 'd, 's, 'a, 'e) stack \<Rightarrow> socket_addr \<Rightarrow> tunnel_error + 'c" where
  "host_candidate_of E addr = map_err (\<lambda>e. Config (''candidate: '' @ e))
     (new_candidate_host E
       \<lparr>hc_address = show_ip (sock_ip addr), hc_port = sock_port addr, hc_component = 1\<rparr>)"

definition add_candidates ::
  "('i, 'c, 'k, 'd, 's, 'a, 'e) stack \<Rightarrow> tunnel_config \<Rightarrow> ('i, 'k, 'd, 's, 'a) direct_tunnel \<Rightarrow> tunnel_error + ('i, 'k, 'd, 's, 'a) direct_tunnel" where
  "add_candidates E config t = (case host_candidate_of E (dt_local_addr t) of
       Inl e \<Rightarrow> Inl e
     | Inr loc \<Rightarrow> (case add_local_candidate E loc (dt_ice t) of
         (Inl e, _) \<Rightarrow> Inl (Config (''local candidate: '' @ e))
       | (Inr _, ice) \<Rightarrow> (case host_candidate_of E (cfg_remote config) of
           Inl e \<Rightarrow> Inl e
         | Inr remote \<Rightarrow> (case add_remote_candidate E remote ice of
             (Inl e, _) \<Rightarrow> Inl (Config (''remote candidate: '' @ e))
           | (Inr _, ice) \<Rightarrow> Inr (t\<lparr>dt_ice := ice\<rparr>)))))"

definition agent_config_of :: "('i, 'c, 'k, 'd, 's, 'a, 'e) stack \<Rightarrow> role \<Rightarrow> socket_addr \<Rightarrow> agent_config" where
  "agent_config_of E r local_addr =
     \<lparr>ac_local_ufrag = generate_ufrag E, ac_local_pwd = generate_pwd E,
      ac_udp4 = is_ipv4 local_addr, ac_is_controlling = (r = Offerer)\<rparr>"

definition initial_tunnel ::
  "('i, 'c, 'k, 'd, 's, 'a, 'e) stack \<Rightarrow> role \<Rightarrow> tunnel_config \<Rightarrow> socket_addr \<Rightarrow> nat \<Rightarrow> 'i \<Rightarrow> ('i, 'k, 'd, 's, 'a) direct_tunnel" where
  "initial_tunnel E r config local_addr now_ms ice =
     (let epoch = epoch_of E now_ms; now = epoch + millis now_ms in
      \<lparr>dt_role = r, dt_ice = ice, dt_dtls = dtls_endpoint_new E, dt_dtls_config = None,
       dt_local_fingerprint = [], dt_sctp = None, dt_sctp_config = None, dt_association = None,
       dt_association_handle = None, dt_local_addr = local_addr, dt_remote_addr = cfg_remote config,
       dt_sctp_port = cfg_sctp_port config, dt_stream_id = cfg_stream_id config,
       dt_ordered = cfg_ordered config,
       dt_max_retransmits = or_default 0 (cfg_max_retransmits config),
       dt_remote_fingerprint = cfg_remote_fingerprint config,
       dt_fingerprint_algorithm = cfg_fingerprint_algorithm config,
       dt_disable_fingerprint_verification = cfg_disable_fingerprint_verification config,
       dt_dtls_started = False, dt_dtls_connected = False, dt_sctp_connected = False,
       dt_channel_dialed = False, dt_opened = False, dt_finished = False,
       dt_dropped_datagrams = 0, dt_epoch = epoch, dt_last_now = now,
       dt_handshake_deadline = now + millis (cfg_handshake_timeout_ms config),
       dt_send_buffer_cap = DEFAULT_SEND_BUFFER_CAP, dt_events = [], dt_trace = trace_new now_ms\<rparr>)"

definition dt_build ::
  "('i, 'c, 'k, 'd, 's, 'a, 'e) stack \<Rightarrow> role \<Rightarrow> tunnel_config \<Rightarrow> socket_addr \<Rightarrow> nat \<Rightarrow> tunnel_error + ('i, 'k, 'd, 's, 'a) direct_tunnel" where
  "dt_build E r config local_addr now_ms = (case default_provider E of
       Inl e \<Rightarrow> Inl (Config (''crypto provider: '' @ e))
     | Inr _ \<Rightarrow>
         (case agent_new E (epoch_of E now_ms + millis now_ms) (agent_config_of E r local_addr) of
            Inl e \<Rightarrow> Inl (Config (''ice agent: '' @ e))
          | Inr ice \<Rightarrow>
              (case prepare_dtls E (initial_tunnel E r config local_addr now_ms ice) of
                 Inl e \<Rightarrow> Inl e
               | Inr t \<Rightarrow> (case add_candidates E config t of
                   Inl e \<Rightarrow> Inl e
                 | Inr t \<Rightarrow>
                     (case set_remote_credentials E (cfg_ice_ufrag config) (cfg_ice_pwd config) (dt_ice t) of
                        (Inl e, _) \<Rightarrow> Inl (Config (''remote credentials: '' @ e))
                      | (Inr _, ice) \<Rightarrow> Inr (t\<lparr>dt_ice := ice\<rparr>))))))"

definition start_checks ::
  "('i, 'c, 'k, 'd, 's, 'a, 'e) stack \<Rightarrow> ('i, 'k, 'd, 's, 'a) direct_tunnel \<Rightarrow> tunnel_error + ('i, 'k, 'd, 's, 'a) direct_tunnel" where
  "start_checks E t =
     (let creds = get_remote_credentials E (dt_ice t);
          ufrag = or_default [] (map_option fst creds);
          pwd = or_default [] (map_option snd creds)
      in case start_connectivity_checks E (dt_last_now t) (dt_role t = Offerer) ufrag pwd (dt_ice t) of
           (Inl e, _) \<Rightarrow> Inl (Config (''start checks: '' @ e))
         | (Inr _, ice) \<Rightarrow> Inr (t\<lparr>dt_ice := ice\<rparr>))"

definition dt_offerer ::
  "('i, 'c, 'k, 'd, 's, 'a, 'e) stack \<Rightarrow> tunnel_config \<Rightarrow> socket_addr \<Rightarrow> nat \<Rightarrow> tunnel_error + ('i, 'k, 'd, 's, 'a) direct_tunnel" where
  "dt_offerer E config local_addr now_ms = (case dt_build E Offerer config local_addr now_ms of
       Inl e \<Rightarrow> Inl e
     | Inr t \<Rightarrow> start_checks E t)"

text \<open>The configuration checks of \<open>new\<close>, which both backends make in the same order.\<close>

definition check_config :: "tunnel_config \<Rightarrow> socket_addr \<Rightarrow> tunnel_error option" where
  "check_config config local_addr =
     (if is_unspecified (sock_ip (cfg_remote config)) then Some (Config ''remote address must be concrete'')
      else if is_ipv4 (cfg_remote config) \<noteq> is_ipv4 local_addr
      then Some (Config ''local and remote addresses must share an address family'')
      else if trim (cfg_remote_fingerprint config) = [] then Some (Config ''remote fingerprint is required'')
      else if cfg_ice_ufrag config = [] \<or> cfg_ice_pwd config = []
      then Some (Config ''remote ICE credentials are required'')
      else if 65534 < cfg_stream_id config then Some (Config ''stream id must be 0..=65534'')
      else None)"

definition dt_new ::
  "('i, 'c, 'k, 'd, 's, 'a, 'e) stack \<Rightarrow> tunnel_config \<Rightarrow> socket_addr \<Rightarrow> nat \<Rightarrow> tunnel_error + ('i, 'k, 'd, 's, 'a) direct_tunnel" where
  "dt_new E config local_addr now_ms = (case check_config config local_addr of
       Some e \<Rightarrow> Inl e
     | None \<Rightarrow> dt_offerer E config local_addr now_ms)"

definition dt_answerer ::
  "('i, 'c, 'k, 'd, 's, 'a, 'e) stack \<Rightarrow> tunnel_config \<Rightarrow> socket_addr \<Rightarrow> rstr \<Rightarrow> nat \<Rightarrow> tunnel_error + ('i, 'k, 'd, 's, 'a) direct_tunnel" where
  "dt_answerer E config local_addr remote_offer_sdp now_ms =
     (if 65534 < cfg_stream_id config then Inl (Config ''stream id must be 0..=65534'')
      else case parse_offer remote_offer_sdp of
        Inl e \<Rightarrow> Inl e
      | Inr offer \<Rightarrow>
          if is_ipv4 (po_remote offer) \<noteq> is_ipv4 local_addr
          then Inl (Config ''local and remote addresses must share an address family'')
          else
            (let config = config\<lparr>cfg_ice_ufrag := po_ufrag offer, cfg_ice_pwd := po_pwd offer,
                   cfg_remote := po_remote offer\<rparr>;
                 config = (if po_fingerprint offer \<noteq> []
                   then config\<lparr>cfg_remote_fingerprint := po_fingerprint offer\<rparr> else config)
             in case dt_build E Answerer config local_addr now_ms of
                  Inl e \<Rightarrow> Inl e
                | Inr t \<Rightarrow> start_checks E t))"

section \<open>Bringing the layers up\<close>

definition activate_dtls ::
  "('i, 'c, 'k, 'd, 's, 'a, 'e) stack \<Rightarrow> ('i, 'k, 'd, 's, 'a) direct_tunnel \<Rightarrow> bool \<times> ('i, 'k, 'd, 's, 'a) direct_tunnel" where
  "activate_dtls E t = (if dt_role t \<noteq> Offerer then (True, t)
     else case dt_dtls_config t of
         None \<Rightarrow> (False, t)
       | Some config \<Rightarrow>
           (let (r, d) = dtls_connect E (dt_last_now t) (dt_remote_addr t) config (dt_dtls t)
            in (is_ok r, t\<lparr>dt_dtls := d\<rparr>)))"

text \<open>\<open>self.dtls_started = self.activate_dtls()\<close>, as \<open>pump\<close> and \<open>ingest\<close> both do.\<close>

definition start_dtls ::
  "('i, 'c, 'k, 'd, 's, 'a, 'e) stack \<Rightarrow> ('i, 'k, 'd, 's, 'a) direct_tunnel \<Rightarrow> ('i, 'k, 'd, 's, 'a) direct_tunnel" where
  "start_dtls E t = (let (b, t) = activate_dtls E t in t\<lparr>dt_dtls_started := b\<rparr>)"

definition start_sctp ::
  "('i, 'c, 'k, 'd, 's, 'a, 'e) stack \<Rightarrow> ('i, 'k, 'd, 's, 'a) direct_tunnel \<Rightarrow> (tunnel_error + unit) \<times> ('i, 'k, 'd, 's, 'a) direct_tunnel" where
  "start_sctp E t =
     (let transport_config = \<lparr>st_max_message_size = MAX_MESSAGE_SIZE, st_sctp_port = dt_sctp_port t\<rparr>;
          is_client = (dt_role t = Offerer);
          endpoint = sctp_endpoint_new E (if \<not> is_client then Some transport_config else None)
      in if is_client then
           (case sctp_connect E (dt_last_now t) transport_config (dt_remote_addr t) endpoint of
              (Inl e, s) \<Rightarrow> (Inl (Config (''sctp connect: '' @ e)), t\<lparr>dt_sctp := Some s\<rparr>)
            | (Inr (handle, association), s) \<Rightarrow>
                (Inr (), t\<lparr>dt_sctp := Some s, dt_association := Some association,
                          dt_association_handle := Some handle\<rparr>))
         else (Inr (), t\<lparr>dt_sctp := Some endpoint, dt_sctp_config := Some transport_config\<rparr>))"

definition feed_sctp ::
  "('i, 'c, 'k, 'd, 's, 'a, 'e) stack \<Rightarrow> instant \<Rightarrow> byte list \<Rightarrow> ('i, 'k, 'd, 's, 'a) direct_tunnel \<Rightarrow> ('i, 'k, 'd, 's, 'a) direct_tunnel" where
  "feed_sctp E now datagram t = (case dt_sctp t of
       None \<Rightarrow> t
     | Some endpoint \<Rightarrow> (case sctp_handle E now (dt_remote_addr t) datagram endpoint of
         (None, s) \<Rightarrow> t\<lparr>dt_sctp := Some s\<rparr>
       | (Some (handle, ev), s) \<Rightarrow>
           (let t = t\<lparr>dt_sctp := Some s\<rparr> in
            case ev of
              NewAssociation association \<Rightarrow>
                t\<lparr>dt_association := Some association, dt_association_handle := Some handle\<rparr>
            | AssociationEvent e \<Rightarrow> (case dt_association t of
                  None \<Rightarrow> t
                | Some association \<Rightarrow> t\<lparr>dt_association := Some (assoc_handle_event E e association)\<rparr>)
            | OtherDatagramEvent \<Rightarrow> t)))"

text \<open>The body of the loop over the events of one DTLS read; the first failing event ends it.\<close>

fun feed_dtls_events ::
  "('i, 'c, 'k, 'd, 's, 'a, 'e) stack \<Rightarrow> instant \<Rightarrow> endpoint_event list \<Rightarrow> ('i, 'k, 'd, 's, 'a) direct_tunnel \<Rightarrow> (tunnel_error + unit) \<times> ('i, 'k, 'd, 's, 'a) direct_tunnel" where
  "feed_dtls_events E now [] t = (Inr (), t)"
| "feed_dtls_events E now (HandshakeComplete # evs) t =
     (let t = t\<lparr>dt_dtls_connected := True, dt_trace := observe_dtls (dt_ms t now) (dt_trace t)\<rparr> in
      if dt_sctp t = None then
        (case start_sctp E t of
           (Inl e, t) \<Rightarrow> (Inl e, t)
         | (Inr _, t) \<Rightarrow> feed_dtls_events E now evs t)
      else feed_dtls_events E now evs t)"
| "feed_dtls_events E now (ApplicationData data # evs) t =
     feed_dtls_events E now evs (feed_sctp E now data t)"
| "feed_dtls_events E now (OtherEndpointEvent # evs) t = feed_dtls_events E now evs t"

definition feed_dtls ::
  "('i, 'c, 'k, 'd, 's, 'a, 'e) stack \<Rightarrow> instant \<Rightarrow> byte list \<Rightarrow> ('i, 'k, 'd, 's, 'a) direct_tunnel \<Rightarrow> (tunnel_error + unit) \<times> ('i, 'k, 'd, 's, 'a) direct_tunnel" where
  "feed_dtls E now datagram t =
     (case dtls_read E now (dt_remote_addr t) datagram (dt_dtls t) of
        (Inl e, d) \<Rightarrow> (Inl (Config (''dtls read: '' @ e)), t\<lparr>dt_dtls := d\<rparr>)
      | (Inr evs, d) \<Rightarrow> feed_dtls_events E now evs (t\<lparr>dt_dtls := d\<rparr>))"

definition open_stream ::
  "('i, 'c, 'k, 'd, 's, 'a, 'e) stack \<Rightarrow> ('i, 'k, 'd, 's, 'a) direct_tunnel \<Rightarrow> (tunnel_error + unit) \<times> ('i, 'k, 'd, 's, 'a) direct_tunnel" where
  "open_stream E t =
     (let t = t\<lparr>dt_channel_dialed := True\<rparr>;
          unordered = (\<not> dt_ordered t);
          (reliability_type, reliability_value) =
            (if dt_max_retransmits t = - 1 then (Reliable, 0) else (Rexmit, ucast (dt_max_retransmits t)))
      in case dt_association t of
           None \<Rightarrow> (Inl (Config ''sctp association is not established''), t)
         | Some a \<Rightarrow> (case assoc_open_stream E (dt_stream_id t) PpidBinary a of
             (Inl e, a) \<Rightarrow> (Inl (Config (''open stream: '' @ e)), t\<lparr>dt_association := Some a\<rparr>)
           | (Inr _, a) \<Rightarrow>
               (let (r, a) = stream_set_reliability E (dt_stream_id t) unordered reliability_type reliability_value a
                in (map_err (\<lambda>e. Config (''reliability: '' @ e)) r, t\<lparr>dt_association := Some a\<rparr>))))"

definition drain_channel ::
  "('i, 'c, 'k, 'd, 's, 'a, 'e) stack \<Rightarrow> ('i, 'k, 'd, 's, 'a) direct_tunnel \<Rightarrow> (tunnel_error + unit) \<times> ('i, 'k, 'd, 's, 'a) direct_tunnel" where
  "drain_channel E t = (if dt_sctp_connected t \<and> \<not> dt_channel_dialed t then open_stream E t else (Inr (), t))"

section \<open>The drain loops\<close>

definition drain_ice_events ::
  "('i, 'c, 'k, 'd, 's, 'a, 'e) stack \<Rightarrow> ('i, 'k, 'd, 's, 'a) direct_tunnel \<Rightarrow> ('i, 'k, 'd, 's, 'a) direct_tunnel option" where
  "drain_ice_events E = while_let (\<lambda>t. case ice_poll_event E (dt_ice t) of
       (None, i) \<Rightarrow> Done (t\<lparr>dt_ice := i\<rparr>)
     | (Some (now, ev), i) \<Rightarrow>
         (let t = t\<lparr>dt_ice := i\<rparr> in
          More (case ev of
              ConnectionStateChange s \<Rightarrow>
                if s = IceConnected \<or> s = IceCompleted
                then t\<lparr>dt_trace := observe_ice (dt_ms t now) (dt_trace t)\<rparr> else t
            | OtherIceEvent \<Rightarrow> t)))"

definition drain_ice_writes ::
  "('i, 'c, 'k, 'd, 's, 'a, 'e) stack \<Rightarrow> ('i, 'k, 'd, 's, 'a) direct_tunnel \<Rightarrow> ('i, 'k, 'd, 's, 'a) direct_tunnel option" where
  "drain_ice_writes E = while_let (\<lambda>t. case ice_poll_write E (dt_ice t) of
       (None, i) \<Rightarrow> Done (t\<lparr>dt_ice := i\<rparr>)
     | (Some m, i) \<Rightarrow> More (push_event (SendDatagram m) (t\<lparr>dt_ice := i\<rparr>)))"

definition drain_dtls_transmits ::
  "('i, 'c, 'k, 'd, 's, 'a, 'e) stack \<Rightarrow> ('i, 'k, 'd, 's, 'a) direct_tunnel \<Rightarrow> ('i, 'k, 'd, 's, 'a) direct_tunnel option" where
  "drain_dtls_transmits E = while_let (\<lambda>t. case dtls_poll_transmit E (dt_dtls t) of
       (None, d) \<Rightarrow> Done (t\<lparr>dt_dtls := d\<rparr>)
     | (Some m, d) \<Rightarrow> More (push_event (SendDatagram m) (t\<lparr>dt_dtls := d\<rparr>)))"

text \<open>The inner loops of \<open>drain_sctp\<close>: association events into the three flags, then endpoint
  events from the association to the endpoint.\<close>

definition poll_association ::
  "('i, 'c, 'k, 'd, 's, 'a, 'e) stack \<Rightarrow> u16 \<Rightarrow> 'a \<Rightarrow> (bool \<times> bool \<times> bool \<times> 'a) option" where
  "poll_association E stream_id a = while_let (\<lambda>(readable, connected, lost, a).
     case assoc_poll E a of
       (None, a) \<Rightarrow> Done (readable, connected, lost, a)
     | (Some ev, a) \<Rightarrow> More (case ev of
           SctpConnected \<Rightarrow> (readable, True, lost, a)
         | StreamReadable sid \<Rightarrow> (readable \<or> sid = stream_id, connected, lost, a)
         | AssociationLost \<Rightarrow> (readable, connected, True, a)
         | OtherSctpEvent \<Rightarrow> (readable, connected, lost, a))) (False, False, False, a)"

definition poll_endpoint_events ::
  "('i, 'c, 'k, 'd, 's, 'a, 'e) stack \<Rightarrow> nat option \<Rightarrow> 's option \<Rightarrow> 'a \<Rightarrow> ('s option \<times> 'a) option" where
  "poll_endpoint_events E handle s a = while_let (\<lambda>(s, a).
     case assoc_poll_endpoint_event E a of
       (None, a) \<Rightarrow> Done (s, a)
     | (Some ev, a) \<Rightarrow> More (case (s, handle) of
           (Some endpoint, Some h) \<Rightarrow> (Some (sctp_handle_event E h ev endpoint), a)
         | _ \<Rightarrow> (s, a))) (s, a)"

text \<open>What one chunk read from the stream becomes: an event, nothing, or an error.\<close>

definition chunk_event ::
  "('i, 'c, 'k, 'd, 's, 'a, 'e) stack \<Rightarrow> ppid \<times> byte list \<Rightarrow> tunnel_error + event list" where
  "chunk_event E chunks = (case fst chunks of
       PpidBinaryEmpty \<Rightarrow> Inr [Message []]
     | PpidStringEmpty \<Rightarrow> Inr [Message []]
     | PpidOther \<Rightarrow> Inr []
     | _ \<Rightarrow> (case chunks_to_payload E (snd chunks) MAX_MESSAGE_SIZE of
           Inl e \<Rightarrow> Inl (Config (''reassemble: '' @ e))
         | Inr payload \<Rightarrow> Inr [Message payload]))"

definition read_chunks ::
  "('i, 'c, 'k, 'd, 's, 'a, 'e) stack \<Rightarrow> u16 \<Rightarrow> event list \<Rightarrow> 'a \<Rightarrow> ((tunnel_error + unit) \<times> event list \<times> 'a) option" where
  "read_chunks E stream_id events a = while_let (\<lambda>(events, a).
     case stream_read E stream_id a of
       (Inl e, a) \<Rightarrow> Done (Inl (Config (''sctp read: '' @ e)), events, a)
     | (Inr None, a) \<Rightarrow> Done (Inr (), events, a)
     | (Inr (Some chunks), a) \<Rightarrow> (case chunk_event E chunks of
           Inl e \<Rightarrow> Done (Inl e, events, a)
         | Inr new \<Rightarrow> More (events @ new, a))) (events, a)"

definition read_stream ::
  "('i, 'c, 'k, 'd, 's, 'a, 'e) stack \<Rightarrow> ('i, 'k, 'd, 's, 'a) direct_tunnel \<Rightarrow> ((tunnel_error + unit) \<times> ('i, 'k, 'd, 's, 'a) direct_tunnel) option" where
  "read_stream E t = (case dt_association t of
       None \<Rightarrow> Some (Inr (), t)
     | Some a \<Rightarrow>
         if \<not> assoc_stream E (dt_stream_id t) a then Some (Inr (), t)
         else do {
           (r, evs, a) \<leftarrow> read_chunks E (dt_stream_id t) (dt_events t) a;
           Some (r, t\<lparr>dt_events := evs, dt_association := Some a\<rparr>) })"

text \<open>\<open>drain_sctp\<close> in its three parts: the polling loops, what the flags do to the tunnel, and
  the read of a readable stream.\<close>

definition poll_sctp ::
  "('i, 'c, 'k, 'd, 's, 'a, 'e) stack \<Rightarrow> ('i, 'k, 'd, 's, 'a) direct_tunnel \<Rightarrow> (bool \<times> bool \<times> bool \<times> ('i, 'k, 'd, 's, 'a) direct_tunnel) option" where
  "poll_sctp E t = (case dt_association t of
       None \<Rightarrow> Some (False, False, False, t)
     | Some a \<Rightarrow> do {
         (readable, connected, lost, a) \<leftarrow> poll_association E (dt_stream_id t) a;
         (s, a) \<leftarrow> poll_endpoint_events E (dt_association_handle t) (dt_sctp t) a;
         Some (readable, connected, lost, t\<lparr>dt_association := Some a, dt_sctp := s\<rparr>) })"

definition note_sctp :: "bool \<Rightarrow> bool \<Rightarrow> ('i, 'k, 'd, 's, 'a) direct_tunnel \<Rightarrow> ('i, 'k, 'd, 's, 'a) direct_tunnel" where
  "note_sctp connected lost t =
     (let t = (if connected then
         t\<lparr>dt_sctp_connected := True, dt_trace := observe_sctp (dt_ms t (dt_last_now t)) (dt_trace t)\<rparr> else t)
      in if lost then dt_finish Remote t else t)"

definition drain_sctp ::
  "('i, 'c, 'k, 'd, 's, 'a, 'e) stack \<Rightarrow> ('i, 'k, 'd, 's, 'a) direct_tunnel \<Rightarrow> ((tunnel_error + unit) \<times> ('i, 'k, 'd, 's, 'a) direct_tunnel) option" where
  "drain_sctp E t = do {
     (readable, connected, lost, t) \<leftarrow> poll_sctp E t;
     let t = note_sctp connected lost t;
     if readable then read_stream E t else Some (Inr (), t) }"

fun dtls_write_all ::
  "('i, 'c, 'k, 'd, 's, 'a, 'e) stack \<Rightarrow> instant \<Rightarrow> socket_addr \<Rightarrow> byte list list \<Rightarrow> 'd \<Rightarrow> (tunnel_error + unit) \<times> 'd" where
  "dtls_write_all E now remote [] d = (Inr (), d)"
| "dtls_write_all E now remote (raw # raws) d = (case dtls_write E now remote raw d of
       (Inl e, d) \<Rightarrow> (Inl (Config (''dtls write: '' @ e)), d)
     | (Inr _, d) \<Rightarrow> dtls_write_all E now remote raws d)"

definition transmit_loop ::
  "('i, 'c, 'k, 'd, 's, 'a, 'e) stack \<Rightarrow> bool \<Rightarrow> instant \<Rightarrow> socket_addr \<Rightarrow> 'd \<Rightarrow> 'a \<Rightarrow> ((tunnel_error + unit) \<times> 'd \<times> 'a) option" where
  "transmit_loop E dtls_started now remote d a = while_let (\<lambda>(d, a).
     case assoc_poll_transmit E now a of
       (None, a) \<Rightarrow> Done (Inr (), d, a)
     | (Some (RawEncode raws), a) \<Rightarrow>
         if dtls_started then
           (case dtls_write_all E now remote raws d of
              (Inl e, d) \<Rightarrow> Done (Inl e, d, a)
            | (Inr _, d) \<Rightarrow> More (d, a))
         else More (d, a)
     | (Some OtherPayload, a) \<Rightarrow> More (d, a)) (d, a)"

definition drain_sctp_transmits ::
  "('i, 'c, 'k, 'd, 's, 'a, 'e) stack \<Rightarrow> ('i, 'k, 'd, 's, 'a) direct_tunnel \<Rightarrow> ((tunnel_error + unit) \<times> ('i, 'k, 'd, 's, 'a) direct_tunnel) option" where
  "drain_sctp_transmits E t = (case dt_association t of
       None \<Rightarrow> Some (Inr (), t)
     | Some a \<Rightarrow> do {
         (r, d, a) \<leftarrow> transmit_loop E (dt_dtls_started t) (dt_last_now t) (dt_remote_addr t) (dt_dtls t) a;
         Some (r, t\<lparr>dt_dtls := d, dt_association := Some a\<rparr>) })"

text \<open>The part of \<open>pump\<close> that runs while DTLS is started, with the three question marks.\<close>

definition pump_started ::
  "('i, 'c, 'k, 'd, 's, 'a, 'e) stack \<Rightarrow> ('i, 'k, 'd, 's, 'a) direct_tunnel \<Rightarrow> ((tunnel_error + unit) \<times> ('i, 'k, 'd, 's, 'a) direct_tunnel) option" where
  "pump_started E t = do {
     s \<leftarrow> drain_sctp E t;
     try_then s (\<lambda>_ t.
     try_then (drain_channel E t) (\<lambda>_ t. do {
     s \<leftarrow> drain_sctp_transmits E t;
     try_then s (\<lambda>_ t. do {
       t \<leftarrow> drain_dtls_transmits E t;
       Some (Inr (), t) }) })) }"

definition pump ::
  "('i, 'c, 'k, 'd, 's, 'a, 'e) stack \<Rightarrow> ('i, 'k, 'd, 's, 'a) direct_tunnel \<Rightarrow> ((tunnel_error + unit) \<times> ('i, 'k, 'd, 's, 'a) direct_tunnel) option" where
  "pump E t = do {
     t \<leftarrow> drain_ice_events E t;
     t \<leftarrow> drain_ice_writes E t;
     let t = (if selected_pair E (dt_ice t) \<and> \<not> dt_dtls_started t then start_dtls E t else t);
     s \<leftarrow> (if dt_dtls_started t then pump_started E t else Some (Inr (), t));
     try_then s (\<lambda>_ t. Some (Inr (), dt_maybe_open t)) }"

section \<open>The methods the host calls\<close>

definition ingest ::
  "('i, 'c, 'k, 'd, 's, 'a, 'e) stack \<Rightarrow> instant \<Rightarrow> byte list \<Rightarrow> ('i, 'k, 'd, 's, 'a) direct_tunnel \<Rightarrow> ('i, 'k, 'd, 's, 'a) direct_tunnel" where
  "ingest E now datagram t =
     (let (ok, t) =
        (if is_stun datagram then
           (let (r, i) = ice_handle_read E now (dt_local_addr t) (dt_remote_addr t) datagram (dt_ice t)
            in (is_ok r, t\<lparr>dt_ice := i\<rparr>))
         else if is_dtls datagram then
           (if \<not> selected_pair E (dt_ice t) then (True, t)
            else
              (let t = (if \<not> dt_dtls_started t then start_dtls E t else t);
                   (r, t) = feed_dtls E now datagram t
               in (is_ok r, t)))
         else (True, t))
      in if ok then t
         else t\<lparr>dt_dropped_datagrams := saturating_add_u64 (dt_dropped_datagrams t) 1\<rparr>)"

definition dt_receive ::
  "('i, 'c, 'k, 'd, 's, 'a, 'e) stack \<Rightarrow> nat \<Rightarrow> byte list \<Rightarrow> ('i, 'k, 'd, 's, 'a) direct_tunnel \<Rightarrow> ('i, 'k, 'd, 's, 'a) direct_tunnel option" where
  "dt_receive E now_ms datagram t = (if dt_finished t then Some t
     else
       (let now = dt_epoch t + millis now_ms;
            t = ingest E now datagram (t\<lparr>dt_last_now := now\<rparr>)
        in map_option snd (pump E t)))"

definition dt_receive_deferred ::
  "('i, 'c, 'k, 'd, 's, 'a, 'e) stack \<Rightarrow> nat \<Rightarrow> byte list \<Rightarrow> ('i, 'k, 'd, 's, 'a) direct_tunnel \<Rightarrow> ('i, 'k, 'd, 's, 'a) direct_tunnel option" where
  "dt_receive_deferred E now_ms datagram t = (if dt_finished t then Some t
     else
       (let now = dt_epoch t + millis now_ms;
            t = ingest E now datagram (t\<lparr>dt_last_now := now\<rparr>)
        in if \<not> dt_opened t then map_option snd (pump E t) else Some t))"

definition dt_finish_input_batch ::
  "('i, 'c, 'k, 'd, 's, 'a, 'e) stack \<Rightarrow> ('i, 'k, 'd, 's, 'a) direct_tunnel \<Rightarrow> ('i, 'k, 'd, 's, 'a) direct_tunnel option" where
  "dt_finish_input_batch E t = (if dt_finished t \<or> \<not> dt_opened t then Some t else map_option snd (pump E t))"

definition run_timeouts ::
  "('i, 'c, 'k, 'd, 's, 'a, 'e) stack \<Rightarrow> instant \<Rightarrow> ('i, 'k, 'd, 's, 'a) direct_tunnel \<Rightarrow> ('i, 'k, 'd, 's, 'a) direct_tunnel" where
  "run_timeouts E now t =
     (let t = t\<lparr>dt_ice := ice_handle_timeout E now (dt_ice t)\<rparr>;
          t = (if dt_dtls_started t
               then t\<lparr>dt_dtls := dtls_handle_timeout E (dt_remote_addr t) now (dt_dtls t)\<rparr> else t)
      in case dt_association t of
           None \<Rightarrow> t
         | Some a \<Rightarrow> t\<lparr>dt_association := Some (assoc_handle_timeout E now a)\<rparr>)"

definition dt_tick ::
  "('i, 'c, 'k, 'd, 's, 'a, 'e) stack \<Rightarrow> nat \<Rightarrow> ('i, 'k, 'd, 's, 'a) direct_tunnel \<Rightarrow> ('i, 'k, 'd, 's, 'a) direct_tunnel option" where
  "dt_tick E now_ms t = (if dt_finished t then Some t
     else
       (let now = dt_epoch t + millis now_ms;
            t = run_timeouts E now (t\<lparr>dt_last_now := now\<rparr>)
        in do {
          (_, t) \<leftarrow> pump E t;
          Some (if \<not> dt_opened t \<and> dt_handshake_deadline t \<le> now then dt_finish Timeout t else t) }))"

text \<open>The wire form of a message: SCTP cannot carry an empty one.\<close>

definition encode_message :: "byte list \<Rightarrow> ppid \<times> byte list" where
  "encode_message data = (if data = [] then (PpidBinaryEmpty, [0]) else (PpidBinary, data))"

text \<open>The three drains after a write; their errors are ignored.\<close>

definition flush_message ::
  "('i, 'c, 'k, 'd, 's, 'a, 'e) stack \<Rightarrow> ('i, 'k, 'd, 's, 'a) direct_tunnel \<Rightarrow> ('i, 'k, 'd, 's, 'a) direct_tunnel option" where
  "flush_message E t = do {
     (_, t) \<leftarrow> Some (drain_channel E t);
     (_, t) \<leftarrow> drain_sctp_transmits E t;
     drain_dtls_transmits E t }"

definition dt_send ::
  "('i, 'c, 'k, 'd, 's, 'a, 'e) stack \<Rightarrow> byte list \<Rightarrow> ('i, 'k, 'd, 's, 'a) direct_tunnel \<Rightarrow> (send_result \<times> ('i, 'k, 'd, 's, 'a) direct_tunnel) option" where
  "dt_send E data t =
     (if dt_finished t then Some (NotOpen, t)
      else if \<not> dt_opened t then Some (NotOpen, t)
      else if MAX_MESSAGE_SIZE < length data then Some (TooLarge, t)
      else case dt_association t of
        None \<Rightarrow> Some (NotOpen, t)
      | Some a \<Rightarrow>
          if \<not> assoc_stream E (dt_stream_id t) a then Some (NotOpen, t)
          else
            (let buffered = (case stream_buffered_amount E (dt_stream_id t) a of Inl _ \<Rightarrow> 0 | Inr n \<Rightarrow> n) in
             if dt_send_buffer_cap t < saturating_add_usize (usize_max E) buffered (length data)
             then Some (Backpressure, t)
             else if \<not> stream_is_writable E (dt_stream_id t) a then Some (NotOpen, t)
             else
               (let (ppi, payload) = encode_message data;
                    (r, a) = stream_write E (dt_stream_id t) payload ppi a;
                    t = t\<lparr>dt_association := Some a\<rparr>
                in if \<not> is_ok r then Some (NotOpen, t)
                   else do {
                     t \<leftarrow> flush_message E t;
                     Some (Accepted, t) })))"

definition dt_close ::
  "('i, 'c, 'k, 'd, 's, 'a, 'e) stack \<Rightarrow> ('i, 'k, 'd, 's, 'a) direct_tunnel \<Rightarrow> ('i, 'k, 'd, 's, 'a) direct_tunnel" where
  "dt_close E t = (if dt_finished t then t else dt_finish Local (t\<lparr>dt_ice := ice_close E (dt_ice t)\<rparr>))"

definition dt_poll_event ::
  "('i, 'k, 'd, 's, 'a) direct_tunnel \<Rightarrow> event option \<times> ('i, 'k, 'd, 's, 'a) direct_tunnel" where
  "dt_poll_event t = (let (e, q) = pop_front (dt_events t) in (e, t\<lparr>dt_events := q\<rparr>))"

definition min_opt :: "instant option \<Rightarrow> instant option \<Rightarrow> instant option" where
  "min_opt best t = (case t of None \<Rightarrow> best
     | Some t \<Rightarrow> Some (case best of None \<Rightarrow> t | Some b \<Rightarrow> min b t))"

definition dt_next_deadline ::
  "('i, 'c, 'k, 'd, 's, 'a, 'e) stack \<Rightarrow> ('i, 'k, 'd, 's, 'a) direct_tunnel \<Rightarrow> nat option \<times> ('i, 'k, 'd, 's, 'a) direct_tunnel" where
  "dt_next_deadline E t = (if dt_finished t then (None, t)
     else
       (let best = (if dt_opened t then None else Some (dt_handshake_deadline t));
            (ti, i) = ice_poll_timeout E (dt_ice t);
            t = t\<lparr>dt_ice := i\<rparr>;
            best = min_opt best ti;
            (td, d) = (if dt_dtls_started t then dtls_poll_timeout E (dt_remote_addr t) (dt_dtls t)
                       else (None, dt_dtls t));
            t = t\<lparr>dt_dtls := d\<rparr>;
            best = min_opt best td;
            best = min_opt best (Option.bind (dt_association t) (assoc_poll_timeout E))
        in (map_option (dt_ms t) best, t)))"

definition dt_buffered_bytes ::
  "('i, 'c, 'k, 'd, 's, 'a, 'e) stack \<Rightarrow> ('i, 'k, 'd, 's, 'a) direct_tunnel \<Rightarrow> nat" where
  "dt_buffered_bytes E t = (case dt_association t of None \<Rightarrow> 0
     | Some a \<Rightarrow> if assoc_stream E (dt_stream_id t) a
         then (case stream_buffered_amount E (dt_stream_id t) a of Inl _ \<Rightarrow> 0 | Inr n \<Rightarrow> n) else 0)"

definition dt_negotiated_cipher_suite ::
  "('i, 'c, 'k, 'd, 's, 'a, 'e) stack \<Rightarrow> ('i, 'k, 'd, 's, 'a) direct_tunnel \<Rightarrow> rstr option" where
  "dt_negotiated_cipher_suite E t = (case connection_cipher_suite E (dt_remote_addr t) (dt_dtls t) of
       None \<Rightarrow> None | Some suite \<Rightarrow> suite)"

definition dt_set_remote :: "socket_addr \<Rightarrow> ('i, 'k, 'd, 's, 'a) direct_tunnel \<Rightarrow> ('i, 'k, 'd, 's, 'a) direct_tunnel" where
  "dt_set_remote remote t = t\<lparr>dt_remote_addr := remote\<rparr>"

definition dt_set_remote_ice_credentials ::
  "('i, 'c, 'k, 'd, 's, 'a, 'e) stack \<Rightarrow> rstr \<Rightarrow> rstr \<Rightarrow> ('i, 'k, 'd, 's, 'a) direct_tunnel \<Rightarrow> (tunnel_error + unit) \<times> ('i, 'k, 'd, 's, 'a) direct_tunnel" where
  "dt_set_remote_ice_credentials E ufrag pwd t =
     (let (r, i) = set_remote_credentials E ufrag pwd (dt_ice t)
      in (map_err (\<lambda>e. Config (''remote credentials: '' @ e)) r, t\<lparr>dt_ice := i\<rparr>))"

definition dt_set_send_buffer_cap :: "nat \<Rightarrow> ('i, 'k, 'd, 's, 'a) direct_tunnel \<Rightarrow> ('i, 'k, 'd, 's, 'a) direct_tunnel" where
  "dt_set_send_buffer_cap cap t = t\<lparr>dt_send_buffer_cap := cap\<rparr>"

definition dt_apply_remote_answer_sdp :: "rstr \<Rightarrow> ('i, 'k, 'd, 's, 'a) direct_tunnel \<Rightarrow> ('i, 'k, 'd, 's, 'a) direct_tunnel" where
  "dt_apply_remote_answer_sdp sdp t = (case parse_answer_fingerprint sdp of
       Some fingerprint \<Rightarrow> t\<lparr>dt_remote_fingerprint := fingerprint\<rparr>
     | None \<Rightarrow> t)"

definition render_sdp ::
  "('i, 'c, 'k, 'd, 's, 'a, 'e) stack \<Rightarrow> rstr \<Rightarrow> ('i, 'k, 'd, 's, 'a) direct_tunnel \<Rightarrow> rstr" where
  "render_sdp E setup t =
     (let (ufrag, pwd) = get_local_credentials E (dt_ice t);
          candidate = (case get_local_candidates E (dt_ice t) of [] \<Rightarrow> [] | c # _ \<Rightarrow> candidate_marshal E c)
      in crlf_text (render_sdp_lines (is_ipv4 (dt_local_addr t)) (dt_fingerprint_algorithm t)
           (dt_local_fingerprint t) setup (dt_sctp_port t) ufrag pwd candidate))"

definition dt_offer_sdp :: "('i, 'c, 'k, 'd, 's, 'a, 'e) stack \<Rightarrow> ('i, 'k, 'd, 's, 'a) direct_tunnel \<Rightarrow> rstr option" where
  "dt_offer_sdp E t = Some (render_sdp E ''actpass'' t)"

definition dt_answer_sdp :: "('i, 'c, 'k, 'd, 's, 'a, 'e) stack \<Rightarrow> ('i, 'k, 'd, 's, 'a) direct_tunnel \<Rightarrow> rstr option" where
  "dt_answer_sdp E t = (if dt_role t = Answerer then Some (render_sdp E ''passive'' t) else None)"

end
