(* ===== verification/Direct_Inv.thy ===== *)
theory Direct_Inv
  imports Direct
begin

text \<open>
  The invariant of the direct backend and that every method keeps it. \<open>dt_inv\<close> is the order in
  which the layers come up, together with the handshake trace: no layer is marked up before the
  one below it, and a phase has a time stamp exactly when its flag is set. \<open>evolves\<close> is what
  any method does to a tunnel: the observable history advances, the parameters fixed at
  construction stay, the trace keeps its observations, the progress flags are never taken back,
  and the invariant survives. It is a preorder, so a method is a chain of its parts.
\<close>

definition dt_view :: "('i, 'k, 'd, 's, 'a) direct_tunnel \<Rightarrow> view" where
  "dt_view t = (dt_events t, dt_opened t, dt_finished t)"

definition dt_inv :: "('i, 'k, 'd, 's, 'a) direct_tunnel \<Rightarrow> bool" where
  "dt_inv t =
     ((dt_opened t \<longrightarrow> dt_sctp_connected t \<and> dt_channel_dialed t)
      \<and> (dt_channel_dialed t \<longrightarrow> dt_sctp_connected t)
      \<and> (dt_sctp_connected t \<longrightarrow> dt_association t \<noteq> None \<and> dt_dtls_started t)
      \<and> (dt_association t \<noteq> None \<longrightarrow> dt_sctp t \<noteq> None \<and> dt_association_handle t \<noteq> None)
      \<and> (dt_sctp t \<noteq> None \<longrightarrow> dt_dtls_connected t)
      \<and> (dt_opened t \<longleftrightarrow> opened_ms (dt_trace t) \<noteq> None)
      \<and> (dt_sctp_connected t \<longleftrightarrow> sctp_ms (dt_trace t) \<noteq> None)
      \<and> (dt_dtls_connected t \<longleftrightarrow> dtls_ms (dt_trace t) \<noteq> None))"

text \<open>What construction fixes and no method of a running session changes.\<close>

definition dt_fixed ::
  "('i, 'k, 'd, 's, 'a) direct_tunnel \<Rightarrow>
   (role \<times> socket_addr \<times> socket_addr \<times> u16 \<times> u16) \<times> (bool \<times> u16 \<times> rstr \<times> bool) \<times> (nat \<times> nat \<times> nat) \<times> 'k dtls_config option" where
  "dt_fixed t = ((dt_role t, dt_local_addr t, dt_remote_addr t, dt_sctp_port t, dt_stream_id t),
     (dt_ordered t, dt_max_retransmits t, dt_local_fingerprint t, dt_disable_fingerprint_verification t),
     (dt_epoch t, dt_handshake_deadline t, dt_send_buffer_cap t), dt_dtls_config t)"

definition dt_flags_le :: "('i, 'k, 'd, 's, 'a) direct_tunnel \<Rightarrow> ('i, 'k, 'd, 's, 'a) direct_tunnel \<Rightarrow> bool" where
  "dt_flags_le t u = ((dt_dtls_started t \<longrightarrow> dt_dtls_started u) \<and> (dt_dtls_connected t \<longrightarrow> dt_dtls_connected u)
     \<and> (dt_sctp_connected t \<longrightarrow> dt_sctp_connected u) \<and> (dt_channel_dialed t \<longrightarrow> dt_channel_dialed u)
     \<and> dt_dropped_datagrams t \<le> dt_dropped_datagrams u)"

definition evolves :: "('i, 'k, 'd, 's, 'a) direct_tunnel \<Rightarrow> ('i, 'k, 'd, 's, 'a) direct_tunnel \<Rightarrow> bool" where
  "evolves t u = (advances (dt_view t) (dt_view u) \<and> dt_fixed u = dt_fixed t \<and> dt_flags_le t u
     \<and> trace_le (dt_trace t) (dt_trace u) \<and> (dt_inv t \<longrightarrow> dt_inv u))"

lemma evolves_refl [simp, intro]: "evolves t t"
  by (simp add: evolves_def dt_flags_le_def)

lemma evolves_trans [trans]: "evolves t u \<Longrightarrow> evolves u v \<Longrightarrow> evolves t v"
  unfolding evolves_def dt_flags_le_def
  by (auto intro: advances_trans trace_le_trans)

lemma evolvesD:
  assumes "evolves t u"
  shows "advances (dt_view t) (dt_view u)" "dt_fixed u = dt_fixed t" "dt_flags_le t u"
    "trace_le (dt_trace t) (dt_trace u)" "dt_inv t \<Longrightarrow> dt_inv u"
  using assms by (auto simp: evolves_def)

lemma evolves_started: "evolves t u \<Longrightarrow> dt_dtls_started t \<Longrightarrow> dt_dtls_started u"
  by (simp add: evolves_def dt_flags_le_def)

lemmas evolves_unfold = evolves_def dt_flags_le_def dt_view_def dt_fixed_def

declare not_None_eq [simp del]

text \<open>The invariant reads only these fields; an update of any other field keeps it.\<close>

definition dt_layers ::
  "('i, 'k, 'd, 's, 'a) direct_tunnel \<Rightarrow> (bool \<times> bool \<times> bool \<times> bool \<times> bool) \<times> (bool \<times> bool \<times> bool) \<times> handshake_trace" where
  "dt_layers t = ((dt_opened t, dt_channel_dialed t, dt_sctp_connected t, dt_dtls_connected t, dt_dtls_started t),
     (dt_association t = None, dt_association_handle t = None, dt_sctp t = None), dt_trace t)"

lemma dt_inv_layers: "dt_layers u = dt_layers t \<Longrightarrow> dt_inv u = dt_inv t"
  by (simp add: dt_layers_def dt_inv_def)

lemma evolves_sameI:
  assumes "dt_layers u = dt_layers t" "dt_fixed u = dt_fixed t" "advances (dt_view t) (dt_view u)"
    "dt_dropped_datagrams t \<le> dt_dropped_datagrams u"
  shows "evolves t u"
  using assms dt_inv_layers [OF assms(1)]
  by (simp add: evolves_def dt_flags_le_def dt_layers_def)

lemmas same_simps = dt_layers_def dt_fixed_def dt_view_def

section \<open>Single updates\<close>

lemma evolves_ice [simp, intro]: "evolves t (t\<lparr>dt_ice := i\<rparr>)"
  by (rule evolves_sameI) (simp_all add: same_simps)

lemma evolves_dtls [simp, intro]: "evolves t (t\<lparr>dt_dtls := d\<rparr>)"
  by (rule evolves_sameI) (simp_all add: same_simps)

lemma evolves_last_now [simp, intro]: "evolves t (t\<lparr>dt_last_now := n\<rparr>)"
  by (rule evolves_sameI) (simp_all add: same_simps)

lemma evolves_sctp_config [simp, intro]: "evolves t (t\<lparr>dt_sctp_config := c\<rparr>)"
  by (rule evolves_sameI) (simp_all add: same_simps)

lemma evolves_assoc: "dt_association t \<noteq> None \<Longrightarrow> evolves t (t\<lparr>dt_association := Some a\<rparr>)"
  by (rule evolves_sameI) (simp_all add: same_simps)

lemma evolves_sctp: "dt_sctp t \<noteq> None \<Longrightarrow> evolves t (t\<lparr>dt_sctp := Some s\<rparr>)"
  by (rule evolves_sameI) (simp_all add: same_simps)

lemma evolves_dropped [simp, intro]:
  "evolves t (t\<lparr>dt_dropped_datagrams := saturating_add_u64 (dt_dropped_datagrams t) n\<rparr>)"
  by (rule evolves_sameI) (simp_all add: same_simps saturating_add_u64_mono)

lemma evolves_push: "\<not> is_opened_event e \<Longrightarrow> \<not> is_closed_event e \<Longrightarrow> evolves t (push_event e t)"
  by (rule evolves_sameI) (simp_all add: same_simps push_event_def advances_plain)

lemma evolves_events:
  "filter is_opened_event new = [] \<Longrightarrow> filter is_closed_event new = [] \<Longrightarrow>
   evolves t (t\<lparr>dt_events := dt_events t @ new\<rparr>)"
  by (rule evolves_sameI) (simp_all add: same_simps advances.simps)

lemma evolves_finish [simp, intro]: "evolves t (dt_finish r t)"
proof (cases "dt_finished t")
  case False
  then show ?thesis
    by (intro evolves_sameI) (simp_all add: dt_finish_def same_simps push_event_def advances_closed)
qed (simp add: dt_finish_def)

lemma evolves_maybe_open [simp, intro]: "evolves t (dt_maybe_open t)"
proof (cases "\<not> dt_opened t \<and> dt_sctp_connected t \<and> dt_channel_dialed t")
  case True
  then have u: "dt_maybe_open t = push_event Opened (t\<lparr>dt_opened := True,
      dt_trace := observe_open (dt_ms t (dt_last_now t)) (dt_trace t)\<rparr>)"
    by (simp add: dt_maybe_open_def)
  have "advances (dt_view t) (dt_view (dt_maybe_open t))"
    using True advances_opened by (simp add: u dt_view_def push_event_def)
  moreover have "dt_inv t \<longrightarrow> dt_inv (dt_maybe_open t)"
    using True by (auto simp: u dt_inv_def push_event_def observe_open_def)
  ultimately show ?thesis
    by (simp add: evolves_def dt_fixed_def dt_flags_le_def) (simp add: u push_event_def trace_le_then)
next
  case False
  then show ?thesis by (auto simp: dt_maybe_open_def)
qed

lemma evolves_observe_ice [simp, intro]: "evolves t (t\<lparr>dt_trace := observe_ice n (dt_trace t)\<rparr>)"
  by (simp add: evolves_unfold trace_le_then) (auto simp: dt_inv_def observe_ice_def)

lemma evolves_observe_dtls [simp, intro]:
  "evolves t (t\<lparr>dt_dtls_connected := True, dt_trace := observe_dtls n (dt_trace t)\<rparr>)"
  by (simp add: evolves_unfold trace_le_then) (auto simp: dt_inv_def observe_dtls_def)

lemma evolves_observe_sctp:
  "dt_association t \<noteq> None \<Longrightarrow> dt_dtls_started t \<Longrightarrow>
   evolves t (t\<lparr>dt_sctp_connected := True, dt_trace := observe_sctp n (dt_trace t)\<rparr>)"
  by (simp add: evolves_unfold trace_le_then) (auto simp: dt_inv_def observe_sctp_def)

text \<open>The updates that bring a layer up.\<close>

lemma evolves_dtls_started: "\<not> dt_dtls_started t \<Longrightarrow> evolves t (t\<lparr>dt_dtls_started := b\<rparr>)"
  by (simp add: evolves_unfold) (auto simp: dt_inv_def)

lemma evolves_sctp_up: "dt_dtls_connected t \<Longrightarrow> evolves t (t\<lparr>dt_sctp := Some s\<rparr>)"
  by (simp add: evolves_unfold) (auto simp: dt_inv_def)

lemma evolves_association_up:
  "dt_sctp t \<noteq> None \<Longrightarrow> evolves t (t\<lparr>dt_association := Some a, dt_association_handle := Some h\<rparr>)"
  by (simp add: evolves_unfold) (auto simp: dt_inv_def)

lemma evolves_dialed: "dt_sctp_connected t \<Longrightarrow> evolves t (t\<lparr>dt_channel_dialed := True\<rparr>)"
  by (simp add: evolves_unfold) (auto simp: dt_inv_def)

section \<open>The layers\<close>

lemma evolves_activate_dtls: "activate_dtls E t = (b, u) \<Longrightarrow> evolves t u"
  by (auto simp: activate_dtls_def split: if_splits option.splits prod.splits)

lemma activate_dtls_started: "activate_dtls E t = (b, u) \<Longrightarrow> dt_dtls_started u = dt_dtls_started t"
  by (auto simp: activate_dtls_def split: if_splits option.splits prod.splits)

lemma evolves_start_dtls: "\<not> dt_dtls_started t \<Longrightarrow> evolves t (start_dtls E t)"
  by (auto simp: start_dtls_def activate_dtls_started split: prod.splits
      intro: evolves_trans [OF evolves_activate_dtls evolves_dtls_started])

lemma evolves_start_sctp:
  assumes "dt_dtls_connected t" "start_sctp E t = (r, u)"
  shows "evolves t u"
proof -
  note up = evolves_sctp_up [OF assms(1)]
  have "evolves t (t\<lparr>dt_sctp := Some s, dt_association := Some a, dt_association_handle := Some h\<rparr>)" for s a h
    using evolves_trans [OF up evolves_association_up] by simp
  moreover have "evolves t (t\<lparr>dt_sctp := Some s, dt_sctp_config := c\<rparr>)" for s c
    using evolves_trans [OF up evolves_sctp_config] .
  ultimately show ?thesis
    using assms(2) up by (auto simp: start_sctp_def Let_def split: if_splits prod.splits sum.splits)
qed

lemma evolves_feed_sctp: "evolves t (feed_sctp E now data t)"
proof (cases "dt_sctp t")
  case None
  then show ?thesis by (simp add: feed_sctp_def)
next
  case (Some s)
  then have up: "evolves t (t\<lparr>dt_sctp := Some s'\<rparr>)" for s' by (simp add: evolves_sctp)
  have "evolves t (t\<lparr>dt_sctp := Some s', dt_association := Some a, dt_association_handle := Some h\<rparr>)" for s' a h
    using evolves_trans [OF up evolves_association_up] by simp
  moreover have "dt_association t \<noteq> None \<Longrightarrow> evolves t (t\<lparr>dt_sctp := Some s', dt_association := Some a\<rparr>)" for s' a
    using evolves_trans [OF up evolves_assoc] by simp
  ultimately show ?thesis
    using Some up by (auto simp: feed_sctp_def Let_def split: prod.splits option.splits datagram_event.splits)
qed

lemma evolves_feed_dtls_events: "feed_dtls_events E now evs t = (r, u) \<Longrightarrow> evolves t u"
proof (induction evs arbitrary: t)
  case (Cons ev evs)
  show ?case
  proof (cases ev)
    case HandshakeComplete
    let ?t = "t\<lparr>dt_dtls_connected := True, dt_trace := observe_dtls (dt_ms t now) (dt_trace t)\<rparr>"
    obtain r' v where ss: "start_sctp E ?t = (r', v)" by (cases "start_sctp E ?t") auto
    then have "evolves ?t v" by (intro evolves_start_sctp) simp_all
    then have "evolves ?t u"
      using Cons HandshakeComplete ss evolves_trans
      by (cases r') (fastforce simp: Let_def split: if_splits)+
    then show ?thesis using evolves_trans evolves_observe_dtls by blast
  next
    case (ApplicationData d)
    then show ?thesis using Cons evolves_trans [OF evolves_feed_sctp] by fastforce
  next
    case OtherEndpointEvent
    then show ?thesis using Cons by simp
  qed
qed simp

lemma evolves_feed_dtls: "feed_dtls E now data t = (r, u) \<Longrightarrow> evolves t u"
  by (auto simp: feed_dtls_def split: prod.splits sum.splits
      intro: evolves_trans [OF evolves_dtls] evolves_feed_dtls_events)

lemma evolves_open_stream:
  assumes "dt_sctp_connected t" "open_stream E t = (r, u)"
  shows "evolves t u"
proof -
  note dial = evolves_dialed [OF assms(1)]
  have "dt_association t \<noteq> None \<Longrightarrow> evolves t (t\<lparr>dt_channel_dialed := True, dt_association := Some a\<rparr>)" for a
    using evolves_trans [OF dial evolves_assoc] by simp
  then show ?thesis
    using assms(2) dial
    by (auto simp: open_stream_def Let_def split: option.splits prod.splits sum.splits)
qed

lemma evolves_drain_channel: "drain_channel E t = (r, u) \<Longrightarrow> evolves t u"
  by (auto simp: drain_channel_def split: if_splits intro: evolves_open_stream)

section \<open>The loops\<close>

lemma evolves_ice_push: "evolves t s \<Longrightarrow> evolves t (push_event (SendDatagram m) (s\<lparr>dt_ice := i\<rparr>))"
  by (rule evolves_trans [OF evolves_trans [OF _ evolves_ice] evolves_push]) auto

lemma evolves_dtls_push: "evolves t s \<Longrightarrow> evolves t (push_event (SendDatagram m) (s\<lparr>dt_dtls := d\<rparr>))"
  by (rule evolves_trans [OF evolves_trans [OF _ evolves_dtls] evolves_push]) auto

lemma evolves_ice_observe:
  "evolves t s \<Longrightarrow> evolves t (s\<lparr>dt_ice := i, dt_trace := observe_ice n (dt_trace s)\<rparr>)"
  by (rule evolves_trans [of t s, OF _ evolves_trans [OF evolves_ice [of s i]]])
    (use evolves_observe_ice [of "s\<lparr>dt_ice := i\<rparr>" n] in simp_all)

lemma evolves_drain_ice_events: "drain_ice_events E t = Some u \<Longrightarrow> evolves t u"
  unfolding drain_ice_events_def
  by (erule while_let_inv [where I = "evolves t"])
    (auto simp: Let_def evolves_ice_observe evolves_trans [OF _ evolves_ice]
      split: prod.splits option.splits ice_event.splits if_splits)

lemma evolves_drain_ice_writes: "drain_ice_writes E t = Some u \<Longrightarrow> evolves t u"
  unfolding drain_ice_writes_def
  by (erule while_let_inv [where I = "evolves t"])
    (auto simp: evolves_ice_push evolves_trans [OF _ evolves_ice] split: prod.splits option.splits)

lemma evolves_drain_dtls_transmits: "drain_dtls_transmits E t = Some u \<Longrightarrow> evolves t u"
  unfolding drain_dtls_transmits_def
  by (erule while_let_inv [where I = "evolves t"])
    (auto simp: evolves_dtls_push evolves_trans [OF _ evolves_dtls] split: prod.splits option.splits)

lemma poll_endpoint_events_None:
  "poll_endpoint_events E h s a = Some (s', a') \<Longrightarrow> s' = None \<longleftrightarrow> s = None"
  unfolding poll_endpoint_events_def
  by (drule while_let_inv [where I = "\<lambda>(s', a). s' = None \<longleftrightarrow> s = None"
        and Q = "\<lambda>(s', a). s' = None \<longleftrightarrow> s = None"])
    (auto split: prod.splits option.splits)

text \<open>A chunk read from the stream becomes messages only.\<close>

lemma chunk_event_messages:
  "chunk_event E c = Inr new \<Longrightarrow> filter is_opened_event new = [] \<and> filter is_closed_event new = []"
  by (auto simp: chunk_event_def split: ppid.splits sum.splits)

lemma read_chunks_events:
  assumes "read_chunks E sid evs a = Some (r, evs', a')"
  shows "\<exists>new. evs' = evs @ new \<and> filter is_opened_event new = [] \<and> filter is_closed_event new = []"
proof -
  let ?I = "\<lambda>evs'. \<exists>new. evs' = evs @ new \<and> filter is_opened_event new = [] \<and> filter is_closed_event new = []"
  have "(\<lambda>(r, evs', a). ?I evs') (r, evs', a')"
    using assms unfolding read_chunks_def
    by (rule while_let_inv [where I = "\<lambda>(evs', a). ?I evs'"])
      (auto split: prod.splits sum.splits option.splits dest: chunk_event_messages)
  then show ?thesis by simp
qed

lemma evolves_read_stream: "read_stream E t = Some (r, u) \<Longrightarrow> evolves t u"
proof -
  assume eq: "read_stream E t = Some (r, u)"
  show ?thesis
  proof (cases "dt_association t")
    case None
    with eq show ?thesis by (simp add: read_stream_def)
  next
    case (Some a)
    show ?thesis
    proof (cases "assoc_stream E (dt_stream_id t) a")
      case False
      with Some eq show ?thesis by (simp add: read_stream_def)
    next
      case True
      with Some eq obtain evs b where rc: "read_chunks E (dt_stream_id t) (dt_events t) a = Some (r, evs, b)"
        and u: "u = t\<lparr>dt_events := evs, dt_association := Some b\<rparr>"
        by (auto simp: read_stream_def bind_eq_Some_conv)
      from read_chunks_events [OF rc] obtain new where new: "evs = dt_events t @ new"
        "filter is_opened_event new = []" "filter is_closed_event new = []" by blast
      have "evolves t (t\<lparr>dt_events := dt_events t @ new\<rparr>)"
        using new by (intro evolves_events) auto
      also have "evolves \<dots> (t\<lparr>dt_events := dt_events t @ new, dt_association := Some b\<rparr>)"
        using evolves_assoc [of "t\<lparr>dt_events := dt_events t @ new\<rparr>" b] Some by simp
      finally show ?thesis by (simp add: u new)
    qed
  qed
qed

lemma evolves_sctp_parts:
  "dt_association t \<noteq> None \<Longrightarrow> s = None \<longleftrightarrow> dt_sctp t = None \<Longrightarrow>
   evolves t (t\<lparr>dt_association := Some a, dt_sctp := s\<rparr>)"
  by (rule evolves_sameI) (simp_all add: same_simps)

lemma evolves_poll_sctp:
  assumes "poll_sctp E t = Some (readable, connected, lost, u)"
  shows "evolves t u" and "connected \<Longrightarrow> dt_association u \<noteq> None"
proof -
  have "evolves t u \<and> (connected \<longrightarrow> dt_association u \<noteq> None)"
  proof (cases "dt_association t")
    case None
    with assms show ?thesis by (simp add: poll_sctp_def)
  next
    case (Some a)
    with assms obtain b s b' where "poll_endpoint_events E (dt_association_handle t) (dt_sctp t) b = Some (s, b')"
      and "u = t\<lparr>dt_association := Some b', dt_sctp := s\<rparr>"
      by (auto simp: poll_sctp_def bind_eq_Some_conv)
    then show ?thesis using Some poll_endpoint_events_None evolves_sctp_parts [of t s b'] by fastforce
  qed
  then show "evolves t u" "connected \<Longrightarrow> dt_association u \<noteq> None" by auto
qed

lemma evolves_note_sctp:
  assumes "connected \<Longrightarrow> dt_association t \<noteq> None" "dt_dtls_started t"
  shows "evolves t (note_sctp connected lost t)"
proof -
  let ?u = "if connected then t\<lparr>dt_sctp_connected := True,
      dt_trace := observe_sctp (dt_ms t (dt_last_now t)) (dt_trace t)\<rparr> else t"
  have "evolves t ?u" by (cases connected) (simp_all add: evolves_observe_sctp assms)
  also have "evolves ?u (if lost then dt_finish Remote ?u else ?u)" by simp
  finally show ?thesis by (simp add: note_sctp_def Let_def)
qed

lemma evolves_drain_sctp:
  assumes "drain_sctp E t = Some (r, u)" "dt_dtls_started t"
  shows "evolves t u"
proof -
  from assms(1) obtain readable connected lost v where p: "poll_sctp E t = Some (readable, connected, lost, v)"
    and rest: "(if readable then read_stream E (note_sctp connected lost v)
      else Some (Inr (), note_sctp connected lost v)) = Some (r, u)"
    by (auto simp: drain_sctp_def Let_def bind_eq_Some_conv)
  note v = evolves_poll_sctp [OF p]
  have "evolves v (note_sctp connected lost v)"
    using v(2) evolves_started [OF v(1) assms(2)] by (rule evolves_note_sctp)
  also have "evolves \<dots> u" using rest evolves_read_stream by (auto split: if_splits)
  finally show ?thesis by (rule evolves_trans [OF v(1)])
qed

lemma evolves_drain_sctp_transmits: "drain_sctp_transmits E t = Some (r, u) \<Longrightarrow> evolves t u"
  by (auto simp: drain_sctp_transmits_def bind_eq_Some_conv split: option.splits
      intro: evolves_trans [OF evolves_dtls evolves_assoc])

section \<open>The pump and the methods\<close>

lemma evolves_pump_started:
  assumes "pump_started E t = Some (r, u)" "dt_dtls_started t"
  shows "evolves t u"
proof -
  obtain r1 t1 where 1: "drain_sctp E t = Some (r1, t1)"
    using assms by (auto simp: pump_started_def bind_eq_Some_conv)
  note e1 = evolves_drain_sctp [OF 1 assms(2)]
  obtain r2 t2 where 2: "drain_channel E t1 = (r2, t2)" by (cases "drain_channel E t1") auto
  note e2 = evolves_drain_channel [OF 2]
  from assms(1) 1 2 have "evolves t1 u"
    by (auto simp: pump_started_def try_then_Some bind_eq_Some_conv
        intro: evolves_trans [OF e2] evolves_trans evolves_drain_sctp_transmits evolves_drain_dtls_transmits)
  with e1 show ?thesis by (rule evolves_trans)
qed

lemma evolves_pump: "pump E t = Some (r, u) \<Longrightarrow> evolves t u"
proof -
  assume eq: "pump E t = Some (r, u)"
  then obtain t1 t2 where 1: "drain_ice_events E t = Some t1" and 2: "drain_ice_writes E t1 = Some t2"
    by (auto simp: pump_def bind_eq_Some_conv)
  let ?t3 = "if selected_pair E (dt_ice t2) \<and> \<not> dt_dtls_started t2 then start_dtls E t2 else t2"
  from eq 1 2 obtain r4 t4
    where 4: "(if dt_dtls_started ?t3 then pump_started E ?t3 else Some (Inr (), ?t3)) = Some (r4, t4)"
      and u: "u = t4 \<or> u = dt_maybe_open t4"
    by (auto simp: pump_def Let_def bind_eq_Some_conv try_then_Some)
  have "evolves t t1" using 1 by (rule evolves_drain_ice_events)
  also have "evolves t1 t2" using 2 by (rule evolves_drain_ice_writes)
  also have "evolves t2 ?t3" by (simp add: evolves_start_dtls)
  also have "evolves ?t3 t4" using 4 evolves_pump_started by (metis evolves_refl option.inject prod.inject)
  also have "evolves t4 u" using u by auto
  finally show ?thesis .
qed

lemma evolves_ingest: "evolves t (ingest E now d t)"
  by (auto simp: ingest_def Let_def split: prod.splits if_splits
      intro: evolves_trans [OF evolves_ice] evolves_trans [OF evolves_feed_dtls] evolves_feed_dtls
        evolves_trans [OF evolves_start_dtls]
        evolves_trans [OF evolves_trans [OF evolves_start_dtls evolves_feed_dtls] evolves_dropped])

lemma evolves_run_timeouts: "evolves t (run_timeouts E now t)"
  by (auto simp: run_timeouts_def Let_def evolves_unfold dt_inv_def split: option.splits)

lemma evolves_at:
  "evolves t (ingest E now d (t\<lparr>dt_last_now := n\<rparr>))"
  "evolves t (run_timeouts E now (t\<lparr>dt_last_now := n\<rparr>))"
  by (rule evolves_trans [OF evolves_last_now evolves_ingest])
    (rule evolves_trans [OF evolves_last_now evolves_run_timeouts])

lemma evolves_receive: "dt_receive E n d t = Some u \<Longrightarrow> evolves t u"
  by (auto simp: dt_receive_def Let_def split: if_splits dest!: evolves_pump intro: evolves_trans [OF evolves_at(1)])

lemma evolves_receive_deferred: "dt_receive_deferred E n d t = Some u \<Longrightarrow> evolves t u"
  by (auto simp: dt_receive_deferred_def Let_def evolves_at split: if_splits dest!: evolves_pump
      intro: evolves_trans [OF evolves_at(1)])

lemma evolves_finish_input_batch: "dt_finish_input_batch E t = Some u \<Longrightarrow> evolves t u"
  by (auto simp: dt_finish_input_batch_def split: if_splits intro: evolves_pump)

lemma evolves_tick: "dt_tick E n t = Some u \<Longrightarrow> evolves t u"
proof -
  assume eq: "dt_tick E n t = Some u"
  show ?thesis
  proof (cases "dt_finished t")
    case False
    with eq obtain r v where p: "pump E (run_timeouts E (dt_epoch t + millis n)
        (t\<lparr>dt_last_now := dt_epoch t + millis n\<rparr>)) = Some (r, v)"
      and u: "u = v \<or> u = dt_finish Timeout v"
      by (auto simp: dt_tick_def Let_def bind_eq_Some_conv)
    have "evolves t v" using evolves_trans [OF evolves_at(2) evolves_pump [OF p]] .
    with u show ?thesis using evolves_trans evolves_finish by blast
  qed (use eq in \<open>simp add: dt_tick_def\<close>)
qed

text \<open>An accepted or refused write leaves the tunnel through the same drains.\<close>

lemma evolves_flush_message: "flush_message E t = Some u \<Longrightarrow> evolves t u"
  by (cases "drain_channel E t")
    (auto simp: flush_message_def bind_eq_Some_conv dest!: evolves_drain_channel
      evolves_drain_sctp_transmits evolves_drain_dtls_transmits intro: evolves_trans)

lemma evolves_send: "dt_send E d t = Some (r, u) \<Longrightarrow> evolves t u"
  by (auto simp: dt_send_def Let_def bind_eq_Some_conv evolves_assoc
      split: if_splits option.splits prod.splits dest!: evolves_flush_message
      intro: evolves_trans [OF evolves_assoc])

lemma evolves_close: "evolves t (dt_close E t)"
  by (auto simp: dt_close_def intro: evolves_trans [OF evolves_ice])

lemma evolves_next_deadline: "evolves t (snd (dt_next_deadline E t))"
  by (auto simp: dt_next_deadline_def Let_def split: prod.splits
      intro: evolves_trans [OF evolves_ice])

lemmas evolves_methods = evolves_receive evolves_receive_deferred evolves_finish_input_batch evolves_tick
  evolves_send evolves_close evolves_next_deadline

section \<open>Construction establishes the invariant\<close>

definition dt_fresh :: "('i, 'k, 'd, 's, 'a) direct_tunnel \<Rightarrow> bool" where
  "dt_fresh t = (dt_inv t \<and> dt_events t = [] \<and> \<not> dt_opened t \<and> \<not> dt_finished t \<and> \<not> dt_dtls_started t)"

lemma fresh_initial: "dt_fresh (initial_tunnel E r config la n ice)"
  by (simp add: dt_fresh_def dt_inv_def initial_tunnel_def Let_def trace_new_def)

lemma fresh_ice [simp]: "dt_fresh (t\<lparr>dt_ice := i\<rparr>) = dt_fresh t"
  by (simp add: dt_fresh_def dt_inv_def)

lemma fresh_same: "dt_layers u = dt_layers t \<Longrightarrow> dt_view u = dt_view t \<Longrightarrow> dt_fresh u = dt_fresh t"
  using dt_inv_layers [of u t] by (simp add: dt_fresh_def dt_view_def dt_layers_def)

lemma fresh_prepare:
  assumes "dt_fresh t" "prepare_dtls E t = Inr u"
  shows "dt_fresh u"
proof -
  have "dt_layers u = dt_layers t \<and> dt_view u = dt_view t"
    using assms(2) unfolding prepare_dtls_def Let_def
    by (cases "dt_role t = Offerer") (auto simp: dt_layers_def dt_view_def split: sum.splits)
  then show ?thesis using fresh_same assms(1) by blast
qed

lemma fresh_add_candidates: "dt_fresh t \<Longrightarrow> add_candidates E config t = Inr u \<Longrightarrow> dt_fresh u"
  by (auto simp: add_candidates_def split: sum.splits prod.splits)

lemma fresh_build: "dt_build E r config la n = Inr t \<Longrightarrow> dt_fresh t"
  by (auto simp: dt_build_def split: sum.splits prod.splits
      intro: fresh_add_candidates [OF fresh_prepare [OF fresh_initial]])

lemma fresh_start_checks: "dt_fresh t \<Longrightarrow> start_checks E t = Inr u \<Longrightarrow> dt_fresh u"
  by (auto simp: start_checks_def Let_def split: sum.splits prod.splits)

lemma fresh_offerer: "dt_offerer E config la n = Inr t \<Longrightarrow> dt_fresh t"
  by (auto simp: dt_offerer_def split: sum.splits intro: fresh_start_checks fresh_build)

lemma fresh_new: "dt_new E config la n = Inr t \<Longrightarrow> dt_fresh t"
  by (auto simp: dt_new_def split: option.splits intro: fresh_offerer)

lemma fresh_answerer: "dt_answerer E config la sdp n = Inr t \<Longrightarrow> dt_fresh t"
  by (auto simp: dt_answerer_def Let_def split: if_splits sum.splits intro: fresh_start_checks fresh_build)

end
