(* ===== verification/Direct_Props.thy ===== *)
theory Direct_Props
  imports Direct_Inv
begin

text \<open>
  What the direct backend promises its host: it implements the contract of \<open>Backend\<close>, every
  method returns when the engines' queues run empty, the handshake budget is counted from the
  construction time, \<open>send\<close> answers as documented, and the verifier it installs accepts exactly
  the certificate whose digest was announced.
\<close>

section \<open>The backend contract\<close>

definition direct_api ::
  "('i, 'c, 'k, 'd, 's, 'a, 'e) stack \<Rightarrow> ('i, 'k, 'd, 's, 'a) direct_tunnel tunnel_api" where
  "direct_api E =
     \<lparr>new_op = (\<lambda>config local_addr now_ms. Some (dt_new E config local_addr now_ms)),
      receive_op = dt_receive E, receive_deferred_op = dt_receive_deferred E,
      finish_input_batch_op = dt_finish_input_batch E, tick_op = dt_tick E, send_op = dt_send E,
      close_op = dt_close E, poll_event_op = dt_poll_event, next_deadline_op = dt_next_deadline E,
      set_send_buffer_cap_op = dt_set_send_buffer_cap, is_open_op = dt_opened,
      is_finished_op = dt_finished, dropped_datagrams_op = dt_dropped_datagrams,
      buffered_bytes_op = dt_buffered_bytes E, handshake_trace_op = dt_trace,
      cipher_suite_op = (\<lambda>t. (dt_negotiated_cipher_suite E t, t)),
      offer_sdp_op = dt_offer_sdp E, set_remote_op = dt_set_remote,
      apply_answer_op = (\<lambda>sdp t. Some (Inr (), dt_apply_remote_answer_sdp sdp t)),
      set_credentials_op = (\<lambda>u p t. snd (dt_set_remote_ice_credentials E u p t)), queue_op = dt_events\<rparr>"

lemma direct_api_simps [simp]:
  "new_op (direct_api E) c l n = Some (dt_new E c l n)"
  "receive_op (direct_api E) = dt_receive E" "receive_deferred_op (direct_api E) = dt_receive_deferred E"
  "finish_input_batch_op (direct_api E) = dt_finish_input_batch E" "tick_op (direct_api E) = dt_tick E"
  "send_op (direct_api E) = dt_send E" "close_op (direct_api E) = dt_close E"
  "poll_event_op (direct_api E) = dt_poll_event" "next_deadline_op (direct_api E) = dt_next_deadline E"
  "set_send_buffer_cap_op (direct_api E) = dt_set_send_buffer_cap" "is_open_op (direct_api E) = dt_opened"
  "is_finished_op (direct_api E) = dt_finished" "queue_op (direct_api E) = dt_events"
  "dropped_datagrams_op (direct_api E) = dt_dropped_datagrams" "handshake_trace_op (direct_api E) = dt_trace"
  "set_remote_op (direct_api E) = dt_set_remote" "apply_answer_op (direct_api E) sdp t = Some (Inr (), dt_apply_remote_answer_sdp sdp t)"
  "set_credentials_op (direct_api E) u p t = snd (dt_set_remote_ice_credentials E u p t)"
  by (simp_all add: direct_api_def)

lemma tview_direct: "tview (direct_api E) t = dt_view t"
  by (simp add: tview_def dt_view_def)

lemma evolves_tview: "evolves t u \<Longrightarrow> advances (tview (direct_api E) t) (tview (direct_api E) u)"
  by (simp add: tview_direct evolves_def)

lemma dt_send_Accepted:
  assumes "dt_send E d t = Some (Accepted, u)"
  shows "\<not> dt_finished t" "dt_opened t" "length d \<le> MAX_MESSAGE_SIZE"
  using assms by (auto simp: dt_send_def split: if_splits)

lemma dt_view_close:
  "dt_view (dt_close E t) = (if dt_finished t then dt_view t else (dt_events t @ [Closed Local], dt_opened t, True))"
  by (simp add: dt_close_def dt_finish_def push_event_def dt_view_def)

lemma dt_view_next_deadline: "dt_view (snd (dt_next_deadline E t)) = dt_view t"
  by (simp add: dt_next_deadline_def dt_view_def Let_def split: prod.splits)

lemma dt_set_credentials_ice: "\<exists>i. snd (dt_set_remote_ice_credentials E u p t) = t\<lparr>dt_ice := i\<rparr>"
  by (auto simp: dt_set_remote_ice_credentials_def split: prod.splits sum.splits)

interpretation direct: tunnel_backend "direct_api E" for E
proof unfold_locales
  fix t t' :: "('a, 'c, 'd, 'e, 'f) direct_tunnel" and n d r e c a u p sdp r'
  show "receive_op (direct_api E) n d t = Some t' \<Longrightarrow> advances (tview (direct_api E) t) (tview (direct_api E) t')"
    by (simp add: evolves_tview evolves_receive)
  show "receive_deferred_op (direct_api E) n d t = Some t' \<Longrightarrow> advances (tview (direct_api E) t) (tview (direct_api E) t')"
    by (simp add: evolves_tview evolves_receive_deferred)
  show "finish_input_batch_op (direct_api E) t = Some t' \<Longrightarrow> advances (tview (direct_api E) t) (tview (direct_api E) t')"
    by (simp add: evolves_tview evolves_finish_input_batch)
  show "tick_op (direct_api E) n t = Some t' \<Longrightarrow> advances (tview (direct_api E) t) (tview (direct_api E) t')"
    by (simp add: evolves_tview evolves_tick)
  show "send_op (direct_api E) d t = Some (r, t') \<Longrightarrow> advances (tview (direct_api E) t) (tview (direct_api E) t')"
    using evolves_tview [OF evolves_send, of E d t r t' E] by simp
  show "tview (direct_api E) (close_op (direct_api E) t) =
      (if is_finished_op (direct_api E) t then tview (direct_api E) t
       else (queue_op (direct_api E) t @ [Closed Local], is_open_op (direct_api E) t, True))"
    by (simp add: tview_direct dt_view_close)
  show "poll_event_op (direct_api E) t = (e, t') \<Longrightarrow>
      pop_front (queue_op (direct_api E) t) = (e, queue_op (direct_api E) t')
      \<and> is_open_op (direct_api E) t' = is_open_op (direct_api E) t
      \<and> is_finished_op (direct_api E) t' = is_finished_op (direct_api E) t"
    by (auto simp: dt_poll_event_def split: prod.splits)
  show "tview (direct_api E) (snd (next_deadline_op (direct_api E) t)) = tview (direct_api E) t"
    by (simp add: tview_direct dt_view_next_deadline)
  show "tview (direct_api E) (set_send_buffer_cap_op (direct_api E) c t) = tview (direct_api E) t"
    by (simp add: tview_direct dt_view_def dt_set_send_buffer_cap_def)
  show "tview (direct_api E) (snd (cipher_suite_op (direct_api E) t)) = tview (direct_api E) t"
    by (simp add: direct_api_def)
  show "tview (direct_api E) (set_remote_op (direct_api E) a t) = tview (direct_api E) t"
    by (simp add: tview_direct dt_view_def dt_set_remote_def)
  show "tview (direct_api E) (set_credentials_op (direct_api E) u p t) = tview (direct_api E) t"
    using dt_set_credentials_ice [of E u p t] by (auto simp: tview_direct dt_view_def)
  show "apply_answer_op (direct_api E) sdp t = Some (r', t') \<Longrightarrow> advances (tview (direct_api E) t) (tview (direct_api E) t')"
    by (auto simp: tview_direct dt_view_def dt_apply_remote_answer_sdp_def split: option.splits)
  show "is_finished_op (direct_api E) t \<Longrightarrow>
      receive_op (direct_api E) n d t = Some t \<and> receive_deferred_op (direct_api E) n d t = Some t
      \<and> finish_input_batch_op (direct_api E) t = Some t \<and> tick_op (direct_api E) n t = Some t
      \<and> send_op (direct_api E) d t = Some (NotOpen, t) \<and> close_op (direct_api E) t = t
      \<and> next_deadline_op (direct_api E) t = (None, t)"
    by (simp add: dt_receive_def dt_receive_deferred_def dt_finish_input_batch_def dt_tick_def dt_send_def
        dt_close_def dt_next_deadline_def)
  show "send_op (direct_api E) d t = Some (Accepted, t') \<Longrightarrow>
      \<not> is_finished_op (direct_api E) t \<and> is_open_op (direct_api E) t' \<and> length d \<le> MAX_MESSAGE_SIZE"
    using dt_send_Accepted [of E d t t'] evolves_send [of E d t Accepted t']
    by (auto simp: evolves_def dt_view_def advances.simps)
qed

section \<open>Every method returns\<close>

lemma drain_ice_events_total: "drains (ice_poll_event E) \<Longrightarrow> \<exists>u. drain_ice_events E t = Some u"
  unfolding drain_ice_events_def
  by (erule drainsE, rule_tac m = "\<lambda>t. m (dt_ice t)" in while_let_total [where I = "\<lambda>_. True"])
    (auto simp: Let_def split: prod.splits option.splits ice_event.splits if_splits)

lemma drain_ice_writes_total: "drains (ice_poll_write E) \<Longrightarrow> \<exists>u. drain_ice_writes E t = Some u"
  unfolding drain_ice_writes_def
  by (erule drainsE, rule_tac m = "\<lambda>t. m (dt_ice t)" in while_let_total [where I = "\<lambda>_. True"])
    (auto simp: push_event_def split: prod.splits option.splits)

lemma drain_dtls_transmits_total: "drains (dtls_poll_transmit E) \<Longrightarrow> \<exists>u. drain_dtls_transmits E t = Some u"
  unfolding drain_dtls_transmits_def
  by (erule drainsE, rule_tac m = "\<lambda>t. m (dt_dtls t)" in while_let_total [where I = "\<lambda>_. True"])
    (auto simp: push_event_def split: prod.splits option.splits)

lemma poll_association_total: "drains (assoc_poll E) \<Longrightarrow> \<exists>r. poll_association E sid a = Some r"
  unfolding poll_association_def
  by (erule drainsE, rule_tac m = "\<lambda>(_, _, _, a). m a" in while_let_total [where I = "\<lambda>_. True"])
    (auto split: prod.splits option.splits sctp_event.splits)

lemma poll_endpoint_events_total:
  "drains (assoc_poll_endpoint_event E) \<Longrightarrow> \<exists>r. poll_endpoint_events E h s a = Some r"
  unfolding poll_endpoint_events_def
  by (erule drainsE, rule_tac m = "\<lambda>(_, a). m a" in while_let_total [where I = "\<lambda>_. True"])
    (auto split: prod.splits option.splits)

lemma read_chunks_total: "drains (read_some (stream_read E sid)) \<Longrightarrow> \<exists>r. read_chunks E sid evs a = Some r"
  unfolding read_chunks_def
  by (erule drainsE, rule_tac m = "\<lambda>(_, a). m a" in while_let_total [where I = "\<lambda>_. True"])
    (auto simp: read_some_def split: prod.splits option.splits sum.splits)

lemma transmit_loop_total:
  "drains (assoc_poll_transmit E now) \<Longrightarrow> \<exists>r. transmit_loop E b now remote d a = Some r"
  unfolding transmit_loop_def
  by (erule drainsE, rule_tac m = "\<lambda>(_, a). m a" in while_let_total [where I = "\<lambda>_. True"])
    (auto split: prod.splits option.splits payload.splits sum.splits if_splits)

lemma stack_drainsD:
  assumes "stack_drains E"
  shows "drains (ice_poll_event E)" "drains (ice_poll_write E)" "drains (dtls_poll_transmit E)"
    "drains (assoc_poll E)" "drains (assoc_poll_endpoint_event E)" "drains (assoc_poll_transmit E now)"
    "drains (read_some (stream_read E sid))"
  using assms by (auto simp: stack_drains_def)

lemma read_stream_total: "stack_drains E \<Longrightarrow> \<exists>r u. read_stream E t = Some (r, u)"
  using read_chunks_total [OF stack_drainsD(7), of E "dt_stream_id t" "dt_events t" "the (dt_association t)"]
  by (cases "dt_association t") (auto simp: read_stream_def)

lemma drain_sctp_total:
  assumes "stack_drains E"
  shows "\<exists>r u. drain_sctp E t = Some (r, u)"
proof -
  have "\<exists>readable connected lost v. poll_sctp E t = Some (readable, connected, lost, v)"
  proof (cases "dt_association t")
    case (Some a)
    obtain rd c l b where "poll_association E (dt_stream_id t) a = Some (rd, c, l, b)"
      using poll_association_total [OF stack_drainsD(4) [OF assms]] by (metis prod_cases4)
    moreover obtain s b' where "poll_endpoint_events E (dt_association_handle t) (dt_sctp t) b = Some (s, b')"
      using poll_endpoint_events_total [OF stack_drainsD(5) [OF assms]] by (metis surj_pair)
    ultimately show ?thesis using Some by (simp add: poll_sctp_def)
  qed (auto simp: poll_sctp_def)
  then show ?thesis using read_stream_total [OF assms] by (fastforce simp: drain_sctp_def Let_def)
qed

lemma drain_sctp_transmits_total: "stack_drains E \<Longrightarrow> \<exists>r u. drain_sctp_transmits E t = Some (r, u)"
  using transmit_loop_total [OF stack_drainsD(6), where E = E and now = "dt_last_now t" and b = "dt_dtls_started t"
      and remote = "dt_remote_addr t" and d = "dt_dtls t" and a = "the (dt_association t)"]
  by (cases "dt_association t") (auto simp: drain_sctp_transmits_def)

lemma try_then_total: "(\<And>a s. \<exists>r. k a s = Some r) \<Longrightarrow> \<exists>r. try_then m k = Some r"
  by (cases m; cases "fst m") auto

lemma pump_started_total:
  assumes "stack_drains E"
  shows "\<exists>r. pump_started E t = Some r"
proof -
  obtain r1 t1 where 1: "drain_sctp E t = Some (r1, t1)" using drain_sctp_total [OF assms] by blast
  have tail: "\<exists>r. (drain_sctp_transmits E v \<bind> (\<lambda>s. try_then s (\<lambda>_ t. drain_dtls_transmits E t \<bind> (\<lambda>t. Some (Inr (), t))))) = Some r"
    for v :: "('a, 'c, 'd, 'e, 'f) direct_tunnel"
  proof -
    obtain r2 t2 where "drain_sctp_transmits E v = Some (r2, t2)"
      using drain_sctp_transmits_total [OF assms] by blast
    moreover obtain t3 where "drain_dtls_transmits E t2 = Some t3"
      using drain_dtls_transmits_total [OF stack_drainsD(3) [OF assms]] by blast
    ultimately show ?thesis by (cases r2) simp_all
  qed
  show ?thesis unfolding pump_started_def 1 bind.bind_lunit
    by (intro try_then_total tail)
qed

lemma pump_total:
  assumes "stack_drains E"
  shows "\<exists>r u. pump E t = Some (r, u)"
proof -
  obtain t1 where 1: "drain_ice_events E t = Some t1"
    using drain_ice_events_total [OF stack_drainsD(1) [OF assms]] by blast
  obtain t2 where 2: "drain_ice_writes E t1 = Some t2"
    using drain_ice_writes_total [OF stack_drainsD(2) [OF assms]] by blast
  let ?t3 = "if selected_pair E (dt_ice t2) \<and> \<not> dt_dtls_started t2 then start_dtls E t2 else t2"
  obtain r4 t4 where 4: "(if dt_dtls_started ?t3 then pump_started E ?t3 else Some (Inr (), ?t3)) = Some (r4, t4)"
    using pump_started_total [OF assms, of ?t3] by (cases "dt_dtls_started ?t3") auto
  show ?thesis using 1 2 4 by (cases r4) (simp_all add: pump_def Let_def)
qed

text \<open>The methods of the host interface, one by one.\<close>

lemma pump_methods_total:
  assumes "stack_drains E"
  shows "\<exists>u. dt_receive E n d t = Some u" "\<exists>u. dt_receive_deferred E n d t = Some u"
    "\<exists>u. dt_finish_input_batch E t = Some u"
  using pump_total [OF assms]
  by (fastforce simp: dt_receive_def dt_receive_deferred_def dt_finish_input_batch_def Let_def)+

lemma tick_total: "stack_drains E \<Longrightarrow> \<exists>u. dt_tick E n t = Some u"
  using pump_total [of E "run_timeouts E (dt_epoch t + millis n) (t\<lparr>dt_last_now := dt_epoch t + millis n\<rparr>)"]
  by (cases "dt_finished t") (auto simp: dt_tick_def Let_def)

lemma flush_message_total:
  assumes "stack_drains E"
  shows "\<exists>u. flush_message E t = Some u"
proof -
  obtain r1 t1 where "drain_channel E t = (r1, t1)" by (cases "drain_channel E t")
  moreover obtain r2 t2 where "drain_sctp_transmits E t1 = Some (r2, t2)"
    using drain_sctp_transmits_total [OF assms] by blast
  moreover obtain t3 where "drain_dtls_transmits E t2 = Some t3"
    using drain_dtls_transmits_total [OF stack_drainsD(3) [OF assms]] by blast
  ultimately show ?thesis by (simp add: flush_message_def)
qed

lemma send_total: "stack_drains E \<Longrightarrow> \<exists>r u. dt_send E d t = Some (r, u)"
  using flush_message_total [of E]
  by (simp add: dt_send_def Let_def split: option.splits prod.splits) (metis bind.bind_lunit)

section \<open>Time\<close>

text \<open>The fields construction fixes: the host's clock origin and the handshake deadline.\<close>

lemma build_time:
  assumes "dt_build E r config la n = Inr t"
  shows "dt_handshake_deadline t = dt_epoch t + millis (n + cfg_handshake_timeout_ms config)"
    "dt_max_retransmits t = or_default 0 (cfg_max_retransmits config)" "dt_role t = r"
    "dt_stream_id t = cfg_stream_id config" "dt_trace t = trace_new n"
proof -
  from assms obtain ice u v where p: "prepare_dtls E (initial_tunnel E r config la n ice) = Inr u"
    and c: "add_candidates E config u = Inr v" and t: "\<exists>i. t = v\<lparr>dt_ice := i\<rparr>"
    by (auto simp: dt_build_def split: sum.splits prod.splits)
  let ?i = "initial_tunnel E r config la n ice"
  let ?f = "\<lambda>t. (dt_handshake_deadline t, dt_epoch t, dt_max_retransmits t, dt_role t, dt_stream_id t, dt_trace t)"
  have "?f u = ?f ?i"
    using p unfolding prepare_dtls_def Let_def
    by (cases "dt_role ?i = Offerer") (auto split: sum.splits)
  moreover have "?f v = ?f u"
    using c by (auto simp: add_candidates_def split: sum.splits prod.splits)
  moreover have "?f t = ?f v" using t by auto
  ultimately show "dt_handshake_deadline t = dt_epoch t + millis (n + cfg_handshake_timeout_ms config)"
    "dt_max_retransmits t = or_default 0 (cfg_max_retransmits config)" "dt_role t = r"
    "dt_stream_id t = cfg_stream_id config" "dt_trace t = trace_new n"
    by (simp_all add: initial_tunnel_def Let_def millis_def)
qed

lemma start_checks_ice: "start_checks E t = Inr u \<Longrightarrow> \<exists>i. u = t\<lparr>dt_ice := i\<rparr>"
  by (auto simp: start_checks_def Let_def split: sum.splits prod.splits)

lemma new_build:
  assumes "dt_new E config la n = Inr t"
  shows "\<exists>u i. dt_build E Offerer config la n = Inr u \<and> t = u\<lparr>dt_ice := i\<rparr> \<and> check_config config la = None"
  using assms start_checks_ice by (fastforce simp: dt_new_def dt_offerer_def split: option.splits sum.splits)

lemma ms_since_millis: "n < 2 ^ 64 \<Longrightarrow> ms_since e (e + millis n) = n"
  by (simp add: ms_since_def millis_def)

lemma millis_le [simp]: "millis a \<le> millis b \<longleftrightarrow> a \<le> b"
  by (simp add: millis_def)

lemma ms_since_mono:
  assumes "a \<le> e + millis n" "n < 2 ^ 64"
  shows "ms_since e a \<le> n"
proof -
  have "(a - e) div 1000000 \<le> millis n div 1000000" using assms(1) by (intro div_le_mono) auto
  then have "(a - e) div 1000000 \<le> n" by (simp add: millis_def)
  then show ?thesis using assms(2) by (simp add: ms_since_def)
qed

lemma min_opt_le: "min_opt (Some b) x = Some m \<Longrightarrow> m \<le> b"
  by (auto simp: min_opt_def split: option.splits)

lemma min_opt_Some: "\<exists>m. min_opt (Some b) x = Some m \<and> m \<le> b"
  by (auto simp: min_opt_def split: option.splits)

text \<open>While the channel is not open the host is always told to come back by the end of the
  handshake budget.\<close>

lemma next_deadline_budget:
  assumes "dt_handshake_deadline t = dt_epoch t + millis D" "D < 2 ^ 64" "\<not> dt_finished t" "\<not> dt_opened t"
  shows "\<exists>d. fst (dt_next_deadline E t) = Some d \<and> d \<le> D"
proof -
  obtain ti i where i: "ice_poll_timeout E (dt_ice t) = (ti, i)" by (cases "ice_poll_timeout E (dt_ice t)")
  obtain td d where d: "(if dt_dtls_started t then dtls_poll_timeout E (dt_remote_addr t) (dt_dtls t)
      else (None, dt_dtls t)) = (td, d)" by (metis surj_pair)
  obtain b1 where b1: "min_opt (Some (dt_handshake_deadline t)) ti = Some b1" "b1 \<le> dt_handshake_deadline t"
    using min_opt_Some by blast
  obtain b2 where b2: "min_opt (Some b1) td = Some b2" "b2 \<le> b1" using min_opt_Some by blast
  let ?x = "Option.bind (dt_association t) (assoc_poll_timeout E)"
  obtain b3 where b3: "min_opt (Some b2) ?x = Some b3" "b3 \<le> b2" using min_opt_Some by blast
  have "fst (dt_next_deadline E t) = Some (dt_ms t b3)"
    using assms(3,4) i d b1(1) b2(1) b3(1)
    by (cases "dt_dtls_started t") (simp_all add: dt_next_deadline_def Let_def)
  moreover have "dt_ms t b3 \<le> D"
    using b1(2) b2(2) b3(2) assms(1,2) by (intro ms_since_mono) auto
  ultimately show ?thesis by blast
qed

lemma pump_deadline: "pump E t = Some (r, u) \<Longrightarrow> dt_handshake_deadline u = dt_handshake_deadline t \<and> dt_epoch u = dt_epoch t"
  using evolvesD(2) [OF evolves_pump] by (fastforce simp: dt_fixed_def)

lemma tick_deadline:
  assumes "dt_handshake_deadline t = dt_epoch t + millis D" "dt_tick E n t = Some u" "D \<le> n"
  shows "dt_opened u \<or> dt_finished u"
proof (cases "dt_finished t")
  case False
  let ?v = "run_timeouts E (dt_epoch t + millis n) (t\<lparr>dt_last_now := dt_epoch t + millis n\<rparr>)"
  from False assms(2) obtain r w where p: "pump E ?v = Some (r, w)"
    and u: "u = (if \<not> dt_opened w \<and> dt_handshake_deadline w \<le> dt_epoch t + millis n then dt_finish Timeout w else w)"
    by (auto simp: dt_tick_def Let_def bind_eq_Some_conv)
  have "dt_fixed w = dt_fixed t"
    using evolvesD(2) [OF evolves_trans [OF evolves_at(2) evolves_pump [OF p]]] .
  then have "dt_handshake_deadline w = dt_epoch t + millis D" using assms(1) by (simp add: dt_fixed_def)
  with u assms(3) show ?thesis by (auto simp: dt_finish_def push_event_def)
qed (use assms in \<open>simp add: dt_tick_def\<close>)

end
