(* ===== verification/Scripted.thy ===== *)
theory Scripted
  imports Direct_Props
begin

text \<open>
  A concrete, executable instance of the engine parameters: a scripted peer with list queues
  in place of the protocol crates. A binding request of the peer (first byte 0) is answered, a
  binding response (first byte 1) selects the pair, a record of content type 22 completes the
  DTLS handshake, one of type 23 carries an SCTP packet whose first byte says what it does.
  The concrete sessions of the development run on it.
\<close>

record ice_script =
  is_selected :: bool
  is_events :: "(instant \<times> ice_event) list"
  is_writes :: "byte list list"
  is_local :: "rstr \<times> rstr"
  is_remote :: "(rstr \<times> rstr) option"
  is_candidates :: "host_config list"

record assoc_script =
  as_events :: "sctp_event list"
  as_in :: "(ppid \<times> byte list) list"
  as_out :: "byte list list"
  as_streams :: "u16 list"

definition script_ice_read :: "instant \<Rightarrow> byte list \<Rightarrow> ice_script \<Rightarrow> (rstr + unit) \<times> ice_script" where
  "script_ice_read now d i = (case d of
       [] \<Rightarrow> (Inl ''empty'', i)
     | b # _ \<Rightarrow>
         if b = 0 then (Inr (), i\<lparr>is_writes := is_writes i @ [[1]]\<rparr>)
         else if b = 1 then (Inr (), i\<lparr>is_selected := True,
           is_events := is_events i @ [(now, ConnectionStateChange IceConnected)]\<rparr>)
         else (Inl ''unexpected message'', i))"

definition script_dtls_read :: "byte list \<Rightarrow> rstr + endpoint_event list" where
  "script_dtls_read d = (case d of
       [] \<Rightarrow> Inl ''empty''
     | b # rest \<Rightarrow> if b = 22 then Inr [HandshakeComplete] else if b = 23 then Inr [ApplicationData rest]
         else Inl ''bad record'')"

text \<open>SCTP packets: 0 starts an association, 2 confirms it, 3 carries a message, 4 an empty
  message, 5 aborts.\<close>

definition assoc_fresh :: assoc_script where
  "assoc_fresh = \<lparr>as_events = [], as_in = [], as_out = [[0]], as_streams = []\<rparr>"

definition script_assoc_event :: "byte list \<Rightarrow> assoc_script \<Rightarrow> assoc_script" where
  "script_assoc_event d a = (case d of
       [] \<Rightarrow> a
     | b # rest \<Rightarrow>
         if b = 2 then a\<lparr>as_events := as_events a @ [SctpConnected]\<rparr>
         else if b = 3 then a\<lparr>as_events := as_events a @ [StreamReadable 0], as_in := as_in a @ [(PpidBinary, rest)]\<rparr>
         else if b = 4 then a\<lparr>as_events := as_events a @ [StreamReadable 0], as_in := as_in a @ [(PpidBinaryEmpty, rest)]\<rparr>
         else if b = 5 then a\<lparr>as_events := as_events a @ [AssociationLost]\<rparr>
         else a)"

definition script_poll :: "('s \<Rightarrow> 'x list) \<Rightarrow> ('x list \<Rightarrow> 's \<Rightarrow> 's) \<Rightarrow> 's \<Rightarrow> 'x option \<times> 's" where
  "script_poll get put s = (case get s of [] \<Rightarrow> (None, s) | x # xs \<Rightarrow> (Some x, put xs s))"

definition script_write :: "u16 \<Rightarrow> byte list \<Rightarrow> ppid \<Rightarrow> assoc_script \<Rightarrow> (rstr + unit) \<times> assoc_script" where
  "script_write sid payload ppi a = (if sid \<notin> set (as_streams a) then (Inl ''no stream'', a)
     else (Inr (), a\<lparr>as_out := as_out a @ [(if ppi = PpidBinary then 3 else 4) # payload]\<rparr>))"

definition script_sha256 :: "byte list \<Rightarrow> byte list" where
  "script_sha256 der = [sum_list der, of_nat (length der)]"

definition scripted :: "(ice_script, host_config, byte list, byte list list, unit, assoc_script, byte list) stack" where
  "scripted = \<lparr>
     instant_now = millis 5000, instant_now_again = millis 5000, usize_max = 2 ^ 32 - 1,
     on_wasm32 = True, default_provider = Inr (), sha256 = (\<lambda>der. Inr (script_sha256 der)),
     generate_ufrag = ''lufr'', generate_pwd = ''lpwd'',
     agent_new = (\<lambda>now c. Inr \<lparr>is_selected = False, is_events = [], is_writes = [],
       is_local = (ac_local_ufrag c, ac_local_pwd c), is_remote = None, is_candidates = []\<rparr>),
     new_candidate_host = Inr,
     candidate_marshal = (\<lambda>c. host_candidate ''1'' ''udp'' ''2130706431'' (hc_address c) (show_dec (unat (hc_port c)))),
     add_local_candidate = (\<lambda>c i. (Inr (), i\<lparr>is_candidates := is_candidates i @ [c]\<rparr>)),
     add_remote_candidate = (\<lambda>c i. (Inr (), i)), get_local_candidates = is_candidates,
     get_local_credentials = is_local,
     set_remote_credentials = (\<lambda>u p i. (Inr (), i\<lparr>is_remote := Some (u, p)\<rparr>)),
     get_remote_credentials = is_remote,
     start_connectivity_checks = (\<lambda>now c u p i. (Inr (), i\<lparr>is_writes := is_writes i @ [[0]]\<rparr>)),
     selected_pair = is_selected,
     ice_handle_read = (\<lambda>now l r d i. script_ice_read now d i), ice_handle_timeout = (\<lambda>now i. i),
     ice_poll_event = script_poll is_events (\<lambda>xs i. i\<lparr>is_events := xs\<rparr>),
     ice_poll_write = script_poll is_writes (\<lambda>xs i. i\<lparr>is_writes := xs\<rparr>),
     ice_poll_timeout = (\<lambda>i. (Some (millis 5200), i)), ice_close = (\<lambda>i. i\<lparr>is_selected := False\<rparr>),
     generate_self_signed = Inr [48, 130, 1], certificate_chain = (\<lambda>k. [k]),
     dtls_config_build = (\<lambda>c. Inr ()), dtls_endpoint_new = [], set_server_config = (\<lambda>c d. d),
     dtls_connect = (\<lambda>now r c d. (Inr (), d @ [[22]])),
     dtls_read = (\<lambda>now r m d. (script_dtls_read m, d)),
     dtls_write = (\<lambda>now r m d. (Inr (), d @ [23 # m])), dtls_handle_timeout = (\<lambda>r now d. d),
     dtls_poll_transmit = pop_front, dtls_poll_timeout = (\<lambda>r d. (None, d)),
     connection_cipher_suite = (\<lambda>r d. Some (Some ''TLS_ECDHE_ECDSA_WITH_CHACHA20_POLY1305_SHA256'')),
     sctp_endpoint_new = (\<lambda>c. ()), sctp_connect = (\<lambda>now c r s. (Inr (0, assoc_fresh), s)),
     sctp_handle = (\<lambda>now r d s. (if hd (d @ [255]) = 0 then Some (0, NewAssociation assoc_fresh)
       else Some (0, AssociationEvent d), s)),
     sctp_handle_event = (\<lambda>h e s. s), assoc_handle_event = script_assoc_event,
     assoc_poll = script_poll as_events (\<lambda>xs a. a\<lparr>as_events := xs\<rparr>),
     assoc_poll_endpoint_event = (\<lambda>a. (None, a)),
     assoc_poll_transmit = (\<lambda>now. script_poll (map (\<lambda>m. RawEncode [m]) \<circ> as_out) (\<lambda>xs a. a\<lparr>as_out := tl (as_out a)\<rparr>)),
     assoc_handle_timeout = (\<lambda>now a. a), assoc_poll_timeout = (\<lambda>a. None),
     assoc_open_stream = (\<lambda>sid p a. (Inr (), a\<lparr>as_streams := sid # as_streams a\<rparr>)),
     assoc_stream = (\<lambda>sid a. sid \<in> set (as_streams a)),
     stream_set_reliability = (\<lambda>sid u r v a. (Inr (), a)),
     stream_buffered_amount = (\<lambda>sid a. Inr (sum_list (map length (as_out a)))),
     stream_is_writable = (\<lambda>sid a. True), stream_write = script_write,
     stream_read = (\<lambda>sid a. case as_in a of [] \<Rightarrow> (Inr None, a) | x # xs \<Rightarrow> (Inr (Some x), a\<lparr>as_in := xs\<rparr>)),
     chunks_to_payload = (\<lambda>d n. Inr d) \<rparr>"

lemma scripted_simps [simp]:
  "instant_now scripted = (millis 5000)"
  "instant_now_again scripted = (millis 5000)"
  "usize_max scripted = (2 ^ 32 - 1)"
  "on_wasm32 scripted = True"
  "default_provider scripted = (Inr ())"
  "sha256 scripted = (\<lambda>der. Inr (script_sha256 der))"
  "generate_ufrag scripted = ''lufr''"
  "generate_pwd scripted = ''lpwd''"
  "agent_new scripted = (\<lambda>now c. Inr \<lparr>is_selected = False, is_events = [], is_writes = [], is_local = (ac_local_ufrag c, ac_local_pwd c), is_remote = None, is_candidates = []\<rparr>)"
  "new_candidate_host scripted = Inr"
  "candidate_marshal scripted = (\<lambda>c. host_candidate ''1'' ''udp'' ''2130706431'' (hc_address c) (show_dec (unat (hc_port c))))"
  "add_local_candidate scripted = (\<lambda>c i. (Inr (), i\<lparr>is_candidates := is_candidates i @ [c]\<rparr>))"
  "add_remote_candidate scripted = (\<lambda>c i. (Inr (), i))"
  "get_local_candidates scripted = is_candidates"
  "get_local_credentials scripted = is_local"
  "set_remote_credentials scripted = (\<lambda>u p i. (Inr (), i\<lparr>is_remote := Some (u, p)\<rparr>))"
  "get_remote_credentials scripted = is_remote"
  "start_connectivity_checks scripted = (\<lambda>now c u p i. (Inr (), i\<lparr>is_writes := is_writes i @ [[0]]\<rparr>))"
  "selected_pair scripted = is_selected"
  "ice_handle_read scripted = (\<lambda>now l r d i. script_ice_read now d i)"
  "ice_handle_timeout scripted = (\<lambda>now i. i)"
  "ice_poll_event scripted = (script_poll is_events (\<lambda>xs i. i\<lparr>is_events := xs\<rparr>))"
  "ice_poll_write scripted = (script_poll is_writes (\<lambda>xs i. i\<lparr>is_writes := xs\<rparr>))"
  "ice_poll_timeout scripted = (\<lambda>i. (Some (millis 5200), i))"
  "ice_close scripted = (\<lambda>i. i\<lparr>is_selected := False\<rparr>)"
  "generate_self_signed scripted = (Inr [48, 130, 1])"
  "certificate_chain scripted = (\<lambda>k. [k])"
  "dtls_config_build scripted = (\<lambda>c. Inr ())"
  "dtls_endpoint_new scripted = []"
  "set_server_config scripted = (\<lambda>c d. d)"
  "dtls_connect scripted = (\<lambda>now r c d. (Inr (), d @ [[22]]))"
  "dtls_read scripted = (\<lambda>now r m d. (script_dtls_read m, d))"
  "dtls_write scripted = (\<lambda>now r m d. (Inr (), d @ [23 # m]))"
  "dtls_handle_timeout scripted = (\<lambda>r now d. d)"
  "dtls_poll_transmit scripted = pop_front"
  "dtls_poll_timeout scripted = (\<lambda>r d. (None, d))"
  "connection_cipher_suite scripted = (\<lambda>r d. Some (Some ''TLS_ECDHE_ECDSA_WITH_CHACHA20_POLY1305_SHA256''))"
  "sctp_endpoint_new scripted = (\<lambda>c. ())"
  "sctp_connect scripted = (\<lambda>now c r s. (Inr (0, assoc_fresh), s))"
  "sctp_handle scripted = (\<lambda>now r d s. (if hd (d @ [255]) = 0 then Some (0, NewAssociation assoc_fresh) else Some (0, AssociationEvent d), s))"
  "sctp_handle_event scripted = (\<lambda>h e s. s)"
  "assoc_handle_event scripted = script_assoc_event"
  "assoc_poll scripted = (script_poll as_events (\<lambda>xs a. a\<lparr>as_events := xs\<rparr>))"
  "assoc_poll_endpoint_event scripted = (\<lambda>a. (None, a))"
  "assoc_poll_transmit scripted = (\<lambda>now. script_poll (map (\<lambda>m. RawEncode [m]) \<circ> as_out) (\<lambda>xs a. a\<lparr>as_out := tl (as_out a)\<rparr>))"
  "assoc_handle_timeout scripted = (\<lambda>now a. a)"
  "assoc_poll_timeout scripted = (\<lambda>a. None)"
  "assoc_open_stream scripted = (\<lambda>sid p a. (Inr (), a\<lparr>as_streams := sid # as_streams a\<rparr>))"
  "assoc_stream scripted = (\<lambda>sid a. sid \<in> set (as_streams a))"
  "stream_set_reliability scripted = (\<lambda>sid u r v a. (Inr (), a))"
  "stream_buffered_amount scripted = (\<lambda>sid a. Inr (sum_list (map length (as_out a))))"
  "stream_is_writable scripted = (\<lambda>sid a. True)"
  "stream_write scripted = script_write"
  "stream_read scripted = (\<lambda>sid a. case as_in a of [] \<Rightarrow> (Inr None, a) | x # xs \<Rightarrow> (Inr (Some x), a\<lparr>as_in := xs\<rparr>))"
  "chunks_to_payload scripted = (\<lambda>d n. Inr d)"
  by (simp_all add: scripted_def)

lemma drains_script_poll:
  "(\<And>s x xs. get s = x # xs \<Longrightarrow> length (get (put xs s)) = length xs) \<Longrightarrow> drains (script_poll get put)"
  unfolding drains_def by (rule exI [of _ "\<lambda>s. length (get s)"]) (auto simp: script_poll_def split: list.splits)

lemma drains_never: "drains (\<lambda>a. (None, a))"
  by (simp add: drains_def)

lemma scripted_drains: "stack_drains scripted"
proof -
  have "drains (read_some (stream_read scripted sid))" for sid
    unfolding drains_def scripted_def
    by (rule exI [of _ "\<lambda>a. length (as_in a)"]) (auto simp: read_some_def split: list.splits)
  then show ?thesis
    unfolding stack_drains_def scripted_def
    by (auto intro!: drains_script_poll drains_never drains_pop_front)
qed

definition script_config :: tunnel_config where
  "script_config = tunnel_config_new (SockV4 (192, 0, 2, 1) 3478) ''ufrg'' ''pass'' ''ab:cd''"

definition script_addr :: socket_addr where
  "script_addr = SockV4 (192, 0, 2, 9) 40000"

lemmas direct_eval =
  dt_new_def check_config_def dt_offerer_def dt_build_def prepare_dtls_def fingerprint_of_def
  dtls_config_of_def agent_config_of_def initial_tunnel_def epoch_of_def instant_checked_sub_def
  add_candidates_def host_candidate_of_def start_checks_def tunnel_config_new_def is_unspecified_def
  preferred_cipher_suites_def
  dt_receive_def dt_receive_deferred_def dt_finish_input_batch_def dt_tick_def dt_send_def run_timeouts_def
  ingest_def is_stun_def is_dtls_def DTLS_FIRST_BYTE_MIN_def DTLS_FIRST_BYTE_MAX_def
  pump_def pump_started_def drain_ice_events_def drain_ice_writes_def start_dtls_def activate_dtls_def
  start_sctp_def feed_sctp_def feed_dtls_def drain_sctp_def poll_sctp_def poll_association_def
  poll_endpoint_events_def note_sctp_def read_stream_def read_chunks_def chunk_event_def
  drain_channel_def open_stream_def drain_sctp_transmits_def transmit_loop_def drain_dtls_transmits_def
  dt_maybe_open_def dt_finish_def push_event_def encode_message_def flush_message_def dt_poll_event_def
  ms_since_def millis_def trace_new_def observe_defs while_let.simps Let_def

lemmas script_eval =
  script_poll_def script_ice_read_def script_dtls_read_def script_assoc_event_def assoc_fresh_def
  script_write_def script_sha256_def script_config_def script_addr_def

section \<open>A session\<close>

type_synonym script_tunnel = "(ice_script, byte list, byte list list, unit, assoc_script) direct_tunnel"

primrec feed ::
  "(ice_script, host_config, byte list, byte list list, unit, assoc_script, byte list) stack \<Rightarrow> nat \<Rightarrow> byte list list \<Rightarrow> script_tunnel \<Rightarrow> script_tunnel option" where
  "feed E n [] t = Some t"
| "feed E n (d # ds) t = Option.bind (dt_receive E n d t) (feed E n ds)"

text \<open>The tunnel \<open>new\<close> returns, and the same tunnel after a binding response, the peer's DTLS
  flight and its SCTP confirmation: open, with its first datagrams and \<open>Opened\<close> queued.\<close>

definition script_ice0 :: ice_script where
  "script_ice0 = \<lparr>is_selected = False, is_events = [], is_writes = [[0]], is_local = (''lufr'', ''lpwd''),
     is_remote = Some (''ufrg'', ''pass''),
     is_candidates = [\<lparr>hc_address = show_ip (IpV4 (192, 0, 2, 9)), hc_port = 40000, hc_component = 1\<rparr>]\<rparr>"

definition script_t0 :: script_tunnel where
  "script_t0 = (let t = (initial_tunnel scripted Offerer script_config script_addr 5000 script_ice0)
        \<lparr>dt_local_fingerprint := fingerprint_hex [179, 3]\<rparr>
      in t\<lparr>dt_dtls_config := Some (dtls_config_of scripted [48, 130, 1] t)\<rparr>)"

definition script_assoc1 :: assoc_script where
  "script_assoc1 = \<lparr>as_events = [], as_in = [], as_out = [], as_streams = [0]\<rparr>"

definition script_t1 :: script_tunnel where
  "script_t1 = script_t0\<lparr>dt_ice := script_ice0\<lparr>is_selected := True, is_writes := []\<rparr>,
     dt_sctp := Some (), dt_association := Some script_assoc1, dt_association_handle := Some 0,
     dt_dtls_started := True, dt_dtls_connected := True, dt_sctp_connected := True,
     dt_channel_dialed := True, dt_opened := True, dt_last_now := millis 5100,
     dt_events := [SendDatagram [0], SendDatagram [22], SendDatagram [23, 0], Opened],
     dt_trace := \<lparr>start_ms = 5000, ice_ms = Some 5100, dtls_ms = Some 5100, sctp_ms = Some 5100,
       opened_ms = Some 5100\<rparr>\<rparr>"

lemmas script_states = script_t0_def script_t1_def script_ice0_def script_assoc1_def

lemma script_new: "dt_new scripted script_config script_addr 5000 = Inr script_t0"
  by (simp add: direct_eval script_eval script_states)

lemma script_open: "feed scripted 5100 [[1], [22], [23, 2]] script_t0 = Some script_t1"
  by (simp add: direct_eval script_eval script_states)

text \<open>A message of the peer arrives, one is sent, and the peer's abort closes the tunnel.\<close>

lemma script_message:
  "map_option dt_events (feed scripted 5200 [[23, 3, 7, 8]] script_t1) =
     Some (dt_events script_t1 @ [Message [7, 8]])"
  by (simp add: direct_eval script_eval script_states MAX_MESSAGE_SIZE_def)

lemma script_send:
  "map_option (\<lambda>(r, t). (r, dt_events t)) (dt_send scripted [9] script_t1) =
     Some (Accepted, dt_events script_t1 @ [SendDatagram [23, 3, 9]])"
  by (simp add: direct_eval script_eval script_states MAX_MESSAGE_SIZE_def DEFAULT_SEND_BUFFER_CAP_def
      saturating_add_usize_def)

lemma script_abort:
  "map_option (\<lambda>t. (dt_finished t, dt_events t)) (feed scripted 5200 [[23, 5]] script_t1) =
     Some (True, dt_events script_t1 @ [Closed Remote])"
  by (simp add: direct_eval script_eval script_states)

end
