(* ===== verification/Direct_Spec.thy ===== *)
theory Direct_Spec
  imports Scripted
begin

text \<open>
  The properties of the direct backend, each with a concrete session that meets its hypotheses.
  A session is any sequence of host calls (\<open>host_reach\<close>) on a tunnel a constructor returned,
  for any behaviour of the protocol engines.
\<close>

section \<open>Sessions\<close>

text \<open>What construction fixes for a whole session; the send buffer cap, the remote address and the
  remote fingerprint are the parameters the host may change.\<close>

definition dt_session ::
  "('i, 'k, 'd, 's, 'a) direct_tunnel \<Rightarrow> ('i, 'k, 'd, 's, 'a) direct_tunnel \<Rightarrow> bool" where
  "dt_session t0 t = (dt_inv t \<and> dt_flags_le t0 t \<and> trace_le (dt_trace t0) (dt_trace t)
     \<and> (dt_role t, dt_local_addr t, dt_sctp_port t, dt_stream_id t) =
       (dt_role t0, dt_local_addr t0, dt_sctp_port t0, dt_stream_id t0)
     \<and> (dt_ordered t, dt_max_retransmits t, dt_dtls_config t) =
       (dt_ordered t0, dt_max_retransmits t0, dt_dtls_config t0)
     \<and> (dt_epoch t, dt_handshake_deadline t) = (dt_epoch t0, dt_handshake_deadline t0))"

lemma session_refl: "dt_inv t \<Longrightarrow> dt_session t t"
  by (simp add: dt_session_def dt_flags_le_def)

lemma flags_le_trans: "dt_flags_le t u \<Longrightarrow> dt_flags_le u v \<Longrightarrow> dt_flags_le t v"
  by (auto simp: dt_flags_le_def)

lemma session_evolves:
  assumes "dt_session t0 t" "evolves t u"
  shows "dt_session t0 u"
proof -
  note e = evolvesD [OF assms(2)]
  have "dt_flags_le t0 u" "trace_le (dt_trace t0) (dt_trace u)"
    using assms(1) flags_le_trans [OF _ e(3)] trace_le_trans [OF _ e(4)] unfolding dt_session_def by blast+
  then show ?thesis using assms(1) e(2,5) unfolding dt_session_def dt_fixed_def by (simp only: prod.inject)
qed

lemma session_events: "dt_session t0 t \<Longrightarrow> dt_session t0 (t\<lparr>dt_events := q\<rparr>)"
  using dt_inv_layers [of "t\<lparr>dt_events := q\<rparr>" t] by (simp add: dt_session_def dt_flags_le_def dt_layers_def)

lemma session_cap: "dt_session t0 t \<Longrightarrow> dt_session t0 (t\<lparr>dt_send_buffer_cap := c\<rparr>)"
  using dt_inv_layers [of "t\<lparr>dt_send_buffer_cap := c\<rparr>" t] by (simp add: dt_session_def dt_flags_le_def dt_layers_def)

lemma session_remote: "dt_session t0 t \<Longrightarrow> dt_session t0 (t\<lparr>dt_remote_addr := a\<rparr>)"
  using dt_inv_layers [of "t\<lparr>dt_remote_addr := a\<rparr>" t] by (simp add: dt_session_def dt_flags_le_def dt_layers_def)

lemma session_fingerprint: "dt_session t0 t \<Longrightarrow> dt_session t0 (t\<lparr>dt_remote_fingerprint := f\<rparr>)"
  using dt_inv_layers [of "t\<lparr>dt_remote_fingerprint := f\<rparr>" t] by (simp add: dt_session_def dt_flags_le_def dt_layers_def)

lemma session_step:
  assumes "dt_session t0 t" "host_step (direct_api E) c (t, out) = Some (u, out')"
  shows "dt_session t0 u"
proof (cases c)
  case PollEvent
  then have "\<exists>q. u = t\<lparr>dt_events := q\<rparr>"
    using assms(2) by (auto simp: dt_poll_event_def split: prod.splits option.splits)
  then show ?thesis using assms(1) session_events by blast
next
  case (SetSendBufferCap n)
  then show ?thesis using assms session_cap by (auto simp: dt_set_send_buffer_cap_def)
next
  case CipherSuite
  then show ?thesis using assms by (simp add: direct_api_def)
next
  case (SetRemote a)
  then show ?thesis using assms session_remote by (auto simp: dt_set_remote_def)
next
  case (ApplyAnswer sdp)
  then show ?thesis using assms session_fingerprint
    by (auto simp: dt_apply_remote_answer_sdp_def split: option.splits)
next
  case (SetCredentials u' p)
  then have "u = snd (dt_set_remote_ice_credentials E u' p t)" using assms(2) by simp
  then show ?thesis using assms(1) dt_set_credentials_ice [of E u' p t] session_evolves [OF _ evolves_ice] by auto
qed (use assms in \<open>auto intro: session_evolves evolves_methods\<close>)

lemma session_reach:
  assumes "dt_inv t0" "host_reach (direct_api E) t0 s"
  shows "dt_session t0 (fst s)"
  using assms(2)
proof (induction rule: host_reach.induct)
  case start
  show ?case using session_refl [OF assms(1)] by simp
next
  case (step s c s')
  then show ?case using session_step [of t0 "fst s" E c "snd s" "fst s'" "snd s'"] by simp
qed

text \<open>Every constructor returns a fresh tunnel.\<close>

definition dt_constructed ::
  "('i, 'c, 'k, 'd, 's, 'a, 'e) stack \<Rightarrow> ('i, 'k, 'd, 's, 'a) direct_tunnel \<Rightarrow> bool" where
  "dt_constructed E t = ((\<exists>config la n. dt_new E config la n = Inr t)
     \<or> (\<exists>config la n. dt_offerer E config la n = Inr t)
     \<or> (\<exists>config la sdp n. dt_answerer E config la sdp n = Inr t))"

lemma constructed_fresh: "dt_constructed E t \<Longrightarrow> dt_fresh t"
  by (auto simp: dt_constructed_def intro: fresh_new fresh_offerer fresh_answerer)

lemma constructed_new: "dt_new E config la n = Inr t \<Longrightarrow> dt_constructed E t"
  by (auto simp: dt_constructed_def)

lemma script_constructed: "dt_constructed scripted script_t0"
  by (rule constructed_new [OF script_new])

lemma feed_reach:
  "host_reach (direct_api scripted) t0 (t, out) \<Longrightarrow> feed scripted n ds t = Some u \<Longrightarrow>
   host_reach (direct_api scripted) t0 (u, out)"
proof (induction ds arbitrary: t)
  case (Cons d ds)
  then obtain v where v: "dt_receive scripted n d t = Some v" "feed scripted n ds v = Some u"
    by (auto simp: bind_eq_Some_conv)
  have "host_reach (direct_api scripted) t0 (v, out)"
    by (rule host_reach.step [OF Cons.prems(1), of "Receive n d"]) (simp add: v(1))
  then show ?case using Cons.IH v(2) by blast
qed simp

lemma script_reach: "host_reach (direct_api scripted) script_t0 (script_t1, [])"
  by (rule feed_reach [OF host_reach.start script_open])

text \<open>
  C1. Lifecycle events are exact: in every session of a tunnel that a constructor of the direct
  backend returned, the events handed out so far together with the queue hold exactly one
  \<open>Opened\<close> when the tunnel is open and none otherwise, and exactly one \<open>Closed\<close> when it is
  finished and none otherwise.
\<close>

theorem direct_lifecycle_once:
  assumes "dt_constructed E t0" "host_reach (direct_api E) t0 (t, out)"
  shows "length (filter is_opened_event (out @ dt_events t)) = (if dt_opened t then 1 else 0)
    \<and> length (filter is_closed_event (out @ dt_events t)) = (if dt_finished t then 1 else 0)"
  using direct.reach_once [OF assms(2)] constructed_fresh [OF assms(1)] by (simp add: dt_fresh_def)

theorem direct_lifecycle_once_witness:
  "length (filter is_opened_event (dt_events script_t1)) = 1
   \<and> length (filter is_closed_event (dt_events script_t1)) = 0"
  using direct_lifecycle_once [OF script_constructed script_reach]
  by (simp add: script_t1_def)

text \<open>
  C2. The layers come up in order and stay up. Take any two points \<open>t\<close>, \<open>u\<close> of a session, \<open>u\<close>
  after \<open>t\<close>. No call in between changed what construction fixed (role, local address, SCTP port,
  stream, reliability, DTLS configuration, clock origin and deadline) or took a progress flag back,
  \<open>opened\<close> and \<open>finished\<close> included; each time stamp present at \<open>t\<close> is the same at \<open>u\<close>. At \<open>u\<close>
  a phase has a time stamp exactly when its flag is set, SCTP is connected only over a started
  DTLS handshake and the tunnel is open only with a connected association whose stream was
  dialed, and then the layers below and their stamps are all there.
\<close>

theorem direct_session_invariant:
  assumes "dt_constructed E t0" "host_reach (direct_api E) t0 (t, out)" "host_reach (direct_api E) t (u, out')"
  shows "dt_session t u
    \<and> (dt_opened t \<longrightarrow> dt_opened u) \<and> (dt_finished t \<longrightarrow> dt_finished u)
    \<and> (\<forall>stamp \<in> {ice_ms, dtls_ms, sctp_ms, opened_ms}. \<forall>ms.
         stamp (dt_trace t) = Some ms \<longrightarrow> stamp (dt_trace u) = Some ms)
    \<and> dt_opened u = (opened_ms (dt_trace u) \<noteq> None)
    \<and> dt_sctp_connected u = (sctp_ms (dt_trace u) \<noteq> None)
    \<and> dt_dtls_connected u = (dtls_ms (dt_trace u) \<noteq> None)
    \<and> (dt_sctp_connected u \<longrightarrow> dt_dtls_started u \<and> dt_dtls_connected u)
    \<and> (dt_opened u \<longrightarrow> dt_channel_dialed u \<and> dt_sctp_connected u \<and> dt_dtls_started u \<and> dt_dtls_connected u
         \<and> (\<exists>a h s. dt_association u = Some a \<and> dt_association_handle u = Some h \<and> dt_sctp u = Some s)
         \<and> (\<exists>o' s d. opened_ms (dt_trace u) = Some o' \<and> sctp_ms (dt_trace u) = Some s \<and> dtls_ms (dt_trace u) = Some d))"
proof -
  have "dt_inv t"
    using session_reach [OF _ assms(2)] constructed_fresh [OF assms(1)] by (simp add: dt_fresh_def dt_session_def)
  from session_reach [OF this assms(3)] have s: "dt_session t u" by simp
  then have le: "trace_le (dt_trace t) (dt_trace u)" and inv: "dt_inv u" by (simp_all add: dt_session_def)
  from le have stamps: "\<forall>stamp \<in> {ice_ms, dtls_ms, sctp_ms, opened_ms}. \<forall>ms.
       stamp (dt_trace t) = Some ms \<longrightarrow> stamp (dt_trace u) = Some ms"
    by (auto simp: trace_le_def)
  have up: "(dt_opened t \<longrightarrow> dt_opened u) \<and> (dt_finished t \<longrightarrow> dt_finished u)"
    using direct.reach_history [OF assms(3)] by (auto simp: tview_def advances.simps)
  have "dt_opened u = (opened_ms (dt_trace u) \<noteq> None)" "dt_sctp_connected u = (sctp_ms (dt_trace u) \<noteq> None)"
    "dt_dtls_connected u = (dtls_ms (dt_trace u) \<noteq> None)"
    "dt_sctp_connected u \<longrightarrow> dt_dtls_started u \<and> dt_dtls_connected u"
    "dt_opened u \<longrightarrow> dt_channel_dialed u \<and> dt_sctp_connected u \<and> dt_dtls_started u \<and> dt_dtls_connected u"
    "dt_opened u \<longrightarrow> (\<exists>a h s. dt_association u = Some a \<and> dt_association_handle u = Some h \<and> dt_sctp u = Some s)"
    "dt_opened u \<longrightarrow> (\<exists>o' s d. opened_ms (dt_trace u) = Some o' \<and> sctp_ms (dt_trace u) = Some s \<and> dtls_ms (dt_trace u) = Some d)"
    using inv by (auto simp: dt_inv_def not_None_eq)
  with s stamps up show ?thesis by blast
qed

text \<open>A second DTLS flight at 5200 ms completes the handshake again: the stamps of 5100 ms stay.\<close>

theorem direct_session_invariant_witness:
  "\<exists>u. dt_receive scripted 5200 [22] script_t1 = Some u \<and> dt_session script_t1 u \<and> dt_opened u
     \<and> dtls_ms (dt_trace u) = Some 5100 \<and> opened_ms (dt_trace u) = Some 5100"
proof -
  obtain u where u: "dt_receive scripted 5200 [22] script_t1 = Some u"
    using pump_methods_total [OF scripted_drains] by blast
  then have "host_step (direct_api scripted) (Receive 5200 [22]) (script_t1, []) = Some (u, [])" by simp
  then have "host_reach (direct_api scripted) script_t1 (u, [])" by (rule host_reach.step [OF host_reach.start])
  note after = direct_session_invariant [OF script_constructed script_reach this]
  from after have "dt_session script_t1 u" by (rule conjunct1)
  moreover from after have "dt_opened script_t1 \<longrightarrow> dt_opened u"
    "\<forall>stamp \<in> {ice_ms, dtls_ms, sctp_ms, opened_ms}. \<forall>ms.
       stamp (dt_trace script_t1) = Some ms \<longrightarrow> stamp (dt_trace u) = Some ms"
    by blast+
  ultimately show ?thesis using u by (simp add: script_t1_def)
qed

section \<open>Every call returns\<close>

text \<open>
  C5. No call of the host can hang the tunnel: when the queues of the protocol engines run empty
  under polling, every method of the direct backend returns, in any state of the tunnel.
\<close>

theorem direct_calls_return:
  assumes "stack_drains E"
  shows "\<exists>s'. host_step (direct_api E) c (t, out) = Some s'"
proof (cases c)
  case PollEvent
  then show ?thesis by (cases "fst (dt_poll_event t)"; cases "dt_poll_event t") auto
qed (use pump_methods_total [OF assms] tick_total [OF assms] send_total [OF assms] in \<open>fastforce+\<close>)

theorem direct_calls_return_witness:
  "stack_drains scripted \<and> (\<exists>s'. host_step (direct_api scripted) (Tick 5300) (script_t1, []) = Some s')"
  using scripted_drains direct_calls_return [OF scripted_drains, of "Tick 5300" script_t1 "[]"] by blast

section \<open>The handshake budget\<close>

lemma new_deadline:
  assumes "dt_new E config la n0 = Inr t0"
  shows "dt_handshake_deadline t0 = dt_epoch t0 + millis (n0 + cfg_handshake_timeout_ms config)"
  using new_build [OF assms] build_time(1) by fastforce

lemma session_deadline:
  assumes "dt_new E config la n0 = Inr t0" "host_reach (direct_api E) t0 (t, out)"
  shows "dt_handshake_deadline t = dt_epoch t + millis (n0 + cfg_handshake_timeout_ms config)"
  using session_reach [OF _ assms(2)] fresh_new [OF assms(1)] new_deadline [OF assms(1)]
  by (auto simp: dt_session_def dt_fresh_def)

text \<open>
  C6. The handshake is bounded by its budget. In every session of a tunnel built by \<open>new\<close> at
  \<open>n0\<close>, a tick at or after \<open>n0 + handshake_timeout_ms\<close> returns and leaves the tunnel open or
  finished; and as long as it is neither, \<open>next_deadline\<close> asks the host to come back no later
  than that time.
\<close>

theorem direct_handshake_budget:
  assumes "dt_new E config la n0 = Inr t0" "host_reach (direct_api E) t0 (t, out)" "stack_drains E"
    and "n0 + cfg_handshake_timeout_ms config < 2 ^ 64"
  shows "(n0 + cfg_handshake_timeout_ms config \<le> n \<longrightarrow>
      (\<exists>u. dt_tick E n t = Some u \<and> (dt_opened u \<or> dt_finished u)))
    \<and> (\<not> dt_opened t \<and> \<not> dt_finished t \<longrightarrow>
      (\<exists>d. fst (dt_next_deadline E t) = Some d \<and> d \<le> n0 + cfg_handshake_timeout_ms config))"
  using tick_total [OF assms(3), of n t] tick_deadline [OF session_deadline [OF assms(1,2)], of E n]
    next_deadline_budget [OF session_deadline [OF assms(1,2)] assms(4), of E]
  by blast

theorem direct_handshake_budget_witness:
  "\<exists>u. dt_tick scripted 35000 script_t0 = Some u \<and> (dt_opened u \<or> dt_finished u)"
  using direct_handshake_budget [OF script_new host_reach.start scripted_drains, of 35000]
  by (simp add: script_config_def tunnel_config_new_def)

end
