(* ===== verification/Direct_Wire.thy ===== *)
theory Direct_Wire
  imports Direct_Spec
begin

text \<open>
  What the direct backend does with bytes: the classification of a datagram, the answers of
  \<open>send\<close> and its back pressure, the wire form of a message and its way back to an event, and
  batched input. The last section records the sessions in which the code departs from its
  documentation.
\<close>

section \<open>Datagrams\<close>

text \<open>The reading of the first byte that RFC 7983 fixes for these two protocols, as plain numbers.\<close>

datatype wire_layer = IceLayer | DtlsLayer

definition layer_of :: "byte list \<Rightarrow> wire_layer option" where
  "layer_of d = (case map unat d of
       [] \<Rightarrow> None
     | b # _ \<Rightarrow> if b \<in> {0..3} then Some IceLayer else if b \<in> {20..63} then Some DtlsLayer else None)"

lemma layer_of_tests:
  "is_stun d = (layer_of d = Some IceLayer)" "is_dtls d = (layer_of d = Some DtlsLayer)"
  by (auto simp: layer_of_def is_stun_def is_dtls_def DTLS_FIRST_BYTE_MIN_def DTLS_FIRST_BYTE_MAX_def split: list.splits)

text \<open>What a layer touches: feeding DTLS leaves the ICE agent and the counter alone.\<close>

definition dt_ingress :: "('i, 'k, 'd, 's, 'a) direct_tunnel \<Rightarrow> 'i \<times> u64" where
  "dt_ingress t = (dt_ice t, dt_dropped_datagrams t)"

lemma start_sctp_ingress: "start_sctp E t = (r, u) \<Longrightarrow> dt_ingress u = dt_ingress t"
  by (auto simp: start_sctp_def dt_ingress_def Let_def split: if_splits prod.splits sum.splits)

lemma feed_sctp_ingress: "dt_ingress (feed_sctp E now data t) = dt_ingress t"
  by (auto simp: feed_sctp_def dt_ingress_def Let_def split: option.splits prod.splits datagram_event.splits)

lemma feed_dtls_events_ingress: "feed_dtls_events E now evs t = (r, u) \<Longrightarrow> dt_ingress u = dt_ingress t"
proof (induction evs arbitrary: t)
  case (Cons ev evs)
  show ?case
  proof (cases ev)
    case HandshakeComplete
    let ?t = "t\<lparr>dt_dtls_connected := True, dt_trace := observe_dtls (dt_ms t now) (dt_trace t)\<rparr>"
    obtain r' v where ss: "start_sctp E ?t = (r', v)" by (cases "start_sctp E ?t") auto
    have "dt_ingress u = dt_ingress ?t"
      using Cons HandshakeComplete ss start_sctp_ingress [OF ss]
      by (cases r') (fastforce simp: Let_def split: if_splits)+
    then show ?thesis by (simp add: dt_ingress_def)
  qed (use Cons feed_sctp_ingress in \<open>fastforce+\<close>)
qed simp

lemma feed_dtls_ingress: "feed_dtls E now d t = (r, u) \<Longrightarrow> dt_ingress u = dt_ingress t"
  by (auto simp: feed_dtls_def split: prod.splits sum.splits dest!: feed_dtls_events_ingress)
    (simp_all add: dt_ingress_def)

lemma start_dtls_ingress: "dt_ingress (start_dtls E t) = dt_ingress t"
  by (auto simp: start_dtls_def activate_dtls_def dt_ingress_def Let_def split: option.splits prod.splits)

text \<open>
  C18. A datagram is handled by exactly one layer, which the range of its first byte selects. In
  the range of neither protocol it leaves the tunnel as it was, so that receiving it is receiving
  nothing; a STUN datagram changes the state of the ICE agent and nothing else; a DTLS record is
  ignored before ICE has selected a pair, and after that goes to a DTLS endpoint that is started
  first when it was not, with the ICE agent untouched. The counter of dropped datagrams goes up by
  one, saturating, exactly when the layer the datagram belongs to rejects it.
\<close>

theorem ingest_classification:
  "case layer_of d of
     None \<Rightarrow> ingest E now d t = t \<and> dt_receive E n d t = dt_receive E n [] t
   | Some IceLayer \<Rightarrow>
       (case ice_handle_read E now (dt_local_addr t) (dt_remote_addr t) d (dt_ice t) of
          (Inr _, i) \<Rightarrow> ingest E now d t = t\<lparr>dt_ice := i\<rparr>
        | (Inl _, i) \<Rightarrow> ingest E now d t =
            t\<lparr>dt_ice := i, dt_dropped_datagrams := saturating_add_u64 (dt_dropped_datagrams t) 1\<rparr>)
   | Some DtlsLayer \<Rightarrow>
       if \<not> selected_pair E (dt_ice t) then ingest E now d t = t
       else (case feed_dtls E now d (if dt_dtls_started t then t else start_dtls E t) of
          (Inr _, u) \<Rightarrow> ingest E now d t = u \<and> dt_ice u = dt_ice t
            \<and> dt_dropped_datagrams u = dt_dropped_datagrams t
        | (Inl _, u) \<Rightarrow> ingest E now d t =
            u\<lparr>dt_dropped_datagrams := saturating_add_u64 (dt_dropped_datagrams t) 1\<rparr> \<and> dt_ice u = dt_ice t)"
proof (cases "layer_of d")
  case None
  then have "ingest E m d v = v" "ingest E m [] v = v" for m v
    by (simp_all add: ingest_def layer_of_tests) (simp add: layer_of_def)
  then show ?thesis using None by (simp add: dt_receive_def Let_def)
next
  case (Some l)
  show ?thesis
  proof (cases l)
    case IceLayer
    then show ?thesis using Some by (auto simp: ingest_def layer_of_tests Let_def split: prod.splits sum.splits)
  next
    case DtlsLayer
    let ?s = "if dt_dtls_started t then t else start_dtls E t"
    obtain r u where f: "feed_dtls E now d ?s = (r, u)" by (cases "feed_dtls E now d ?s")
    have "dt_ingress u = dt_ingress t"
      using feed_dtls_ingress [OF f] start_dtls_ingress by (simp split: if_splits)
    then show ?thesis using Some DtlsLayer f
      by (auto simp: ingest_def layer_of_tests Let_def dt_ingress_def split: sum.splits)
  qed
qed

theorem ingest_classification_witness:
  "ingest scripted 0 [128, 1] script_t1 = script_t1 \<and> ingest scripted 0 [64] script_t1 = script_t1
   \<and> ingest scripted 0 [22] script_t0 = script_t0
   \<and> ingest scripted 0 [2] script_t1 = script_t1\<lparr>dt_dropped_datagrams := 1\<rparr>"
proof -
  have "layer_of [128, 1] = None" "layer_of [64] = None" "layer_of [22] = Some DtlsLayer" "layer_of [2] = Some IceLayer"
    by (simp_all add: layer_of_def)
  then show ?thesis
    using ingest_classification [where E = scripted and d = "[128, 1]" and t = script_t1 and now = 0 and n = 0]
      ingest_classification [where E = scripted and d = "[64]" and t = script_t1 and now = 0 and n = 0]
      ingest_classification [where E = scripted and d = "[22]" and t = script_t0 and now = 0 and n = 0]
      ingest_classification [where E = scripted and d = "[2]" and t = script_t1 and now = 0 and n = 0]
    by (simp add: script_ice_read_def script_t1_def script_t0_def script_ice0_def initial_tunnel_def Let_def saturating_add_u64_def)
qed

text \<open>Feeding a datagram to its layer queues nothing and opens or closes nothing: that is left to
  \<open>pump\<close>.\<close>

lemma feed_sctp_view: "dt_view (feed_sctp E now data t) = dt_view t"
  by (auto simp: feed_sctp_def dt_view_def Let_def split: option.splits prod.splits datagram_event.splits)

lemma start_sctp_view: "start_sctp E t = (r, u) \<Longrightarrow> dt_view u = dt_view t"
  by (auto simp: start_sctp_def dt_view_def Let_def split: if_splits prod.splits sum.splits)

lemma feed_dtls_events_view: "feed_dtls_events E now evs t = (r, u) \<Longrightarrow> dt_view u = dt_view t"
proof (induction evs arbitrary: t)
  case (Cons ev evs)
  show ?case
  proof (cases ev)
    case HandshakeComplete
    let ?t = "t\<lparr>dt_dtls_connected := True, dt_trace := observe_dtls (dt_ms t now) (dt_trace t)\<rparr>"
    obtain r' v where ss: "start_sctp E ?t = (r', v)" by (cases "start_sctp E ?t") auto
    have "dt_view u = dt_view ?t"
      using Cons HandshakeComplete ss start_sctp_view [OF ss]
      by (cases r') (fastforce simp: Let_def split: if_splits)+
    then show ?thesis by (simp add: dt_view_def)
  qed (use Cons feed_sctp_view in \<open>fastforce+\<close>)
qed simp

lemma start_dtls_view: "dt_view (start_dtls E t) = dt_view t"
  by (auto simp: start_dtls_def activate_dtls_def dt_view_def Let_def split: option.splits prod.splits)

lemma ingest_keeps_view: "dt_view (ingest E now d t) = dt_view t"
proof -
  have f: "feed_dtls E now d u = (r, v) \<Longrightarrow> dt_view v = dt_view u" for u v r
    by (auto simp: feed_dtls_def split: prod.splits sum.splits dest!: feed_dtls_events_view) (simp_all add: dt_view_def)
  have drop: "dt_view (v\<lparr>dt_dropped_datagrams := x\<rparr>) = dt_view v" for v x by (simp add: dt_view_def)
  have "dt_view (t\<lparr>dt_ice := i\<rparr>) = dt_view t" for i by (simp add: dt_view_def)
  then show ?thesis
    unfolding ingest_def by (auto simp: Let_def drop start_dtls_view split: prod.splits dest!: f)
qed

text \<open>
  C17. Batching is transparent: on an open tunnel, feeding a datagram with \<open>receive_deferred\<close> and
  then calling \<open>finish_input_batch\<close> is the same as \<open>receive\<close>; before the channel is open (or
  after it is finished) \<open>receive_deferred\<close> is itself \<open>receive\<close>.
\<close>

theorem deferred_receive_equiv:
  "(dt_opened t \<longrightarrow> Option.bind (dt_receive_deferred E n d t) (dt_finish_input_batch E) = dt_receive E n d t)
   \<and> (\<not> dt_opened t \<or> dt_finished t \<longrightarrow> dt_receive_deferred E n d t = dt_receive E n d t)"
proof -
  let ?u = "ingest E (dt_epoch t + millis n) d (t\<lparr>dt_last_now := dt_epoch t + millis n\<rparr>)"
  have u: "dt_opened ?u = dt_opened t" "dt_finished ?u = dt_finished t"
    using ingest_keeps_view [of E "dt_epoch t + millis n" d "t\<lparr>dt_last_now := dt_epoch t + millis n\<rparr>"]
    by (simp_all add: dt_view_def)
  then show ?thesis
    by (cases "dt_finished t"; cases "dt_opened t")
      (simp_all add: dt_receive_deferred_def dt_receive_def dt_finish_input_batch_def Let_def)
qed

theorem deferred_receive_equiv_witness:
  "Option.bind (dt_receive_deferred scripted 5200 [23, 3, 7] script_t1) (dt_finish_input_batch scripted)
     = dt_receive scripted 5200 [23, 3, 7] script_t1"
proof -
  have "dt_opened script_t1" by (simp add: script_t1_def)
  then show ?thesis using deferred_receive_equiv [of script_t1 scripted 5200 "[23, 3, 7]"] by blast
qed

section \<open>Sending\<close>

lemma dt_send_stream:
  assumes "\<not> dt_finished t" "dt_opened t" "length d \<le> MAX_MESSAGE_SIZE" "dt_association t = Some a"
    "assoc_stream E (dt_stream_id t) a"
  shows "dt_send E d t =
     (if dt_send_buffer_cap t < saturating_add_usize (usize_max E) (dt_buffered_bytes E t) (length d)
      then Some (Backpressure, t)
      else if \<not> stream_is_writable E (dt_stream_id t) a then Some (NotOpen, t)
      else case stream_write E (dt_stream_id t) (snd (encode_message d)) (fst (encode_message d)) a of
          (Inl _, a') \<Rightarrow> Some (NotOpen, t\<lparr>dt_association := Some a'\<rparr>)
        | (Inr _, a') \<Rightarrow> map_option (\<lambda>u. (Accepted, u)) (flush_message E (t\<lparr>dt_association := Some a'\<rparr>)))"
  using assms
  by (cases "encode_message d";
      cases "stream_write E (dt_stream_id t) (snd (encode_message d)) (fst (encode_message d)) a";
      cases "fst (stream_write E (dt_stream_id t) (snd (encode_message d)) (fst (encode_message d)) a)")
    (simp_all add: dt_send_def dt_buffered_bytes_def Let_def map_conv_bind_option comp_def split: option.split)

text \<open>What a write is followed by queues datagrams and leaves the two flags alone.\<close>

definition only_datagrams :: "('i, 'k, 'd, 's, 'a) direct_tunnel \<Rightarrow> ('i, 'k, 'd, 's, 'a) direct_tunnel \<Rightarrow> bool" where
  "only_datagrams t u = ((\<exists>ds. dt_events u = dt_events t @ map SendDatagram ds)
     \<and> dt_opened u = dt_opened t \<and> dt_finished u = dt_finished t)"

lemma only_datagrams_view: "dt_view u = dt_view t \<Longrightarrow> only_datagrams t u"
  by (auto simp: dt_view_def only_datagrams_def intro!: exI [of _ "[]"])

lemma only_datagrams_trans [trans]: "only_datagrams t u \<Longrightarrow> only_datagrams u v \<Longrightarrow> only_datagrams t v"
  by (auto simp: only_datagrams_def simp flip: map_append)

lemma only_datagrams_push: "only_datagrams t (push_event (SendDatagram m) (t\<lparr>dt_dtls := d\<rparr>))"
  by (auto simp: only_datagrams_def push_event_def intro!: exI [of _ "[m]"])

lemma only_datagrams_dtls [simp]: "only_datagrams t (u\<lparr>dt_dtls := d\<rparr>) = only_datagrams t u"
  by (simp add: only_datagrams_def)

lemma drain_channel_view: "drain_channel E t = (r, u) \<Longrightarrow> dt_view u = dt_view t"
  by (auto simp: drain_channel_def open_stream_def dt_view_def Let_def split: if_splits option.splits prod.splits sum.splits)

lemma drain_sctp_transmits_view: "drain_sctp_transmits E t = Some (r, u) \<Longrightarrow> dt_view u = dt_view t"
  by (auto simp: drain_sctp_transmits_def dt_view_def bind_eq_Some_conv split: option.splits)

lemma drain_dtls_transmits_datagrams:
  assumes "drain_dtls_transmits E t = Some u"
  shows "only_datagrams t u"
  using assms unfolding drain_dtls_transmits_def
proof (rule while_let_inv [where I = "only_datagrams t"])
  show "only_datagrams t t" by (rule only_datagrams_view) simp
qed (auto split: option.splits prod.splits intro: only_datagrams_trans only_datagrams_push)

lemma flush_message_datagrams:
  assumes "flush_message E t = Some u"
  shows "only_datagrams t u"
proof -
  obtain r1 t1 where 1: "drain_channel E t = (r1, t1)" by (cases "drain_channel E t")
  from assms 1 obtain r2 t2 where 2: "drain_sctp_transmits E t1 = Some (r2, t2)" and 3: "drain_dtls_transmits E t2 = Some u"
    by (auto simp: flush_message_def bind_eq_Some_conv)
  have "dt_view t2 = dt_view t" using drain_channel_view [OF 1] drain_sctp_transmits_view [OF 2] by simp
  from only_datagrams_trans [OF only_datagrams_view [OF this] drain_dtls_transmits_datagrams [OF 3]] show ?thesis .
qed

text \<open>
  C8. \<open>send\<close> answers as documented on every branch. Of the four answers, \<open>TooLarge\<close>,
  \<open>Backpressure\<close> and \<open>Accepted\<close> each come exactly under their condition, and \<open>NotOpen\<close> in every
  other case: the tunnel must be open and not finished; the message is too large above the limit of
  the channel; with a stream to write to, there is back pressure exactly when the bytes already
  waiting and the message, added up to the largest \<open>usize\<close>, exceed the cap; and a message is
  accepted exactly when, beyond that, the stream is writable and takes the chunk, which is the
  message itself, or one zero byte under its own payload type for the empty one. \<open>TooLarge\<close> and
  \<open>Backpressure\<close> change nothing, \<open>NotOpen\<close> at most the association, after a write it refused; an
  accepted message opens and closes nothing and queues datagrams only, and, for any cap below the
  largest \<open>usize\<close>, it fits the cap together with what was waiting.
\<close>

theorem send_answers:
  assumes "dt_send E d t = Some (r, u)"
  defines "up \<equiv> dt_opened t \<and> \<not> dt_finished t"
    and "stream \<equiv> \<lambda>a. dt_association t = Some a \<and> assoc_stream E (dt_stream_id t) a"
    and "full \<equiv> dt_send_buffer_cap t < min (usize_max E) (dt_buffered_bytes E t + length d)"
    and "wrote \<equiv> \<lambda>a. stream_write E (dt_stream_id t) (if d = [] then [0] else d)
      (if d = [] then PpidBinaryEmpty else PpidBinary) a"
  shows "(r = TooLarge \<longleftrightarrow> up \<and> MAX_MESSAGE_SIZE < length d)
    \<and> (r = Backpressure \<longleftrightarrow> up \<and> length d \<le> MAX_MESSAGE_SIZE \<and> (\<exists>a. stream a) \<and> full)
    \<and> (r = Accepted \<longleftrightarrow> up \<and> length d \<le> MAX_MESSAGE_SIZE \<and> \<not> full
         \<and> (\<exists>a a'. stream a \<and> stream_is_writable E (dt_stream_id t) a \<and> wrote a = (Inr (), a')))
    \<and> (r = TooLarge \<or> r = Backpressure \<longrightarrow> u = t)
    \<and> (r = NotOpen \<longrightarrow> u = t
         \<or> (\<exists>a e a'. up \<and> stream a \<and> wrote a = (Inl e, a') \<and> u = t\<lparr>dt_association := Some a'\<rparr>))
    \<and> (r = Accepted \<longrightarrow> dt_opened u \<and> \<not> dt_finished u \<and> (\<exists>ds. dt_events u = dt_events t @ map SendDatagram ds)
         \<and> (dt_send_buffer_cap t < usize_max E \<longrightarrow> dt_buffered_bytes E t + length d \<le> dt_send_buffer_cap t))"
proof -
  have nostream: "r = NotOpen \<and> u = t" if "up" "length d \<le> MAX_MESSAGE_SIZE" "\<nexists>a. stream a"
    using assms(1) that unfolding up_def stream_def by (auto simp: dt_send_def split: option.splits)
  consider "\<not> up" | "up" "MAX_MESSAGE_SIZE < length d" | "up" "length d \<le> MAX_MESSAGE_SIZE" "\<nexists>a. stream a"
    | a where "up" "length d \<le> MAX_MESSAGE_SIZE" "stream a"
    by (meson not_le)
  then show ?thesis
  proof cases
    case 1
    then have "r = NotOpen \<and> u = t" using assms(1) unfolding up_def by (auto simp: dt_send_def split: if_splits)
    with 1 show ?thesis by simp
  next
    case 2
    then have "r = TooLarge \<and> u = t" using assms(1) unfolding up_def by (auto simp: dt_send_def)
    with 2 show ?thesis by simp
  next
    case 3
    with nostream [OF 3] show ?thesis by auto
  next
    case (4 a)
    have only: "stream b \<longleftrightarrow> b = a" for b using 4(3) unfolding stream_def by auto
    have sat: "dt_send_buffer_cap t < saturating_add_usize (usize_max E) (dt_buffered_bytes E t) (length d) \<longleftrightarrow> full"
      by (simp add: full_def saturating_add_usize_def)
    have enc: "stream_write E (dt_stream_id t) (snd (encode_message d)) (fst (encode_message d)) a = wrote a"
      by (simp add: wrote_def encode_message_def)
    have eq: "(if full then Some (Backpressure, t)
      else if \<not> stream_is_writable E (dt_stream_id t) a then Some (NotOpen, t)
      else case wrote a of
          (Inl _, a') \<Rightarrow> Some (NotOpen, t\<lparr>dt_association := Some a'\<rparr>)
        | (Inr _, a') \<Rightarrow> map_option (\<lambda>u. (Accepted, u)) (flush_message E (t\<lparr>dt_association := Some a'\<rparr>))) = Some (r, u)"
      using assms(1) dt_send_stream [of t d a E] 4 unfolding up_def stream_def sat enc by simp
    have acc: "dt_opened u \<and> \<not> dt_finished u \<and> (\<exists>ds. dt_events u = dt_events t @ map SendDatagram ds)"
      if "flush_message E (t\<lparr>dt_association := Some a'\<rparr>) = Some u" for a'
      using flush_message_datagrams [OF that] 4(1) unfolding up_def by (auto simp: only_datagrams_def)
    have fits: "dt_send_buffer_cap t < usize_max E \<Longrightarrow> dt_buffered_bytes E t + length d \<le> dt_send_buffer_cap t" if "\<not> full"
      using that unfolding full_def by simp
    show ?thesis
    proof (cases "full \<or> \<not> stream_is_writable E (dt_stream_id t) a")
      case True
      then have "r = (if full then Backpressure else NotOpen) \<and> u = t" using eq by (simp split: if_splits)
      with True 4(1,2) only show ?thesis by (simp split: if_splits)
    next
      case False
      obtain w a' where w: "wrote a = (w, a')" by (cases "wrote a")
      show ?thesis
      proof (cases w)
        case (Inl e)
        with eq False w have r: "r = NotOpen" and "u = t\<lparr>dt_association := Some a'\<rparr>" by simp_all
        with 4 w Inl have "\<exists>a e a'. up \<and> stream a \<and> wrote a = (Inl e, a') \<and> u = t\<lparr>dt_association := Some a'\<rparr>" by blast
        with r 4(1,2) False only w Inl show ?thesis by simp
      next
        case (Inr x)
        with eq False w have r: "r = Accepted" and "flush_message E (t\<lparr>dt_association := Some a'\<rparr>) = Some u" by auto
        with r acc fits 4(1,2) False only w Inr show ?thesis by simp
      qed
    qed
  qed
qed

text \<open>One message goes out; on a stream that has nowhere to put it, it does not.\<close>

theorem send_answers_witness:
  "(\<exists>u. dt_send scripted [9] script_t1 = Some (Accepted, u)
     \<and> dt_buffered_bytes scripted script_t1 + 1 \<le> dt_send_buffer_cap script_t1)
   \<and> (\<exists>r u. dt_send (scripted\<lparr>stream_write := \<lambda>sid m p a. (Inl ''full'', a)\<rparr>) [9] script_t1 = Some (r, u) \<and> r \<noteq> Accepted)"
proof -
  obtain u where u: "dt_send scripted [9] script_t1 = Some (Accepted, u)"
    using script_send by auto
  have "dt_send_buffer_cap script_t1 < usize_max scripted"
    by (simp add: script_states initial_tunnel_def Let_def DEFAULT_SEND_BUFFER_CAP_def)
  then have "\<exists>u. dt_send scripted [9] script_t1 = Some (Accepted, u)
     \<and> dt_buffered_bytes scripted script_t1 + 1 \<le> dt_send_buffer_cap script_t1"
    using send_answers [OF u] u by auto
  moreover have "\<exists>r u. dt_send (scripted\<lparr>stream_write := \<lambda>sid m p a. (Inl ''full'', a)\<rparr>) [9] script_t1 = Some (r, u) \<and> r \<noteq> Accepted"
  proof -
    have "stack_drains (scripted\<lparr>stream_write := \<lambda>sid m p a. (Inl ''full'', a)\<rparr>)"
      using scripted_drains by (simp add: stack_drains_def)
    then obtain r v where v: "dt_send (scripted\<lparr>stream_write := \<lambda>sid m p a. (Inl ''full'', a)\<rparr>) [9] script_t1 = Some (r, v)"
      using send_total by blast
    from send_answers [OF this] v show ?thesis by simp
  qed
  ultimately show ?thesis by blast
qed

section \<open>Messages\<close>

text \<open>A stream that hands out the given chunks, one per read, and then nothing more.\<close>

fun delivers :: "('i, 'c, 'k, 'd, 's, 'a, 'e) stack \<Rightarrow> u16 \<Rightarrow> 'a \<Rightarrow> (ppid \<times> byte list) list \<Rightarrow> bool" where
  "delivers E sid a [] = (\<exists>a'. stream_read E sid a = (Inr None, a'))"
| "delivers E sid a (x # xs) = (\<exists>a'. stream_read E sid a = (Inr (Some x), a') \<and> delivers E sid a' xs)"

text \<open>What the reassembly of a chunk promises for a payload within the limit.\<close>

definition payload_intact :: "('i, 'c, 'k, 'd, 's, 'a, 'e) stack \<Rightarrow> byte list \<Rightarrow> bool" where
  "payload_intact E d = (chunks_to_payload E d MAX_MESSAGE_SIZE = Inr d)"

lemma chunk_event_encode:
  "payload_intact E d \<Longrightarrow> chunk_event E (encode_message d) = Inr [Message d]"
  by (cases "d = []") (simp_all add: encode_message_def chunk_event_def payload_intact_def)

lemma read_chunks_More:
  "stream_read E sid a = (Inr (Some x), a') \<Longrightarrow> chunk_event E x = Inr new \<Longrightarrow>
   read_chunks E sid evs a = read_chunks E sid (evs @ new) a'"
  unfolding read_chunks_def by (subst while_let_More) auto

lemma read_chunks_messages:
  assumes "delivers E sid a (map encode_message ds)" "list_all (payload_intact E) ds"
  shows "\<exists>a'. read_chunks E sid evs a = Some (Inr (), evs @ map Message ds, a')"
  using assms
proof (induction ds arbitrary: a evs)
  case Nil
  then obtain a' where "stream_read E sid a = (Inr None, a')" by auto
  then show ?case by (simp add: read_chunks_def)
next
  case (Cons d ds)
  then obtain a' where r: "stream_read E sid a = (Inr (Some (encode_message d)), a')"
    and rest: "delivers E sid a' (map encode_message ds)" by auto
  have "read_chunks E sid evs a = read_chunks E sid (evs @ [Message d]) a'"
    using r chunk_event_encode Cons.prems(2) by (intro read_chunks_More) auto
  then show ?case using Cons.IH [OF rest, of "evs @ [Message d]"] Cons.prems(2) by simp
qed

text \<open>
  C4. Messages arrive whole, in order and once. When the peer's stream delivers the chunks that
  \<open>send\<close> writes for the messages \<open>ds\<close>, reading the stream appends exactly the events
  \<open>Message d\<close> for these messages, in that order, to the queue, an empty message included, which
  travels as one zero byte under its own payload type since SCTP carries no empty chunk.
\<close>

theorem messages_in_order:
  assumes "dt_association t = Some a" "assoc_stream E (dt_stream_id t) a"
    and "delivers E (dt_stream_id t) a (map encode_message ds)" "list_all (payload_intact E) ds"
  shows "(\<exists>u. read_stream E t = Some (Inr (), u) \<and> dt_events u = dt_events t @ map Message ds)
    \<and> (\<forall>d. snd (encode_message d) \<noteq> [])"
proof -
  have "\<exists>u. read_stream E t = Some (Inr (), u) \<and> dt_events u = dt_events t @ map Message ds"
    using read_chunks_messages [OF assms(3,4), of "dt_events t"] assms(1,2) by (auto simp: read_stream_def)
  then show ?thesis by (simp add: encode_message_def)
qed

theorem messages_in_order_witness:
  "\<exists>u. read_stream scripted (script_t1\<lparr>dt_association :=
        Some (script_assoc1\<lparr>as_in := map encode_message [[7, 8], [], [9]]\<rparr>)\<rparr>) = Some (Inr (), u)
     \<and> dt_events u = dt_events script_t1 @ [Message [7, 8], Message [], Message [9]]"
  using messages_in_order [of "script_t1\<lparr>dt_association :=
        Some (script_assoc1\<lparr>as_in := map encode_message [[7, 8], [], [9]]\<rparr>)\<rparr>"
      "script_assoc1\<lparr>as_in := map encode_message [[7, 8], [], [9]]\<rparr>" scripted "[[7, 8], [], [9]]"]
  by (simp add: payload_intact_def script_states initial_tunnel_def script_config_def tunnel_config_new_def Let_def)

section \<open>Departures from the documentation\<close>

text \<open>\<open>event.rs\<close> documents \<open>Closed\<close> as final. A message and the loss of the association that
  reach the tunnel in one batch leave the message after \<open>Closed\<close>.\<close>

lemma message_after_closed:
  "map_option dt_events
     (Option.bind (Option.bind (dt_receive_deferred scripted 5200 [23, 3, 7] script_t1)
        (dt_receive_deferred scripted 5200 [23, 5])) (dt_finish_input_batch scripted)) =
   Some (dt_events script_t1 @ [Closed Remote, Message [7]])"
  by (simp add: direct_eval script_eval script_states MAX_MESSAGE_SIZE_def)

text \<open>\<open>open_stream\<close> marks the channel dialed before it opens the stream. When the stream cannot be
  opened, that pump reports the error, and the next one announces an open channel on which
  every \<open>send\<close> is refused.\<close>

lemma opened_without_stream:
  "map_option (\<lambda>t. (dt_opened t, last (dt_events t), map_option fst (dt_send
        (scripted\<lparr>assoc_open_stream := \<lambda>sid p a. (Inl ''refused'', a)\<rparr>) [9] t)))
     (feed (scripted\<lparr>assoc_open_stream := \<lambda>sid p a. (Inl ''refused'', a)\<rparr>) 5100
        [[1], [22], [23, 2], [0]] script_t0) =
   Some (True, Opened, Some NotOpen)"
  by (simp add: direct_eval script_eval script_states MAX_MESSAGE_SIZE_def)

text \<open>The wasm layer documents a negative \<open>max_retransmits\<close> as unlimited and passes \<open>None\<close> for
  it; the tunnel keeps 0, so the stream is opened with no retransmission at all.\<close>

lemma unlimited_retransmits_lost:
  assumes "dt_new E config la n = Inr t" "cfg_max_retransmits config = None"
  shows "dt_max_retransmits t = 0"
  using new_build [OF assms(1)] build_time(2) [of E Offerer config la n] assms(2) by auto

end
