(* ===== verification/Net_Addr6.thy ===== *)
theory Net_Addr6
  imports Net_Addr
begin

text \<open>
  Reading back an IPv6 address the way it was displayed: with its first longest run of zero
  groups elided, with an embedded IPv4 tail, or group by group.
\<close>

abbreviation hex :: "u16 \<Rightarrow> rstr" where
  "hex g \<equiv> show_radix 16 (unat g)"

text \<open>Text after a group at which no further group starts and the group itself ends.\<close>

definition ends_group :: "rstr \<Rightarrow> bool" where
  "ends_group s = (case s of [] \<Rightarrow> True | c # _ \<Rightarrow> c = colon \<or> c = CHR '']'')"

lemma ends_group_no_digit: "ends_group s \<Longrightarrow> no_digit 16 s \<and> no_digit 10 s"
  by (cases s) (auto simp: ends_group_def)

lemma ends_group_simps [simp]: "ends_group []" "ends_group (colon # s)" "ends_group (CHR '']'' # s)"
  by (simp_all add: ends_group_def)

section \<open>A hexadecimal group is not an IPv4 address\<close>

lemma read_digits_rest:
  assumes "read_digits r acc k (x @ s) = (v, k', rest)" "dot \<notin> set x" "no_digit r s" "read_char dot s = None"
  shows "read_char dot rest = None"
  using assms
proof (induction x arbitrary: acc k)
  case Nil
  then show ?case by (cases s) (auto simp: no_digit_def)
next
  case (Cons c x)
  then show ?case by (cases "to_digit r c") auto
qed

lemma dot_notin_show_radix: "2 \<le> r \<Longrightarrow> r \<le> 16 \<Longrightarrow> dot \<notin> set (show_radix r n)"
proof
  assume r: "2 \<le> r" "r \<le> 16" and "dot \<in> set (show_radix r n)"
  then obtain d where d: "d \<in> set (digits r n)" "dot = digit_char d"
    by (auto simp: show_radix_def)
  then have "d < 16" using digits_bound [of r n] r by auto
  then have "code dot = (if d < 10 then 48 + d else 87 + d)"
    using d code_digit_char [of d] by simp
  then show False by (simp split: if_splits)
qed

lemma read_ipv4_hex:
  assumes "ends_group s"
  shows "read_ipv4 (hex g @ s) = None"
proof (cases "read_octet (hex g @ s)")
  case (Some a)
  obtain v rest where a: "a = (v, rest)" by (cases a)
  obtain w k where "read_digits 10 0 0 (hex g @ s) = (w, k, rest)"
    using Some a by (auto simp: read_number_def Let_def split: prod.splits if_splits)
  moreover have "read_char dot s = None" using assms by (cases s) (auto simp: ends_group_def)
  ultimately have "read_char dot rest = None"
    using read_digits_rest dot_notin_show_radix [of 16 "unat g"] ends_group_no_digit [OF assms] by auto
  then show ?thesis using Some a by (simp add: read_ipv4_def read_sep_def)
qed (simp add: read_ipv4_def)

lemma read_group_hex:
  assumes "ends_group s"
  shows "read_number 16 (Some 4) True 65535 (hex g @ s) = Some (unat g, s)"
  using unsigned_less [of g, where 'a = nat] ends_group_no_digit [OF assms]
  by (intro read_number_show) auto

lemma char_eq_iff_code: "c = d \<longleftrightarrow> code c = code d"
  by simp

section \<open>Groups\<close>

primrec sep_text :: "u16 list \<Rightarrow> rstr" where
  "sep_text [] = []"
| "sep_text (g # gs) = colon # hex g @ sep_text gs"

lemma join_sep_text: "show_groups (g # gs) = hex g @ sep_text gs"
  by (induction gs arbitrary: g) (simp_all add: show_groups_def)

lemma ends_sep_text: "ends_group s \<Longrightarrow> ends_group (sep_text gs @ s)"
  by (cases gs) auto

text \<open>Nothing more to read at \<open>s\<close>, where \<open>i\<close> groups have been read.\<close>

definition no_group :: "nat \<Rightarrow> rstr \<Rightarrow> bool" where
  "no_group i s = (read_sep colon i read_ipv4 s = None
     \<and> read_sep colon i (read_number 16 (Some 4) True 65535) s = None)"

lemma read_groups_stop: "no_group i s \<Longrightarrow> read_groups i n s = ([], False, s)"
  by (cases n) (auto simp: no_group_def)

lemma read_number_colon: "read_number 16 m z v (colon # s) = None" "read_number 10 m z v (colon # s) = None"
  "read_number 16 m z v (CHR '']'' # s) = None" "read_number 10 m z v (CHR '']'' # s) = None"
  by (auto simp: read_number_def to_digit_def split: option.splits)

lemma no_group_double: "no_group i (colon # colon # s)"
  by (simp add: no_group_def read_sep_def read_ipv4_def read_number_colon)

lemma no_group_close: "no_group i (CHR '']'' # s)"
  by (simp add: no_group_def read_sep_def read_ipv4_def read_number_colon)

lemma read_groups_more:
  assumes "length gs \<le> n" "0 < i" "ends_group s" "length gs < n \<longrightarrow> no_group (i + length gs) s"
  shows "read_groups i n (sep_text gs @ s) = (map unat gs, False, s)"
  using assms
proof (induction gs arbitrary: i n)
  case Nil
  then show ?case using read_groups_stop [of i s n] by (cases "n = 0") simp_all
next
  case (Cons g gs)
  then obtain m where n: "n = Suc m" by (cases n) auto
  have "read_groups (Suc i) m (sep_text gs @ s) = (map unat gs, False, s)"
    using Cons.prems n by (intro Cons.IH) auto
  then show ?case
    using Cons.prems n read_ipv4_hex [OF ends_sep_text, of s g gs] read_group_hex [OF ends_sep_text, of s g gs]
    by (cases m) (simp_all add: read_sep_def)
qed

lemma read_groups_first:
  assumes "length gs \<le> n" "ends_group s" "length gs < n \<longrightarrow> no_group (length gs) s"
  shows "read_groups 0 n (show_groups gs @ s) = (map unat gs, False, s)"
proof (cases gs)
  case Nil
  then show ?thesis using assms read_groups_stop [of 0 s n] by (cases "n = 0") (simp_all add: show_groups_def)
next
  case (Cons g hs)
  then obtain m where n: "n = Suc m" using assms by (cases n) auto
  have "read_groups (Suc 0) m (sep_text hs @ s) = (map unat hs, False, s)"
    using assms Cons n by (intro read_groups_more) auto
  then show ?thesis
    using assms Cons n read_ipv4_hex [OF ends_sep_text, of s g hs] read_group_hex [OF ends_sep_text, of s g hs]
    by (cases m) (simp_all add: read_sep_def join_sep_text)
qed

section \<open>The elided run\<close>

definition zeros_at :: "u16 list \<Rightarrow> nat \<times> nat \<Rightarrow> bool" where
  "zeros_at gs r = (fst r + snd r \<le> length gs \<and> (\<forall>k. fst r \<le> k \<and> k < fst r + snd r \<longrightarrow> gs ! k = 0))"

lemma zeros_at_empty: "zeros_at gs (0, 0)"
  by (simp add: zeros_at_def)

lemma zero_run_zeros:
  assumes "zeros_at (pre @ suf) best" "snd cur = 0 \<or> (fst cur + snd cur = length pre \<and> zeros_at (pre @ suf) cur)"
  shows "zeros_at (pre @ suf) (zero_run (length pre) cur best suf)"
  using assms
proof (induction suf arbitrary: pre cur best)
  case Nil
  then show ?case by (cases cur) simp
next
  case (Cons g gs)
  obtain st len where cur: "cur = (st, len)" by (cases cur)
  let ?new = "(if len = 0 then length pre else st, Suc len)"
  have gs: "pre @ g # gs = (pre @ [g]) @ gs" by simp
  have new: "g = 0 \<Longrightarrow> zeros_at (pre @ g # gs) ?new"
    using Cons.prems(2) cur by (auto simp: zeros_at_def nth_append less_Suc_eq)
  show ?case
  proof (cases "g = 0")
    case True
    have "zeros_at ((pre @ [g]) @ gs)
        (zero_run (length (pre @ [g])) ?new (if snd best < snd ?new then ?new else best) gs)"
      using Cons.prems new [OF True] cur unfolding gs by (intro Cons.IH) auto
    then show ?thesis using True cur by (simp add: Let_def)
  next
    case False
    have "zeros_at ((pre @ [g]) @ gs) (zero_run (length (pre @ [g])) (0, 0) best gs)"
      using Cons.prems(1) zeros_at_empty unfolding gs by (intro Cons.IH) auto
    then show ?thesis using False cur by simp
  qed
qed

lemma zeros_at_split:
  assumes "zeros_at gs (st, len)"
  shows "gs = take st gs @ replicate len 0 @ drop (st + len) gs"
proof -
  have "take len (drop st gs) = replicate len 0"
    using assms by (intro nth_equalityI) (auto simp: zeros_at_def)
  then show ?thesis by (metis append_take_drop_id drop_drop add.commute)
qed

section \<open>The round trip\<close>

lemma read_ipv6_plain:
  assumes "length gs = 8" "ends_group s"
  shows "read_ipv6 (show_groups gs @ s) = Some (map unat gs, s)"
  using read_groups_first [of gs 8 s] assms by (simp add: read_ipv6_def)

lemma read_ipv6_elided:
  assumes "length hs + len + length ts = 8" "2 \<le> len"
  shows "read_ipv6 (show_groups hs @ ''::'' @ show_groups ts @ CHR '']'' # s) =
    Some (map unat (hs @ replicate len 0 @ ts), CHR '']'' # s)"
proof -
  have "read_groups 0 8 (show_groups hs @ ''::'' @ show_groups ts @ CHR '']'' # s) =
      (map unat hs, False, ''::'' @ show_groups ts @ CHR '']'' # s)"
    using assms by (intro read_groups_first) (auto simp: no_group_double)
  moreover have "read_groups 0 (8 - (length hs + 1)) (show_groups ts @ CHR '']'' # s) =
      (map unat ts, False, CHR '']'' # s)"
    using assms by (intro read_groups_first) (auto simp: no_group_close)
  moreover have "8 - length hs - length ts = len" using assms by simp
  ultimately show ?thesis using assms by (simp add: read_ipv6_def)
qed

lemma octets_group: "octets g = (a, b) \<Longrightarrow> unat a * 256 + unat b = unat g"
proof -
  assume "octets g = (a, b)"
  moreover have "unat g < 65536" using unsigned_less [of g, where 'a = nat] by simp
  ultimately have "unat a = unat g div 256" "unat b = unat g mod 256"
    by (auto simp: octets_def unat_of_nat take_bit_eq_mod)
  then show ?thesis by simp
qed

lemma read_ipv6_mapped:
  assumes "octets g = (a, b)" "octets h = (c, d)"
  shows "read_ipv6 (''::ffff:'' @ show_ipv4 (a, b, c, d) @ CHR '']'' # s) =
    Some (map unat ([0, 0, 0, 0, 0, 0xFFFF, g, h] :: u16 list), CHR '']'' # s)"
proof -
  let ?v4 = "show_ipv4 (a, b, c, d) @ CHR '']'' # s"
  have ffff: "''ffff:'' @ ?v4 = hex 0xFFFF @ colon # ?v4"
    by (simp add: show_radix_def digits.simps digit_char_def char_eq_iff_code)
  have "read_groups 0 8 (''::ffff:'' @ ?v4) = ([], False, ''::ffff:'' @ ?v4)"
    by (simp add: read_groups_stop no_group_double)
  moreover have "read_groups 0 7 (''ffff:'' @ ?v4) = ([65535, unat g, unat h], True, CHR '']'' # s)"
  proof -
    have seven: "(7 :: nat) = Suc 6" "(6 :: nat) = Suc 5" by simp_all
    have "read_groups 1 6 (colon # ?v4) = ([unat g, unat h], True, CHR '']'' # s)"
      unfolding seven(2) read_groups.simps using read_ipv4_show [of "CHR '']'' # s" a b c d] octets_group [OF assms(1)] octets_group [OF assms(2)]
      by (simp add: read_sep_def del: show_ipv4.simps)
    then show ?thesis
      unfolding ffff seven(1) read_groups.simps using read_ipv4_hex [of "colon # ?v4" "0xFFFF"] read_group_hex [of "colon # ?v4" "0xFFFF"]
      by (simp add: read_sep_def del: show_ipv4.simps)
  qed
  moreover have "replicate 5 0 = [0, 0, 0, 0, 0 :: nat]" by (simp add: numeral_eq_Suc)
  ultimately show ?thesis
    by (simp add: read_ipv6_def del: show_ipv4.simps)
qed

lemma show_ipv6_colon: "length gs = 8 \<Longrightarrow> colon \<in> set (show_ipv6 gs)"
proof -
  assume "length gs = 8"
  then obtain g h hs where "gs = g # h # hs" by (metis Suc_length_conv numeral_eq_Suc pred_numeral_simps(2) semiring_norm(26,27))
  then have "colon \<in> set (show_groups gs)" by (simp add: join_sep_text)
  then show ?thesis
    by (cases "octets (gs ! 6)"; cases "octets (gs ! 7)"; cases "zero_run 0 (0, 0) (0, 0) gs")
      (simp add: show_ipv6_def Let_def)
qed

text \<open>An IPv6 address starts with its elided run or with a group.\<close>

lemma show_ipv6_start:
  assumes "length gs = 8"
  shows "(\<exists>s. show_ipv6 gs @ colon # r = colon # s) \<or> (\<exists>g s. show_ipv6 gs @ colon # r = hex g @ s \<and> ends_group s)"
proof -
  have groups: "(\<exists>s. show_groups hs @ colon # q = colon # s) \<or> (\<exists>g s. show_groups hs @ colon # q = hex g @ s \<and> ends_group s)" for hs q
  proof (cases hs)
    case (Cons g gs')
    then have "show_groups hs @ colon # q = hex g @ sep_text gs' @ colon # q" by (simp add: join_sep_text)
    then show ?thesis using ends_sep_text [of "colon # q" gs'] by auto
  qed (simp add: show_groups_def)
  obtain a b c d st len where o: "octets (gs ! 6) = (a, b)" "octets (gs ! 7) = (c, d)" "zero_run 0 (0, 0) (0, 0) gs = (st, len)"
    by (metis surj_pair)
  show ?thesis
    using groups [of gs r] groups [of "take st gs" "colon # show_groups (drop (st + len) gs) @ colon # r"]
    by (simp add: show_ipv6_def o split: if_splits)
qed

lemma read_char_hex: "read_char (CHR ''['') (hex g @ s) = None"
proof -
  obtain d ds where ds: "digits 16 (unat g) = d # ds" by (cases "digits 16 (unat g)") auto
  then have "d < 16" using digits_bound [of 16 "unat g"] by simp
  then have "CHR ''['' \<noteq> digit_char d" by (auto simp: char_eq_iff_code code_digit_char)
  then show ?thesis using ds by (simp add: show_radix_def)
qed

lemma read_ipv6_show:
  assumes "length gs = 8"
  shows "read_ipv6 (show_ipv6 gs @ CHR '']'' # s) = Some (map unat gs, CHR '']'' # s)"
proof (cases "take 6 gs = [0, 0, 0, 0, 0, 0xFFFF]")
  case True
  obtain a b c d where o: "octets (gs ! 6) = (a, b)" "octets (gs ! 7) = (c, d)" by (metis surj_pair)
  have "gs = take 6 gs @ [gs ! 6, gs ! 7]"
    using assms by (intro nth_equalityI) (auto simp: nth_append less_Suc_eq numeral_eq_Suc)
  then have gs: "gs = [0, 0, 0, 0, 0, 0xFFFF, gs ! 6, gs ! 7]" using True by simp
  have "show_ipv6 gs = ''::ffff:'' @ show_ipv4 (a, b, c, d)"
    using True assms o by (simp add: show_ipv6_def del: show_ipv4.simps)
  then show ?thesis using read_ipv6_mapped [OF o] gs by (metis append.assoc)
next
  case False
  obtain st len where z: "zero_run 0 (0, 0) (0, 0) gs = (st, len)" by (cases "zero_run 0 (0, 0) (0, 0) gs")
  have zs: "zeros_at gs (st, len)"
    using zero_run_zeros [of "[]" gs "(0, 0)" "(0, 0)"] z zeros_at_empty by simp
  show ?thesis
  proof (cases "1 < len")
    case True
    have "length (take st gs) + len + length (drop (st + len) gs) = 8"
      using zs assms by (auto simp: zeros_at_def)
    from read_ipv6_elided [OF this, of s] True False assms z zeros_at_split [OF zs] show ?thesis
      by (simp add: show_ipv6_def)
  next
    case short: False
    then show ?thesis using read_ipv6_plain [OF assms] False z by (simp add: show_ipv6_def)
  qed
qed

lemma parse_show_v6:
  assumes "length gs = 8"
  shows "parse_socket_addr (''['' @ show_ipv6 gs @ '']:'' @ show_dec (unat p)) = Some (SockV6 gs p 0 0)"
proof -
  have no_scope: "read_scope_id (CHR '']'' # s) = None" for s by (simp add: read_scope_id_def)
  have "read_sock_v4 (CHR ''['' # s) = None" for s
    by (simp add: read_sock_v4_def read_ipv4_def read_number_def to_digit_def)
  moreover have "map (of_nat \<circ> unat) gs = gs" by (simp add: comp_def)
  ultimately show ?thesis
    using read_ipv6_show [OF assms, of "colon # show_dec (unat p)"]
    by (simp add: parse_socket_addr_def read_sock_v6_def no_scope read_port_show)
qed

lemma graphic_show_groups [simp]: "graphic (show_groups gs)"
  unfolding show_groups_def by (intro graphic_join) (auto simp: list_all_iff graphic_show_radix)

lemma graphic_show_ipv6 [simp]: "graphic (show_ipv6 gs)"
  by (simp add: show_ipv6_def Let_def split: prod.splits)

lemma graphic_show_ip [simp]: "graphic (show_ip ip)"
  by (cases ip) (simp_all add: show_ip_def)

end
