(* ===== verification/Trust.thy ===== *)
theory Trust
  imports Direct_Wire Net_Addr6
begin

text \<open>
  Session descriptions and the trust they carry. A description the tunnel writes is read back by
  the tunnel's own reader with the same credentials, address and fingerprint; a fingerprint names
  one digest; and so a tunnel that answers an offer accepts the certificate behind that offer
  and no certificate with another digest.
\<close>

section \<open>Addresses in candidates\<close>

text \<open>Addresses without flow label and scope, the ones a candidate line can carry.\<close>

primrec sock_plain :: "socket_addr \<Rightarrow> bool" where
  "sock_plain (SockV4 a p) = True"
| "sock_plain (SockV6 g p f s) = (length g = 8 \<and> f = 0 \<and> s = 0)"

lemma parse_candidate_addr_show:
  "sock_plain a \<Longrightarrow> parse_candidate_addr (show_ip (sock_ip a)) (show_dec (unat (sock_port a))) = Some a"
  using parse_show_v6 show_ipv6_colon
  by (cases a) (simp_all add: show_ip_def parse_candidate_addr_show_v4, simp add: parse_candidate_addr_def)

lemma show_ip_nonempty: "sock_plain a \<Longrightarrow> show_ip (sock_ip a) \<noteq> []"
  using show_ipv6_colon by (cases a) (force simp: show_ip_def)+

section \<open>Lines the readers skip\<close>

definition skipped :: "rstr \<Rightarrow> bool" where
  "skipped l = (trim l = l \<and> strip_prefix ''a=ice-ufrag:'' l = None \<and> strip_prefix ''a=ice-pwd:'' l = None
     \<and> strip_prefix ''a=fingerprint:'' l = None \<and> strip_prefix ''a=candidate:'' l = None)"

lemma offer_line_skipped: "skipped l \<Longrightarrow> offer_line l acc = acc"
  by (simp add: skipped_def offer_line_def)

lemma answer_line_skipped: "skipped l \<Longrightarrow> answer_fingerprint_lines (l # ls) = answer_fingerprint_lines ls"
  by (simp add: skipped_def)

lemma skipped_fixed:
  "skipped ''v=0''" "skipped ''s=-''" "skipped ''t=0 0''" "skipped ''a=group:BUNDLE 0''"
  "skipped ''a=msid-semantic: WMS''" "skipped ''m=application 9 UDP/DTLS/SCTP webrtc-datachannel''"
  "skipped ''a=mid:0''" "skipped ''a=max-message-size:262144''" "skipped ''a=setup:passive''"
  "skipped ''a=setup:actpass''" "skipped ''a=end-of-candidates''"
  "skipped ''o=- 0 0 IN IP4 0.0.0.0''" "skipped ''o=- 0 0 IN IP6 ::''"
  "skipped ''c=IN IP4 0.0.0.0''" "skipped ''c=IN IP6 ::''"
  by (simp_all add: skipped_def trim_line)

lemma skipped_family:
  "sdp_family b = (family, unspecified) \<Longrightarrow>
   skipped (''o=- 0 0 IN '' @ family @ '' '' @ unspecified) \<and> skipped (''c=IN '' @ family @ '' '' @ unspecified)"
  using skipped_fixed by (cases b) (auto simp: sdp_family_def)

lemma skipped_number:
  "skipped (''a=sctp-port:'' @ show_dec n)" "skipped (''a=max-message-size:'' @ show_dec n)"
  using trim_key_value [of "''a=sctp-port:''" "show_dec n"] trim_key_value [of "''a=max-message-size:''" "show_dec n"]
  by (simp_all add: skipped_def)

lemma no_LF_family:
  "sdp_family b = (family, unspecified) \<Longrightarrow> LF \<notin> set family \<and> LF \<notin> set unspecified"
  by (cases b) (auto simp: sdp_family_def)

lemmas offer_skips = skipped_fixed [THEN offer_line_skipped] skipped_number [THEN offer_line_skipped]

section \<open>The synthesized answer\<close>

text \<open>A configuration whose strings are plain: visible ASCII, with a fingerprint.\<close>

definition config_plain :: "tunnel_config \<Rightarrow> bool" where
  "config_plain c = (graphic (cfg_ice_ufrag c) \<and> graphic (cfg_ice_pwd c) \<and> graphic (cfg_remote_fingerprint c)
     \<and> cfg_remote_fingerprint c \<noteq> [] \<and> graphic (cfg_fingerprint_algorithm c) \<and> sock_plain (cfg_remote c))"

lemma remote_candidate_line:
  "''a=candidate:1 1 udp 2130706431 '' @ ip @ '' '' @ port @ '' typ host'' =
   ''a=candidate:'' @ host_candidate ''1'' ''udp'' ''2130706431'' ip port"
  by (simp add: host_candidate_def)

lemma remote_answer_no_LF: "config_plain c \<Longrightarrow> list_all (\<lambda>l. LF \<notin> set l) (remote_answer_lines c)"
  using graphic_no_LF [OF graphic_show_dec] graphic_no_LF [OF graphic_show_ip]
  by (cases "sdp_family (is_ipv4 (cfg_remote c))")
    (simp add: remote_answer_lines_def config_plain_def graphic_no_LF no_LF_family)

lemma remote_answer_fold:
  assumes "config_plain c"
  shows "fold offer_line (remote_answer_lines c) acc =
    \<lparr>oa_ufrag = Some (cfg_ice_ufrag c), oa_pwd = Some (cfg_ice_pwd c), oa_remote = Some (cfg_remote c),
     oa_fingerprint = Some (to_lowercase (cfg_remote_fingerprint c))\<rparr>"
proof -
  obtain family unspecified where f: "sdp_family (is_ipv4 (cfg_remote c)) = (family, unspecified)"
    by (cases "sdp_family (is_ipv4 (cfg_remote c))")
  note p = assms [unfolded config_plain_def]
  have cand: "offer_line (''a=candidate:1 1 udp 2130706431 '' @ show_ip (sock_ip (cfg_remote c)) @ '' ''
         @ show_dec (unat (sock_port (cfg_remote c))) @ '' typ host'') b = b\<lparr>oa_remote := Some (cfg_remote c)\<rparr>" for b
    unfolding remote_candidate_line
    using p parse_candidate_addr_show show_ip_nonempty by (intro offer_line_candidate) auto
  show ?thesis
    unfolding remote_answer_lines_def f Let_def prod.case fold_simps cand offer_skips
      skipped_family [OF f, THEN conjunct1, THEN offer_line_skipped]
      skipped_family [OF f, THEN conjunct2, THEN offer_line_skipped]
    using p by (simp only: offer_line_ufrag offer_line_pwd offer_line_fingerprint simp_thms) simp
qed

lemma answer_skip: "strip_prefix ''a=fingerprint:'' (trim l) = None \<Longrightarrow>
    answer_fingerprint_lines (l # ls) = answer_fingerprint_lines ls"
  by simp

lemma answer_line_credential:
  assumes "graphic u"
  shows "answer_fingerprint_lines ((''a=ice-ufrag:'' @ u) # ls) = answer_fingerprint_lines ls"
    "answer_fingerprint_lines ((''a=ice-pwd:'' @ u) # ls) = answer_fingerprint_lines ls"
  using trim_key_value [of "''a=ice-ufrag:''" u] trim_key_value [of "''a=ice-pwd:''" u] assms by simp_all

lemma answer_line_fingerprint:
  assumes "graphic a" "graphic f" "f \<noteq> []"
  shows "answer_fingerprint_lines ((''a=fingerprint:'' @ a @ '' '' @ f) # ls) = Some (to_lowercase f)"
proof -
  have "split_once (CHR '' '') (a @ '' '' @ f) = Some (a, f)" using assms graphic_no_space by simp
  then show ?thesis using trim_fingerprint_line [OF assms] assms by simp
qed

lemmas answer_skips = skipped_fixed [THEN answer_line_skipped] skipped_number [THEN answer_line_skipped]

lemma remote_answer_first:
  assumes "config_plain c"
  shows "answer_fingerprint_lines (remote_answer_lines c) = Some (to_lowercase (cfg_remote_fingerprint c))"
proof -
  obtain family unspecified where f: "sdp_family (is_ipv4 (cfg_remote c)) = (family, unspecified)"
    by (cases "sdp_family (is_ipv4 (cfg_remote c))")
  note p = assms [unfolded config_plain_def]
  show ?thesis
    unfolding remote_answer_lines_def f Let_def prod.case answer_skips
      skipped_family [OF f, THEN conjunct1, THEN answer_line_skipped]
      skipped_family [OF f, THEN conjunct2, THEN answer_line_skipped]
    using p by (simp only: answer_skips answer_line_credential answer_line_fingerprint simp_thms)
qed

text \<open>
  C15. The answer the \<open>rtc\<close> backend synthesizes for its passive peer says what the configuration
  says: the reader of offers recovers the ICE credentials, the remote address, IPv4 or IPv6, and
  the fingerprint in lower case, and the reader of answers finds the same fingerprint.
\<close>

theorem remote_answer_roundtrip:
  assumes "config_plain c"
  shows "parse_offer (remote_answer_sdp c) =
      Inr \<lparr>po_ufrag = cfg_ice_ufrag c, po_pwd = cfg_ice_pwd c, po_remote = cfg_remote c,
           po_fingerprint = to_lowercase (cfg_remote_fingerprint c)\<rparr>
    \<and> parse_answer_fingerprint (remote_answer_sdp c) = Some (to_lowercase (cfg_remote_fingerprint c))"
proof
  note l = lines_crlf_text [OF remote_answer_no_LF [OF assms]]
  show "parse_offer (remote_answer_sdp c) = Inr \<lparr>po_ufrag = cfg_ice_ufrag c, po_pwd = cfg_ice_pwd c,
      po_remote = cfg_remote c, po_fingerprint = to_lowercase (cfg_remote_fingerprint c)\<rparr>"
    unfolding parse_offer_def remote_answer_sdp_def l remote_answer_fold [OF assms] by simp
  show "parse_answer_fingerprint (remote_answer_sdp c) = Some (to_lowercase (cfg_remote_fingerprint c))"
    unfolding parse_answer_fingerprint_def remote_answer_sdp_def l by (rule remote_answer_first [OF assms])
qed

theorem remote_answer_roundtrip_witness:
  "parse_answer_fingerprint (remote_answer_sdp
      (script_config\<lparr>cfg_remote := SockV6 [0x2001, 0xdb8, 0, 0, 0, 0, 0, 1] 3478 0 0\<rparr>)) = Some ''ab:cd''"
  using remote_answer_roundtrip [of "script_config\<lparr>cfg_remote := SockV6 [0x2001, 0xdb8, 0, 0, 0, 0, 0, 1] 3478 0 0\<rparr>"]
  by (simp add: config_plain_def script_config_def tunnel_config_new_def to_lowercase_def to_lower_char_def)

section \<open>The local description\<close>

text \<open>What \<open>render_sdp\<close> relies on: the agent's credentials are plain, and its first candidate is
  written in the format of RFC 8839, as a host candidate of component 1 at \<open>addr\<close>.\<close>

definition describes ::
  "('i, 'c, 'k, 'd, 's, 'a, 'e) stack \<Rightarrow> 'i \<Rightarrow> rstr \<Rightarrow> rstr \<Rightarrow> socket_addr \<Rightarrow> bool" where
  "describes E ice ufrag pwd addr = (get_local_credentials E ice = (ufrag, pwd) \<and> graphic ufrag \<and> graphic pwd
     \<and> sock_plain addr
     \<and> (\<exists>c cs f tr pr. get_local_candidates E ice = c # cs \<and> list_all (\<lambda>s. graphic s \<and> s \<noteq> []) [f, tr, pr]
          \<and> candidate_marshal E c =
              host_candidate f tr pr (show_ip (sock_ip addr)) (show_dec (unat (sock_port addr)))))"

lemma skipped_setup: "graphic s \<Longrightarrow> skipped (''a=setup:'' @ s)"
  using trim_key_value [of "''a=setup:''" s] by (simp add: skipped_def)

lemma graphic_fingerprint_hex [simp]: "graphic (fingerprint_hex h)"
  unfolding fingerprint_hex_def by (rule graphic_join) (auto simp: list_all_iff graphic_hex02)

lemma host_candidate_no_LF:
  "list_all (\<lambda>s. graphic s \<and> s \<noteq> []) [f, tr, pr] \<Longrightarrow> graphic ip \<Longrightarrow> graphic port \<Longrightarrow>
   LF \<notin> set (host_candidate f tr pr ip port)"
  by (simp add: host_candidate_def graphic_no_LF)

lemma render_sdp_parse:
  assumes "describes E (dt_ice t) ufrag pwd addr" "graphic (dt_fingerprint_algorithm t)" "graphic setup"
    and "graphic (dt_local_fingerprint t)" "dt_local_fingerprint t \<noteq> []"
  shows "parse_offer (render_sdp E setup t) =
      Inr \<lparr>po_ufrag = ufrag, po_pwd = pwd, po_remote = addr, po_fingerprint = to_lowercase (dt_local_fingerprint t)\<rparr>
    \<and> parse_answer_fingerprint (render_sdp E setup t) = Some (to_lowercase (dt_local_fingerprint t))"
proof -
  obtain c cs f tr pr where d: "get_local_credentials E (dt_ice t) = (ufrag, pwd)" "graphic ufrag" "graphic pwd"
      "sock_plain addr" "get_local_candidates E (dt_ice t) = c # cs"
      "list_all (\<lambda>s. graphic s \<and> s \<noteq> []) [f, tr, pr]"
    and m: "candidate_marshal E c = host_candidate f tr pr (show_ip (sock_ip addr)) (show_dec (unat (sock_port addr)))"
    using assms(1) unfolding describes_def by blast
  obtain family unspecified where fam: "sdp_family (is_ipv4 (dt_local_addr t)) = (family, unspecified)"
    by (cases "sdp_family (is_ipv4 (dt_local_addr t))")
  let ?ls = "render_sdp_lines (is_ipv4 (dt_local_addr t)) (dt_fingerprint_algorithm t) (dt_local_fingerprint t)
      setup (dt_sctp_port t) ufrag pwd (candidate_marshal E c)"
  have sdp: "render_sdp E setup t = crlf_text ?ls" using d by (simp add: render_sdp_def)
  have "list_all (\<lambda>l. LF \<notin> set l) ?ls"
    using d assms host_candidate_no_LF [OF d(6)] no_LF_family [OF fam]
    by (simp add: render_sdp_lines_def fam m graphic_no_LF)
  then have ls: "lines (render_sdp E setup t) = ?ls" unfolding sdp by (rule lines_crlf_text)
  have cand: "offer_line (''a=candidate:'' @ candidate_marshal E c) b = b\<lparr>oa_remote := Some addr\<rparr>" for b
    unfolding m using d parse_candidate_addr_show show_ip_nonempty by (intro offer_line_candidate) auto
  note line_facts = skipped_family [OF fam] skipped_setup [OF assms(3)]
  have "fold offer_line ?ls offer_init = \<lparr>oa_ufrag = Some ufrag, oa_pwd = Some pwd, oa_remote = Some addr,
      oa_fingerprint = Some (to_lowercase (dt_local_fingerprint t))\<rparr>"
    unfolding render_sdp_lines_def fam Let_def prod.case fold_simps cand offer_skips
      line_facts(1) [THEN conjunct1, THEN offer_line_skipped] line_facts(1) [THEN conjunct2, THEN offer_line_skipped]
      line_facts(2) [THEN offer_line_skipped]
      offer_line_fingerprint [OF assms(2,4,5)] offer_line_ufrag [OF d(2)] offer_line_pwd [OF d(3)]
    by (simp add: offer_init_def)
  moreover have "answer_fingerprint_lines ?ls = Some (to_lowercase (dt_local_fingerprint t))"
    unfolding render_sdp_lines_def fam Let_def prod.case answer_skips
      line_facts(1) [THEN conjunct1, THEN answer_line_skipped] answer_line_fingerprint [OF assms(2,4,5)] ..
  ultimately show ?thesis by (simp add: parse_offer_def parse_answer_fingerprint_def ls)
qed

section \<open>Fingerprints\<close>

lemma to_lower_digit [simp]: "d < 16 \<Longrightarrow> to_lower_char (digit_char d) = digit_char d"
  by (simp add: to_lower_char_def code_digit_char)

lemma byte_nibbles: "unat (b :: byte) div 16 < 16" "unat b mod 16 < 16"
  using unsigned_less [of b, where 'a = nat] by auto

lemma to_lowercase_hex02 [simp]: "to_lowercase (hex02 b) = hex02 b"
  using byte_nibbles [of b] by (simp add: to_lowercase_def hex02_def)

lemma to_lowercase_append [simp]: "to_lowercase (a @ b) = to_lowercase a @ to_lowercase b"
  by (simp add: to_lowercase_def)

lemma to_lowercase_fingerprint [simp]: "to_lowercase (fingerprint_hex h) = fingerprint_hex h"
proof -
  have "to_lowercase (join '':'' (map hex02 h)) = join '':'' (map hex02 h)"
  proof (induction h rule: induct_list012)
    case (3 x y zs)
    moreover have "to_lowercase (CHR '':'' # s) = CHR '':'' # to_lowercase s" for s
      by (simp add: to_lowercase_def to_lower_char_def)
    ultimately show ?case by simp
  qed (simp_all, simp add: to_lowercase_def)
  then show ?thesis by (simp add: fingerprint_hex_def)
qed

lemma digit_char_inj: "a < 16 \<Longrightarrow> b < 16 \<Longrightarrow> digit_char a = digit_char b \<Longrightarrow> a = b"
  by (metis to_digit_digit_char order_refl option.inject)

lemma hex02_inj: "hex02 a = hex02 b \<Longrightarrow> a = b"
proof -
  assume "hex02 a = hex02 b"
  then have "unat a div 16 = unat b div 16" "unat a mod 16 = unat b mod 16"
    using byte_nibbles digit_char_inj by (auto simp: hex02_def)
  then have "unat a = unat b" by (metis div_mult_mod_eq)
  then show ?thesis by (rule unsigned_word_eqI)
qed

lemma fingerprint_hex_Cons:
  "fingerprint_hex (x # xs) = hex02 x @ (if xs = [] then [] else '':'' @ fingerprint_hex xs)"
  by (cases xs) (simp_all add: fingerprint_hex_def)

lemma fingerprint_hex_inj: "fingerprint_hex h = fingerprint_hex k \<longleftrightarrow> h = k"
proof
  show "fingerprint_hex h = fingerprint_hex k \<Longrightarrow> h = k"
  proof (induction h arbitrary: k)
    case Nil
    then show ?case by (cases k) (auto simp: fingerprint_hex_Cons hex02_def, simp add: fingerprint_hex_def)
  next
    case (Cons x xs)
    then obtain y ys where k: "k = y # ys"
      by (cases k) (auto simp: fingerprint_hex_Cons hex02_def, simp add: fingerprint_hex_def)
    from Cons.prems have "hex02 x = hex02 y \<and> (xs = [] \<longleftrightarrow> ys = []) \<and> (xs \<noteq> [] \<longrightarrow> fingerprint_hex xs = fingerprint_hex ys)"
      unfolding k fingerprint_hex_Cons by (auto simp: hex02_def split: if_splits)
    then show ?case using Cons.IH hex02_inj k by (cases "xs = []") auto
  qed
qed simp

text \<open>The digest a fingerprint spells, read from the text: pairs of hexadecimal digits, upper or
  lower case, with a colon between two of them.\<close>

fun fingerprint_bytes :: "rstr \<Rightarrow> byte list option" where
  "fingerprint_bytes [x, y] = (case (to_digit 16 x, to_digit 16 y) of
       (Some a, Some b) \<Rightarrow> Some [of_nat (16 * a + b)] | _ \<Rightarrow> None)"
| "fingerprint_bytes (x # y # z # s) = (case (to_digit 16 x, to_digit 16 y, fingerprint_bytes s) of
       (Some a, Some b, Some h) \<Rightarrow> if z = CHR '':'' then Some (of_nat (16 * a + b) # h) else None
     | _ \<Rightarrow> None)"
| "fingerprint_bytes _ = None"

lemma to_digit_16: "to_digit 16 c = Some v \<longleftrightarrow> v < 16 \<and> to_lower_char c = digit_char v"
proof
  assume "to_digit 16 c = Some v"
  then show "v < 16 \<and> to_lower_char c = digit_char v"
    by (auto simp: to_digit_def to_lower_char_def digit_char_def Let_def split: if_splits)
next
  assume d: "v < 16 \<and> to_lower_char c = digit_char v"
  then have "(if 65 \<le> code c \<and> code c \<le> 90 then code c + 32 else code c) = (if v < 10 then 48 + v else 87 + v)"
    using code_to_lower_char [of c] code_digit_char [of v] by simp
  moreover have "v < 16" using d by simp
  ultimately show "to_digit 16 c = Some v"
    unfolding to_digit_def Let_def by (auto split: if_splits)
qed

lemma to_digit_16_none: "to_digit 16 c = None \<Longrightarrow> v < 16 \<Longrightarrow> to_lower_char c \<noteq> digit_char v"
  using to_digit_16 [of c v] by auto

lemma hex02_digits:
  assumes "a < 16" "b < 16"
  shows "hex02 h = [digit_char a, digit_char b] \<longleftrightarrow> h = of_nat (16 * a + b)"
proof -
  have "unat (of_nat (16 * a + b) :: byte) = 16 * a + b"
    using assms by (simp add: unsigned_of_nat take_bit_eq_mod del: of_nat_add of_nat_mult)
  then have "hex02 (of_nat (16 * a + b)) = [digit_char a, digit_char b]"
    using assms by (simp add: hex02_def)
  then show ?thesis using hex02_inj by metis
qed

lemma hex02_lower:
  "hex02 h = [to_lower_char x, to_lower_char y] \<longleftrightarrow>
     (\<exists>a b. to_digit 16 x = Some a \<and> to_digit 16 y = Some b \<and> h = of_nat (16 * a + b))"
proof (cases "\<exists>a b. to_digit 16 x = Some a \<and> to_digit 16 y = Some b")
  case True
  then obtain a b where ab: "to_digit 16 x = Some a" "to_digit 16 y = Some b" by blast
  then show ?thesis using hex02_digits [of a b h] to_digit_16 [of x a] to_digit_16 [of y b] by simp
next
  case False
  then have "to_digit 16 x = None \<or> to_digit 16 y = None" by auto
  then have "hex02 h \<noteq> [to_lower_char x, to_lower_char y]"
    using byte_nibbles [of h] to_digit_16_none by (auto simp: hex02_def dest: sym)
  with False show ?thesis by blast
qed

lemma fingerprint_hex_eq_Cons:
  "fingerprint_hex h = c # s \<longleftrightarrow> (\<exists>b bs. h = b # bs \<and> hex02 b @ (if bs = [] then [] else '':'' @ fingerprint_hex bs) = c # s)"
  by (cases h) (simp_all add: fingerprint_hex_Cons, simp add: fingerprint_hex_def)

lemma fingerprint_bytes_Some:
  "fingerprint_bytes [x, y] = Some h \<longleftrightarrow> (\<exists>b. hex02 b = [to_lower_char x, to_lower_char y] \<and> h = [b])"
  "fingerprint_bytes (x # y # z # s) = Some h \<longleftrightarrow> (\<exists>b bs. hex02 b = [to_lower_char x, to_lower_char y]
     \<and> z = CHR '':'' \<and> fingerprint_bytes s = Some bs \<and> h = b # bs)"
  unfolding hex02_lower by (auto split: option.splits)

text \<open>Lower-case comparison with the rendered digest is equality of the digests.\<close>

lemma fingerprint_bytes_exact:
  "s \<noteq> [] \<Longrightarrow> fingerprint_hex h = to_lowercase s \<longleftrightarrow> fingerprint_bytes s = Some h"
proof (induction s arbitrary: h rule: fingerprint_bytes.induct)
  case (1 x y)
  show ?case unfolding fingerprint_bytes_Some
    unfolding to_lowercase_def list.map fingerprint_hex_eq_Cons by (auto simp: hex02_def split: if_splits)
next
  case (2 x y z s)
  have colon: "to_lower_char z = CHR '':'' \<longleftrightarrow> z = CHR '':''"
    by (auto simp: char_eq_iff_code code_to_lower_char)
  have split: "fingerprint_hex h = to_lowercase (x # y # z # s) \<longleftrightarrow> (\<exists>b bs. hex02 b = [to_lower_char x, to_lower_char y]
      \<and> z = CHR '':'' \<and> bs \<noteq> [] \<and> fingerprint_hex bs = to_lowercase s \<and> h = b # bs)"
    unfolding to_lowercase_def list.map fingerprint_hex_eq_Cons
    using colon by (auto simp: hex02_def split: if_splits) blast
  have "bs \<noteq> [] \<and> fingerprint_hex bs = to_lowercase s \<longleftrightarrow> fingerprint_bytes s = Some bs" for bs
  proof (cases "s = []")
    case True
    then show ?thesis by (cases bs) (auto simp: to_lowercase_def fingerprint_hex_Cons hex02_def)
  next
    case False
    then have "bs \<noteq> []" if "fingerprint_hex bs = to_lowercase s"
      using that by (auto simp: fingerprint_hex_def to_lowercase_def)
    then show ?thesis using "2.IH" [OF False] by blast
  qed
  then show ?case unfolding split fingerprint_bytes_Some by metis
qed (auto simp: to_lowercase_def fingerprint_hex_eq_Cons hex02_def)

section \<open>Offer, answer and trust\<close>

text \<open>What a constructed tunnel holds: its own certificate with the fingerprint it advertises, and
  the verifier for the fingerprint it was configured with.\<close>

lemma prepare_dtls_trust:
  assumes "prepare_dtls E t = Inr u"
  shows "\<exists>c cert. dt_dtls_config u = Some c \<and> dc_certificate c = cert
    \<and> fingerprint_of E cert = Inr (dt_local_fingerprint u)
    \<and> dc_verify c = (if dt_disable_fingerprint_verification t then None
        else Some \<lparr>pv_expected = to_lowercase (dt_remote_fingerprint t), pv_algorithm = dt_fingerprint_algorithm t\<rparr>)
    \<and> dt_fingerprint_algorithm u = dt_fingerprint_algorithm t"
  using assms unfolding prepare_dtls_def Let_def
  by (cases "dt_role t = Offerer") (auto simp: dtls_config_of_def split: sum.splits)

definition dt_trust ::
  "('i, 'k, 'd, 's, 'a) direct_tunnel \<Rightarrow> 'k dtls_config option \<times> rstr \<times> rstr" where
  "dt_trust t = (dt_dtls_config t, dt_local_fingerprint t, dt_fingerprint_algorithm t)"

lemma build_trust:
  assumes "dt_build E r config la n = Inr t"
  shows "\<exists>c. dt_dtls_config t = Some c \<and> fingerprint_of E (dc_certificate c) = Inr (dt_local_fingerprint t)
    \<and> dc_verify c = (if cfg_disable_fingerprint_verification config then None
        else Some \<lparr>pv_expected = to_lowercase (cfg_remote_fingerprint config),
                   pv_algorithm = cfg_fingerprint_algorithm config\<rparr>)
    \<and> dt_fingerprint_algorithm t = cfg_fingerprint_algorithm config"
proof -
  from assms obtain ice u v i where p: "prepare_dtls E (initial_tunnel E r config la n ice) = Inr u"
    and c: "add_candidates E config u = Inr v" and t: "t = v\<lparr>dt_ice := i\<rparr>"
    by (auto simp: dt_build_def split: sum.splits prod.splits)
  have "dt_trust t = dt_trust u"
    using c t by (auto simp: add_candidates_def dt_trust_def split: sum.splits prod.splits)
  with prepare_dtls_trust [OF p] show ?thesis by (auto simp: initial_tunnel_def Let_def dt_trust_def)
qed

text \<open>
  C13. The verifier \<open>new\<close> installs is exact. With verification on, it accepts a peer exactly when
  the announced algorithm is \<open>sha-256\<close> and the digest of the peer's own certificate, the first of
  the list, is the byte string the announced fingerprint spells, in digits of either case; a peer
  without a certificate is refused, and with verification off there is no verifier.
\<close>

theorem verify_peer_exact:
  assumes "dt_new E config la n = Inr t"
  shows "\<exists>c. dt_dtls_config t = Some c
    \<and> (if cfg_disable_fingerprint_verification config then dc_verify c = None
       else \<exists>pv. dc_verify c = Some pv \<and> verify_peer E pv [] = Inl ErrNonCertificate
         \<and> (\<forall>cert rest. verify_peer E pv (cert # rest) = Inr () \<longleftrightarrow>
              cfg_fingerprint_algorithm config = ''sha-256''
              \<and> (\<exists>h. fingerprint_bytes (cfg_remote_fingerprint config) = Some h \<and> sha256 E cert = Inr h)))"
proof -
  obtain u i where u: "dt_build E Offerer config la n = Inr u" "t = u\<lparr>dt_ice := i\<rparr>" "check_config config la = None"
    using new_build [OF assms] by blast
  from u(3) have "trim (cfg_remote_fingerprint config) \<noteq> []" by (auto simp: check_config_def split: if_splits)
  then have ne: "cfg_remote_fingerprint config \<noteq> []" by auto
  obtain c where "dt_dtls_config t = Some c" "dc_verify c = (if cfg_disable_fingerprint_verification config then None
      else Some \<lparr>pv_expected = to_lowercase (cfg_remote_fingerprint config), pv_algorithm = cfg_fingerprint_algorithm config\<rparr>)"
    using build_trust [OF u(1)] u(2) by auto
  then show ?thesis
    using fingerprint_bytes_exact [OF ne] by (auto simp: verify_peer_def split: sum.splits)
qed

text \<open>An announced fingerprint in upper case, and the certificate it is of.\<close>

theorem verify_peer_exact_witness:
  "\<exists>t pv. dt_new scripted (script_config\<lparr>cfg_remote_fingerprint := ''B3:03''\<rparr>) script_addr 5000 = Inr t
     \<and> dc_verify (the (dt_dtls_config t)) = Some pv \<and> verify_peer scripted pv [[48, 130, 1]] = Inr ()
     \<and> verify_peer scripted pv [[48, 130]] \<noteq> Inr ()"
proof -
  let ?config = "script_config\<lparr>cfg_remote_fingerprint := ''B3:03''\<rparr>"
  have "\<exists>t. dt_new scripted ?config script_addr 5000 = Inr t"
    by (simp add: direct_eval script_eval)
  then obtain t where t: "dt_new scripted ?config script_addr 5000 = Inr t" by blast
  have "fingerprint_bytes ''B3:03'' = Some [179, 3]" by (simp add: to_digit_def)
  then show ?thesis using verify_peer_exact [OF t] t
    by (auto simp: script_config_def tunnel_config_new_def script_sha256_def)
qed

lemma offerer_build:
  "dt_offerer E config la n = Inr t \<Longrightarrow> \<exists>u i. dt_build E Offerer config la n = Inr u \<and> t = u\<lparr>dt_ice := i\<rparr>"
  using start_checks_ice by (fastforce simp: dt_offerer_def split: sum.splits)

lemma fingerprint_ofE:
  assumes "fingerprint_of E k = Inr fp"
  obtains der ders h where "certificate_chain E k = der # ders" "sha256 E der = Inr h" "fp = fingerprint_hex h"
  using assms by (auto simp: fingerprint_of_def split: list.splits sum.splits)

lemma answerer_verifier:
  assumes "dt_answerer E config la sdp n = Inr t" "parse_offer sdp = Inr offer" "po_fingerprint offer \<noteq> []"
    and "\<not> cfg_disable_fingerprint_verification config"
  shows "\<exists>c. dt_dtls_config t = Some c \<and> dc_verify c =
    Some \<lparr>pv_expected = to_lowercase (po_fingerprint offer), pv_algorithm = cfg_fingerprint_algorithm config\<rparr>"
proof -
  let ?config = "config\<lparr>cfg_ice_ufrag := po_ufrag offer, cfg_ice_pwd := po_pwd offer, cfg_remote := po_remote offer,
      cfg_remote_fingerprint := po_fingerprint offer\<rparr>"
  from assms obtain u where u: "dt_build E Answerer ?config la n = Inr u" "start_checks E u = Inr t"
    by (auto simp: dt_answerer_def Let_def split: if_splits sum.splits)
  then obtain i where "t = u\<lparr>dt_ice := i\<rparr>" using start_checks_ice by blast
  with build_trust [OF u(1)] assms(4) show ?thesis by auto
qed

text \<open>
  C12. An answerer trusts the offer's certificate and no other. Tunnel A offers with the
  description it renders, tunnel B answers that text with verification on and the \<open>sha-256\<close>
  algorithm. Then B's verifier accepts a certificate exactly when its digest is the digest of the
  certificate A presents, so B accepts A whenever both compute the same digest of A's certificate.
\<close>

theorem answerer_trusts_offerer:
  assumes "dt_offerer EA configA laA nA = Inr A" "describes EA (dt_ice A) ufrag pwd addr"
    and "cfg_fingerprint_algorithm configA = ''sha-256''"
    and "certificate_chain EA (dc_certificate (the (dt_dtls_config A))) = der # ders"
    and "sha256 EA der = Inr h" "h \<noteq> []"
    and "dt_offer_sdp EA A = Some sdp" "dt_answerer EB configB laB sdp nB = Inr B"
    and "\<not> cfg_disable_fingerprint_verification configB" "cfg_fingerprint_algorithm configB = ''sha-256''"
  shows "\<exists>pv. dc_verify (the (dt_dtls_config B)) = Some pv
    \<and> (verify_peer EB pv (cert # rest) = Inr () \<longleftrightarrow> sha256 EB cert = Inr h)"
proof -
  obtain u i where u: "dt_build EA Offerer configA laA nA = Inr u" "A = u\<lparr>dt_ice := i\<rparr>"
    using offerer_build [OF assms(1)] by blast
  then have fp: "dt_local_fingerprint A = fingerprint_hex h" and alg: "dt_fingerprint_algorithm A = ''sha-256''"
    using build_trust [OF u(1)] assms(3,4,5) by (auto elim!: fingerprint_ofE)
  have ne: "fingerprint_hex h \<noteq> []" using assms(6) by (cases h) (auto simp: fingerprint_hex_Cons hex02_def)
  have sdp: "sdp = render_sdp EA ''actpass'' A" using assms(7) by (simp add: dt_offer_sdp_def)
  obtain offer where offer: "parse_offer sdp = Inr offer" "po_fingerprint offer = fingerprint_hex h"
    using render_sdp_parse [OF assms(2), of "''actpass''"] fp alg ne unfolding sdp by simp
  then obtain c where "dt_dtls_config B = Some c" "dc_verify c =
      Some \<lparr>pv_expected = fingerprint_hex h, pv_algorithm = ''sha-256''\<rparr>"
    using answerer_verifier [OF assms(8) offer(1) _ assms(9)] assms(10) ne by auto
  then show ?thesis by (auto simp: verify_peer_def fingerprint_hex_inj split: sum.splits)
qed

text \<open>Two scripted tunnels, one answering the other's offer.\<close>

lemma script_offerer: "dt_offerer scripted script_config script_addr 5000 = Inr script_t0"
  using script_new by (simp add: dt_new_def split: option.splits)

lemma script_describes: "describes scripted (dt_ice script_t0) ''lufr'' ''lpwd'' script_addr"
proof -
  let ?c = "\<lparr>hc_address = show_ip (IpV4 (192, 0, 2, 9)), hc_port = 40000, hc_component = 1\<rparr>"
  have "get_local_candidates scripted (dt_ice script_t0) = [?c]"
    "get_local_credentials scripted (dt_ice script_t0) = (''lufr'', ''lpwd'')"
    by (simp_all add: script_states initial_tunnel_def Let_def)
  moreover have "candidate_marshal scripted ?c = host_candidate ''1'' ''udp'' ''2130706431''
      (show_ip (sock_ip script_addr)) (show_dec (unat (sock_port script_addr)))"
    by (simp add: script_addr_def)
  moreover have "list_all (\<lambda>s. graphic s \<and> s \<noteq> []) [''1'', ''udp'', ''2130706431'']" "sock_plain script_addr"
    by (simp_all add: script_addr_def)
  ultimately show ?thesis unfolding describes_def by (intro conjI exI) (assumption | simp)+
qed

lemma script_trust:
  "dt_local_fingerprint script_t0 = fingerprint_hex [179, 3]" "dt_fingerprint_algorithm script_t0 = ''sha-256''"
  "dc_certificate (the (dt_dtls_config script_t0)) = [48, 130, 1]"
  by (simp_all add: script_t0_def Let_def dtls_config_of_def initial_tunnel_def script_config_def tunnel_config_new_def)

lemma script_offer_parse:
  "parse_offer (render_sdp scripted ''actpass'' script_t0) =
     Inr \<lparr>po_ufrag = ''lufr'', po_pwd = ''lpwd'', po_remote = script_addr, po_fingerprint = fingerprint_hex [179, 3]\<rparr>"
proof -
  have "fingerprint_hex [179, 3] \<noteq> []" by (simp add: fingerprint_hex_Cons hex02_def)
  then show ?thesis using render_sdp_parse [OF script_describes, of "''actpass''"] by (simp add: script_trust)
qed

lemma script_answerer:
  "\<exists>B. dt_answerer scripted script_config script_addr (render_sdp scripted ''actpass'' script_t0) 5000 = Inr B"
  by (simp add: dt_answerer_def script_offer_parse direct_eval script_eval)

theorem answerer_trusts_offerer_witness:
  "\<exists>B pv. dt_answerer scripted script_config script_addr (render_sdp scripted ''actpass'' script_t0) 5000 = Inr B
     \<and> dc_verify (the (dt_dtls_config B)) = Some pv
     \<and> verify_peer scripted pv [[48, 130, 1]] = Inr ()"
proof -
  obtain B where B: "dt_answerer scripted script_config script_addr (render_sdp scripted ''actpass'' script_t0) 5000 = Inr B"
    using script_answerer by blast
  have d: "sha256 scripted [48, 130, 1] = Inr [179, 3]" by (simp add: script_sha256_def)
  have offer: "dt_offer_sdp scripted script_t0 = Some (render_sdp scripted ''actpass'' script_t0)"
    by (simp add: dt_offer_sdp_def)
  have chain: "certificate_chain scripted (dc_certificate (the (dt_dtls_config script_t0))) = [[48, 130, 1]]"
    by (simp add: script_trust)
  show ?thesis
    using answerer_trusts_offerer [OF script_offerer script_describes _ chain d _ offer B, of "[48, 130, 1]" "[]"] B d
    by (simp add: script_config_def tunnel_config_new_def)
qed

end
