(* ===== verification/Rtc_Tunnel.thy ===== *)
theory Rtc_Tunnel
  imports Sdp Engines Backend
begin

text \<open>
  The \<open>rtc\<close>-driven backend, \<open>Tunnel\<close> of \<open>tunnel.rs\<close>: one sans-I/O peer connection of the
  \<open>rtc\<close> crate and the tunnel's own bookkeeping around it. The crate is the argument \<open>pc_stack\<close>,
  one field per call the source makes; the record \<open>rtc_tunnel\<close> has the fields of the struct and
  each method is one definition. Errors of the crate become \<open>PeerConnection\<close> errors by the
  \<open>From\<close> conversion behind the question mark.
\<close>

section \<open>The peer connection\<close>

datatype pc_state = PcConnected | PcFailed | PcDisconnected | PcClosed | PcOtherState

datatype ice_conn_state = IceConnFailed | IceConnOther

datatype rtc_event = OnOpen | OnClose | OnDataChannelOther
  | OnConnectionStateChange pc_state | OnIceConnectionStateChange ice_conn_state | OnOther

datatype rtc_message = DataChannelMessage "byte list" | OtherMessage

datatype ice_transport = IceTransportConnected | IceTransportCompleted | IceTransportOther

datatype dtls_transport = DtlsTransportConnected | DtlsTransportOther

datatype sctp_transport = SctpTransportConnected | SctpTransportOther

datatype dtls_role = DtlsServer

record pc_settings =
  ps_disable_fingerprint_verification :: bool
  ps_answering_role :: "dtls_role option"
  ps_cipher_suites :: "cipher_suite_id list"

record channel_init =
  ci_ordered :: bool
  ci_max_retransmits :: "u16 option"
  ci_negotiated :: "u16 option"

record ('p, 'c, 'j, 'd) pc_stack =
  \<comment> \<open>std\<close>
  pcs_instant_now :: instant
  pcs_instant_now_again :: instant
  pcs_usize_max :: nat
  pcs_on_wasm32 :: bool
  \<comment> \<open>construction\<close>
  pc_build :: "pc_settings \<Rightarrow> instant \<Rightarrow> rstr + 'p"
  pc_create_data_channel :: "rstr \<Rightarrow> channel_init \<Rightarrow> 'p \<Rightarrow> (rstr + nat) \<times> 'p"
  pc_new_candidate_host :: "host_config \<Rightarrow> rstr + 'c"
  pc_candidate_json :: "'c \<Rightarrow> rstr + 'j"
  pc_add_local_candidate :: "'j \<Rightarrow> 'p \<Rightarrow> (rstr + unit) \<times> 'p"
  sd_offer :: "rstr \<Rightarrow> rstr + 'd"
  sd_answer :: "rstr \<Rightarrow> rstr + 'd"
  pc_create_offer :: "'p \<Rightarrow> (rstr + 'd) \<times> 'p"
  pc_create_answer :: "'p \<Rightarrow> (rstr + 'd) \<times> 'p"
  pc_set_local_description :: "instant \<Rightarrow> 'd \<Rightarrow> 'p \<Rightarrow> (rstr + unit) \<times> 'p"
  pc_set_remote_description :: "instant \<Rightarrow> 'd \<Rightarrow> 'p \<Rightarrow> (rstr + unit) \<times> 'p"
  pc_local_description :: "'p \<Rightarrow> rstr option"
  \<comment> \<open>the sans-I/O protocol\<close>
  pc_handle_read :: "instant \<Rightarrow> socket_addr \<Rightarrow> socket_addr \<Rightarrow> byte list \<Rightarrow> 'p \<Rightarrow> (rstr + unit) \<times> 'p"
  pc_handle_timeout :: "instant \<Rightarrow> 'p \<Rightarrow> (rstr + unit) \<times> 'p"
  pc_poll_event :: "'p \<Rightarrow> rtc_event option \<times> 'p"
  pc_poll_write :: "'p \<Rightarrow> (socket_addr \<times> byte list) option \<times> 'p"
  pc_poll_read :: "'p \<Rightarrow> rtc_message option \<times> 'p"
  pc_poll_timeout :: "'p \<Rightarrow> instant option \<times> 'p"
  pc_close :: "'p \<Rightarrow> (rstr + unit) \<times> 'p"
  \<comment> \<open>the data channel and the transports\<close>
  pc_data_channel :: "nat \<Rightarrow> 'p \<Rightarrow> bool"
  channel_is_open :: "nat \<Rightarrow> 'p \<Rightarrow> bool"
  channel_outstanding_bytes :: "nat \<Rightarrow> 'p \<Rightarrow> nat"
  channel_send :: "nat \<Rightarrow> instant \<Rightarrow> byte list \<Rightarrow> 'p \<Rightarrow> (rstr + unit) \<times> 'p"
  pc_sctp :: "'p \<Rightarrow> (ice_transport \<times> dtls_transport \<times> sctp_transport) option"
  pc_transport_cipher :: "instant \<Rightarrow> 'p \<Rightarrow> rstr option \<times> 'p"

definition pc_drains :: "('p, 'c, 'j, 'd) pc_stack \<Rightarrow> bool" where
  "pc_drains P = (drains (pc_poll_event P) \<and> drains (pc_poll_write P) \<and> drains (pc_poll_read P))"

section \<open>The tunnel\<close>

record 'p rtc_tunnel =
  rt_pc :: 'p
  rt_epoch :: instant
  rt_last_now :: instant
  rt_local_addr :: socket_addr
  rt_remote :: socket_addr
  rt_handle :: nat
  rt_handshake_deadline :: instant
  rt_send_buffer_cap :: nat
  rt_opened :: bool
  rt_finished :: bool
  rt_dropped_datagrams :: u64
  rt_events :: "event list"
  rt_trace :: handshake_trace

definition rtc_cipher_suites :: "bool \<Rightarrow> cipher_suite_id list" where
  "rtc_cipher_suites wasm32 = (if wasm32
     then [Tls_Ecdhe_Ecdsa_With_ChaCha20_Poly1305_Sha256, Tls_Ecdhe_Ecdsa_With_Aes_128_Gcm_Sha256]
     else [Tls_Ecdhe_Ecdsa_With_Aes_128_Gcm_Sha256, Tls_Ecdhe_Ecdsa_With_ChaCha20_Poly1305_Sha256])"

definition rt_instant :: "nat \<Rightarrow> 'p rtc_tunnel \<Rightarrow> instant" where
  "rt_instant now_ms t = rt_epoch t + millis now_ms"

definition rt_ms_since_epoch :: "instant \<Rightarrow> 'p rtc_tunnel \<Rightarrow> nat" where
  "rt_ms_since_epoch i t = ((i - rt_epoch t) div 1000000) mod 2 ^ 64"

definition rt_push :: "event \<Rightarrow> 'p rtc_tunnel \<Rightarrow> 'p rtc_tunnel" where
  "rt_push e t = t\<lparr>rt_events := rt_events t @ [e]\<rparr>"

definition rt_refresh_opened :: "('p, 'c, 'j, 'd) pc_stack \<Rightarrow> 'p rtc_tunnel \<Rightarrow> 'p rtc_tunnel" where
  "rt_refresh_opened P t =
     (let open = (if pc_data_channel P (rt_handle t) (rt_pc t) then channel_is_open P (rt_handle t) (rt_pc t) else False)
      in if open then t\<lparr>rt_opened := True\<rparr> else t)"

definition rt_maybe_open :: "('p, 'c, 'j, 'd) pc_stack \<Rightarrow> 'p rtc_tunnel \<Rightarrow> 'p rtc_tunnel" where
  "rt_maybe_open P t = (if rt_opened t then t
     else let t = rt_refresh_opened P t in if rt_opened t then rt_push Opened t else t)"

definition rt_finish :: "close_reason \<Rightarrow> 'p rtc_tunnel \<Rightarrow> 'p rtc_tunnel" where
  "rt_finish reason t = (if rt_finished t then t else rt_push (Closed reason) (t\<lparr>rt_finished := True\<rparr>))"

definition rt_drain_writes :: "('p, 'c, 'j, 'd) pc_stack \<Rightarrow> 'p rtc_tunnel \<Rightarrow> 'p rtc_tunnel option" where
  "rt_drain_writes P = while_let (\<lambda>t. case pc_poll_write P (rt_pc t) of
       (None, p) \<Rightarrow> Done (t\<lparr>rt_pc := p\<rparr>)
     | (Some (peer_addr, m), p) \<Rightarrow> More (rt_push (SendDatagram m) (t\<lparr>rt_pc := p\<rparr>)))"

text \<open>One event of the peer connection.\<close>

definition rt_on_event :: "('p, 'c, 'j, 'd) pc_stack \<Rightarrow> rtc_event \<Rightarrow> 'p rtc_tunnel \<Rightarrow> 'p rtc_tunnel" where
  "rt_on_event P ev t = (case ev of
       OnOpen \<Rightarrow> if \<not> rt_opened t then rt_push Opened (t\<lparr>rt_opened := True\<rparr>) else t
     | OnClose \<Rightarrow> rt_finish Remote t
     | OnDataChannelOther \<Rightarrow> t
     | OnConnectionStateChange s \<Rightarrow> (case s of
           PcConnected \<Rightarrow> rt_maybe_open P t
         | PcFailed \<Rightarrow> rt_finish Failure t
         | PcDisconnected \<Rightarrow> rt_finish Remote t
         | PcClosed \<Rightarrow> rt_finish Remote t
         | PcOtherState \<Rightarrow> t)
     | OnIceConnectionStateChange s \<Rightarrow> (case s of IceConnFailed \<Rightarrow> rt_finish Failure t | IceConnOther \<Rightarrow> t)
     | OnOther \<Rightarrow> t)"

definition rt_drain_events :: "('p, 'c, 'j, 'd) pc_stack \<Rightarrow> 'p rtc_tunnel \<Rightarrow> 'p rtc_tunnel option" where
  "rt_drain_events P = while_let (\<lambda>t. case pc_poll_event P (rt_pc t) of
       (None, p) \<Rightarrow> Done (t\<lparr>rt_pc := p\<rparr>)
     | (Some ev, p) \<Rightarrow>
         if rt_finished t then Done (t\<lparr>rt_pc := p\<rparr>) else More (rt_on_event P ev (t\<lparr>rt_pc := p\<rparr>)))"

definition rt_drain_reads :: "('p, 'c, 'j, 'd) pc_stack \<Rightarrow> 'p rtc_tunnel \<Rightarrow> 'p rtc_tunnel option" where
  "rt_drain_reads P = while_let (\<lambda>t. case pc_poll_read P (rt_pc t) of
       (None, p) \<Rightarrow> Done (t\<lparr>rt_pc := p\<rparr>)
     | (Some m, p) \<Rightarrow>
         if rt_finished t then Done (t\<lparr>rt_pc := p\<rparr>)
         else More (case m of
             DataChannelMessage d \<Rightarrow> rt_push (Message d) (t\<lparr>rt_pc := p\<rparr>)
           | OtherMessage \<Rightarrow> t\<lparr>rt_pc := p\<rparr>))"

definition rt_sample_handshake :: "('p, 'c, 'j, 'd) pc_stack \<Rightarrow> 'p rtc_tunnel \<Rightarrow> 'p rtc_tunnel" where
  "rt_sample_handshake P t = (if is_complete (rt_trace t) then t
     else
       (let now_ms = rt_ms_since_epoch (rt_last_now t) t;
            (ice, dtls, sctp) = (case pc_sctp P (rt_pc t) of
                Some (i, d, s) \<Rightarrow> (i = IceTransportConnected \<or> i = IceTransportCompleted,
                  d = DtlsTransportConnected, s = SctpTransportConnected)
              | None \<Rightarrow> (False, False, False))
        in t\<lparr>rt_trace := observe now_ms ice dtls sctp (rt_opened t) (rt_trace t)\<rparr>))"

definition rt_drain :: "('p, 'c, 'j, 'd) pc_stack \<Rightarrow> 'p rtc_tunnel \<Rightarrow> 'p rtc_tunnel option" where
  "rt_drain P t = do {
     t \<leftarrow> rt_drain_writes P t;
     t \<leftarrow> rt_drain_events P t;
     t \<leftarrow> rt_drain_writes P t;
     t \<leftarrow> rt_drain_reads P t;
     Some (rt_sample_handshake P (rt_maybe_open P t)) }"

section \<open>Construction\<close>

definition rt_epoch_of :: "('p, 'c, 'j, 'd) pc_stack \<Rightarrow> nat \<Rightarrow> instant" where
  "rt_epoch_of P now_ms = (case instant_checked_sub (pcs_instant_now P) (millis now_ms) of
       Some epoch \<Rightarrow> epoch | None \<Rightarrow> pcs_instant_now_again P)"

definition rt_try :: "(rstr + 'a) \<times> 'p \<Rightarrow> ('a \<Rightarrow> 'p \<Rightarrow> tunnel_error + 'b) \<Rightarrow> tunnel_error + 'b" where
  "rt_try m k = (case m of (Inl e, _) \<Rightarrow> Inl (tunnel_error_from e) | (Inr a, p) \<Rightarrow> k a p)"

definition rt_host_config :: "socket_addr \<Rightarrow> host_config" where
  "rt_host_config addr = \<lparr>hc_address = show_ip (sock_ip addr), hc_port = sock_port addr, hc_component = 1\<rparr>"

definition rt_add_local :: "('p, 'c, 'j, 'd) pc_stack \<Rightarrow> socket_addr \<Rightarrow> 'p \<Rightarrow> tunnel_error + 'p" where
  "rt_add_local P local_addr p =
     rt_try (pc_new_candidate_host P (rt_host_config local_addr), p) (\<lambda>candidate p.
     rt_try (pc_candidate_json P candidate, p) (\<lambda>json p.
     rt_try (pc_add_local_candidate P json p) (\<lambda>_ p. Inr p)))"

definition rt_channel_init :: "tunnel_config \<Rightarrow> channel_init" where
  "rt_channel_init config = \<lparr>ci_ordered = cfg_ordered config, ci_max_retransmits = cfg_max_retransmits config,
     ci_negotiated = Some (cfg_stream_id config)\<rparr>"

definition rt_initial :: "('p, 'c, 'j, 'd) pc_stack \<Rightarrow> tunnel_config \<Rightarrow> socket_addr \<Rightarrow> nat \<Rightarrow> nat \<Rightarrow> 'p \<Rightarrow> 'p rtc_tunnel" where
  "rt_initial P config local_addr now_ms handle p =
     (let epoch = rt_epoch_of P now_ms; now = epoch + millis now_ms in
      \<lparr>rt_pc = p, rt_epoch = epoch, rt_last_now = now, rt_local_addr = local_addr, rt_remote = cfg_remote config,
       rt_handle = handle, rt_handshake_deadline = now + millis (cfg_handshake_timeout_ms config),
       rt_send_buffer_cap = DEFAULT_SEND_BUFFER_CAP, rt_opened = False, rt_finished = False,
       rt_dropped_datagrams = 0, rt_events = [], rt_trace = trace_new now_ms\<rparr>)"

definition lift_drain :: "('p, 'c, 'j, 'd) pc_stack \<Rightarrow> tunnel_error + 'p rtc_tunnel \<Rightarrow> (tunnel_error + 'p rtc_tunnel) option" where
  "lift_drain P r = (case r of Inl e \<Rightarrow> Some (Inl e) | Inr t \<Rightarrow> map_option Inr (rt_drain P t))"

definition rt_offerer ::
  "('p, 'c, 'j, 'd) pc_stack \<Rightarrow> tunnel_config \<Rightarrow> socket_addr \<Rightarrow> nat \<Rightarrow> (tunnel_error + 'p rtc_tunnel) option" where
  "rt_offerer P config local_addr now_ms =
     (if 65534 < cfg_stream_id config then Some (Inl (Config ''stream id must be 0..=65534''))
      else
        (let now = rt_epoch_of P now_ms + millis now_ms;
             settings = \<lparr>ps_disable_fingerprint_verification = cfg_disable_fingerprint_verification config,
               ps_answering_role = None, ps_cipher_suites = rtc_cipher_suites (pcs_on_wasm32 P)\<rparr>
         in lift_drain P
           (rt_try (pc_build P settings now, ()) (\<lambda>p _.
            rt_try (pc_create_data_channel P ''relay'' (rt_channel_init config) p) (\<lambda>handle p.
            case rt_add_local P local_addr p of
              Inl e \<Rightarrow> Inl e
            | Inr p \<Rightarrow>
              rt_try (pc_create_offer P p) (\<lambda>offer p.
              rt_try (pc_set_local_description P now offer p) (\<lambda>_ p.
              Inr (rt_initial P config local_addr now_ms handle p))))))))"

definition rt_apply_remote_answer ::
  "('p, 'c, 'j, 'd) pc_stack \<Rightarrow> 'd \<Rightarrow> 'p rtc_tunnel \<Rightarrow> ((tunnel_error + unit) \<times> 'p rtc_tunnel) option" where
  "rt_apply_remote_answer P answer t = (case pc_set_remote_description P (rt_last_now t) answer (rt_pc t) of
       (Inl e, p) \<Rightarrow> Some (Inl (tunnel_error_from e), t\<lparr>rt_pc := p\<rparr>)
     | (Inr _, p) \<Rightarrow> map_option (\<lambda>t. (Inr (), t)) (rt_drain P (t\<lparr>rt_pc := p\<rparr>)))"

definition rt_apply_remote_answer_sdp ::
  "('p, 'c, 'j, 'd) pc_stack \<Rightarrow> rstr \<Rightarrow> 'p rtc_tunnel \<Rightarrow> ((tunnel_error + unit) \<times> 'p rtc_tunnel) option" where
  "rt_apply_remote_answer_sdp P sdp t = (case sd_answer P sdp of
       Inl e \<Rightarrow> Some (Inl (tunnel_error_from e), t)
     | Inr answer \<Rightarrow> rt_apply_remote_answer P answer t)"

definition rt_new ::
  "('p, 'c, 'j, 'd) pc_stack \<Rightarrow> tunnel_config \<Rightarrow> socket_addr \<Rightarrow> nat \<Rightarrow> (tunnel_error + 'p rtc_tunnel) option" where
  "rt_new P config local_addr now_ms =
     (if is_unspecified (sock_ip (cfg_remote config)) then Some (Inl (Config ''remote address must be concrete''))
      else if is_ipv4 (cfg_remote config) \<noteq> is_ipv4 local_addr
      then Some (Inl (Config ''local and remote addresses must share an address family''))
      else if trim (cfg_remote_fingerprint config) = [] then Some (Inl (Config ''remote fingerprint is required''))
      else if cfg_ice_ufrag config = [] \<or> cfg_ice_pwd config = []
      then Some (Inl (Config ''remote ICE credentials are required''))
      else if 65534 < cfg_stream_id config then Some (Inl (Config ''stream id must be 0..=65534''))
      else do {
        r \<leftarrow> rt_offerer P config local_addr now_ms;
        case r of
          Inl e \<Rightarrow> Some (Inl e)
        | Inr t \<Rightarrow> (case sd_answer P (remote_answer_sdp config) of
            Inl e \<Rightarrow> Some (Inl (tunnel_error_from e))
          | Inr answer \<Rightarrow> do {
              s \<leftarrow> rt_apply_remote_answer P answer t;
              (case s of (Inl e, _) \<Rightarrow> Some (Inl e) | (Inr _, t) \<Rightarrow> Some (Inr t)) }) })"

definition rt_answerer ::
  "('p, 'c, 'j, 'd) pc_stack \<Rightarrow> tunnel_config \<Rightarrow> socket_addr \<Rightarrow> rstr \<Rightarrow> nat \<Rightarrow> (tunnel_error + 'p rtc_tunnel) option" where
  "rt_answerer P config local_addr remote_offer_sdp now_ms =
     (if 65534 < cfg_stream_id config then Some (Inl (Config ''stream id must be 0..=65534''))
      else
        (let now = rt_epoch_of P now_ms + millis now_ms;
             settings = \<lparr>ps_disable_fingerprint_verification = cfg_disable_fingerprint_verification config,
               ps_answering_role = Some DtlsServer, ps_cipher_suites = rtc_cipher_suites (pcs_on_wasm32 P)\<rparr>
         in lift_drain P
           (rt_try (pc_build P settings now, ()) (\<lambda>p _.
            rt_try (pc_create_data_channel P ''relay'' (rt_channel_init config) p) (\<lambda>handle p.
            rt_try (sd_offer P remote_offer_sdp, p) (\<lambda>offer p.
            rt_try (pc_set_remote_description P now offer p) (\<lambda>_ p.
            case rt_add_local P local_addr p of
              Inl e \<Rightarrow> Inl e
            | Inr p \<Rightarrow>
              rt_try (pc_create_answer P p) (\<lambda>answer p.
              rt_try (pc_set_local_description P now answer p) (\<lambda>_ p.
              Inr (rt_initial P config local_addr now_ms handle p))))))))))"

section \<open>The methods the host calls\<close>

definition rt_local_description :: "('p, 'c, 'j, 'd) pc_stack \<Rightarrow> 'p rtc_tunnel \<Rightarrow> rstr option" where
  "rt_local_description P t = pc_local_description P (rt_pc t)"

abbreviation "rt_offer_sdp \<equiv> rt_local_description"

abbreviation "rt_answer_sdp \<equiv> rt_local_description"

definition rt_set_remote :: "socket_addr \<Rightarrow> 'p rtc_tunnel \<Rightarrow> 'p rtc_tunnel" where
  "rt_set_remote remote t = t\<lparr>rt_remote := remote\<rparr>"

definition rt_set_send_buffer_cap :: "nat \<Rightarrow> 'p rtc_tunnel \<Rightarrow> 'p rtc_tunnel" where
  "rt_set_send_buffer_cap cap t = t\<lparr>rt_send_buffer_cap := cap\<rparr>"

text \<open>The read that \<open>receive\<close> and \<open>receive_deferred\<close> both write out.\<close>

definition rt_handle_read :: "('p, 'c, 'j, 'd) pc_stack \<Rightarrow> instant \<Rightarrow> byte list \<Rightarrow> 'p rtc_tunnel \<Rightarrow> 'p rtc_tunnel" where
  "rt_handle_read P now datagram t =
     (let (r, p) = pc_handle_read P now (rt_local_addr t) (rt_remote t) datagram (rt_pc t);
          t = t\<lparr>rt_pc := p\<rparr>
      in if \<not> is_ok r then t\<lparr>rt_dropped_datagrams := saturating_add_u64 (rt_dropped_datagrams t) 1\<rparr> else t)"

definition rt_receive :: "('p, 'c, 'j, 'd) pc_stack \<Rightarrow> nat \<Rightarrow> byte list \<Rightarrow> 'p rtc_tunnel \<Rightarrow> 'p rtc_tunnel option" where
  "rt_receive P now_ms datagram t = (if rt_finished t then Some t
     else
       (let now = rt_instant now_ms t; t = t\<lparr>rt_last_now := now\<rparr>
        in rt_drain P (rt_handle_read P now datagram t)))"

definition rt_receive_deferred :: "('p, 'c, 'j, 'd) pc_stack \<Rightarrow> nat \<Rightarrow> byte list \<Rightarrow> 'p rtc_tunnel \<Rightarrow> 'p rtc_tunnel option" where
  "rt_receive_deferred P now_ms datagram t = (if rt_finished t then Some t
     else
       (let now = rt_instant now_ms t; t = t\<lparr>rt_last_now := now\<rparr>
        in if \<not> rt_opened t then rt_receive P now_ms datagram t
           else Some (rt_handle_read P now datagram t)))"

definition rt_finish_input_batch :: "('p, 'c, 'j, 'd) pc_stack \<Rightarrow> 'p rtc_tunnel \<Rightarrow> 'p rtc_tunnel option" where
  "rt_finish_input_batch P t = (if rt_finished t \<or> \<not> rt_opened t then Some t else rt_drain P t)"

definition rt_tick :: "('p, 'c, 'j, 'd) pc_stack \<Rightarrow> nat \<Rightarrow> 'p rtc_tunnel \<Rightarrow> 'p rtc_tunnel option" where
  "rt_tick P now_ms t = (if rt_finished t then Some t
     else
       (let now = rt_instant now_ms t;
            t = t\<lparr>rt_last_now := now\<rparr>;
            t = t\<lparr>rt_pc := snd (pc_handle_timeout P now (rt_pc t))\<rparr>
        in if \<not> rt_opened t \<and> rt_handshake_deadline t \<le> now then Some (rt_finish Timeout t)
           else rt_drain P t))"

definition rt_send :: "('p, 'c, 'j, 'd) pc_stack \<Rightarrow> byte list \<Rightarrow> 'p rtc_tunnel \<Rightarrow> (send_result \<times> 'p rtc_tunnel) option" where
  "rt_send P message t =
     (if rt_finished t then Some (NotOpen, t)
      else
        (let t = (if \<not> rt_opened t then rt_maybe_open P t else t) in
         if \<not> rt_opened t then Some (NotOpen, t)
         else if MAX_MESSAGE_SIZE < length message then Some (TooLarge, t)
         else if \<not> pc_data_channel P (rt_handle t) (rt_pc t) then Some (NotOpen, t)
         else if rt_send_buffer_cap t <
             saturating_add_usize (pcs_usize_max P) (channel_outstanding_bytes P (rt_handle t) (rt_pc t)) (length message)
         then Some (Backpressure, t)
         else
           (let (r, p) = channel_send P (rt_handle t) (rt_last_now t) message (rt_pc t) in
            map_option (\<lambda>t. (if is_ok r then Accepted else NotOpen, t)) (rt_drain P (t\<lparr>rt_pc := p\<rparr>)))))"

definition rt_close :: "('p, 'c, 'j, 'd) pc_stack \<Rightarrow> 'p rtc_tunnel \<Rightarrow> 'p rtc_tunnel" where
  "rt_close P t = (if rt_finished t then t else rt_finish Local (t\<lparr>rt_pc := snd (pc_close P (rt_pc t))\<rparr>))"

definition rt_poll_event :: "'p rtc_tunnel \<Rightarrow> event option \<times> 'p rtc_tunnel" where
  "rt_poll_event t = (let (e, q) = pop_front (rt_events t) in (e, t\<lparr>rt_events := q\<rparr>))"

definition rt_next_deadline :: "('p, 'c, 'j, 'd) pc_stack \<Rightarrow> 'p rtc_tunnel \<Rightarrow> nat option \<times> 'p rtc_tunnel" where
  "rt_next_deadline P t = (if rt_finished t then (None, t)
     else
       (let best = (if rt_opened t then None else Some (rt_handshake_deadline t));
            (timeout, p) = pc_poll_timeout P (rt_pc t);
            t = t\<lparr>rt_pc := p\<rparr>;
            best = (case timeout of
                Some i \<Rightarrow> Some (case best of None \<Rightarrow> i | Some b \<Rightarrow> min b i)
              | None \<Rightarrow> best)
        in (map_option (\<lambda>i. rt_ms_since_epoch i t) best, t)))"

definition rt_buffered_bytes :: "('p, 'c, 'j, 'd) pc_stack \<Rightarrow> 'p rtc_tunnel \<Rightarrow> nat" where
  "rt_buffered_bytes P t = (if pc_data_channel P (rt_handle t) (rt_pc t)
     then channel_outstanding_bytes P (rt_handle t) (rt_pc t) else 0)"

definition rt_negotiated_cipher_suite :: "('p, 'c, 'j, 'd) pc_stack \<Rightarrow> 'p rtc_tunnel \<Rightarrow> rstr option \<times> 'p rtc_tunnel" where
  "rt_negotiated_cipher_suite P t =
     (let (cipher, p) = pc_transport_cipher P (rt_last_now t) (rt_pc t);
          t = t\<lparr>rt_pc := p\<rparr>
      in (case cipher of None \<Rightarrow> None | Some c \<Rightarrow> if c = [] then None else Some c, t))"

definition rtc_api :: "('p, 'c, 'j, 'd) pc_stack \<Rightarrow> 'p rtc_tunnel tunnel_api" where
  "rtc_api P =
     \<lparr>new_op = rt_new P, receive_op = rt_receive P, receive_deferred_op = rt_receive_deferred P,
      finish_input_batch_op = rt_finish_input_batch P, tick_op = rt_tick P, send_op = rt_send P,
      close_op = rt_close P, poll_event_op = rt_poll_event, next_deadline_op = rt_next_deadline P,
      set_send_buffer_cap_op = rt_set_send_buffer_cap, is_open_op = rt_opened,
      is_finished_op = rt_finished, dropped_datagrams_op = rt_dropped_datagrams,
      buffered_bytes_op = rt_buffered_bytes P, handshake_trace_op = rt_trace,
      cipher_suite_op = rt_negotiated_cipher_suite P, offer_sdp_op = rt_offer_sdp P,
      set_remote_op = rt_set_remote, apply_answer_op = rt_apply_remote_answer_sdp P, set_credentials_op = (\<lambda>u p t. t),
      queue_op = rt_events\<rparr>"

end
