(* ===== verification/Rtc_Spec.thy ===== *)
theory Rtc_Spec
  imports Rtc_Tunnel Direct_Spec
begin

text \<open>
  The \<open>rtc\<close> backend keeps the same contract as the direct one: the locale of \<open>Backend\<close> is
  interpreted on its methods, every method returns when the peer connection's queues run empty,
  and the handshake budget and the answers of \<open>send\<close> are as documented.
\<close>

definition rt_view :: "'p rtc_tunnel \<Rightarrow> view" where
  "rt_view t = (rt_events t, rt_opened t, rt_finished t)"

definition rt_fixed :: "'p rtc_tunnel \<Rightarrow> (nat \<times> nat \<times> nat) \<times> nat \<times> socket_addr \<times> socket_addr" where
  "rt_fixed t = ((rt_epoch t, rt_handshake_deadline t, rt_send_buffer_cap t), rt_handle t, rt_local_addr t, rt_remote t)"

definition rt_evolves :: "'p rtc_tunnel \<Rightarrow> 'p rtc_tunnel \<Rightarrow> bool" where
  "rt_evolves t u = (advances (rt_view t) (rt_view u) \<and> rt_fixed u = rt_fixed t
     \<and> trace_le (rt_trace t) (rt_trace u) \<and> rt_dropped_datagrams t \<le> rt_dropped_datagrams u)"

lemmas rt_unfold = rt_evolves_def rt_view_def rt_fixed_def

lemma rt_evolves_refl [simp, intro]: "rt_evolves t t"
  by (simp add: rt_evolves_def)

lemma rt_evolves_trans [trans]: "rt_evolves t u \<Longrightarrow> rt_evolves u v \<Longrightarrow> rt_evolves t v"
  unfolding rt_evolves_def by (auto intro: advances_trans trace_le_trans)

lemma rt_evolves_pc [simp, intro]: "rt_evolves t (t\<lparr>rt_pc := p\<rparr>)"
  by (simp add: rt_unfold)

lemma rt_evolves_pcI: "rt_evolves t s \<Longrightarrow> rt_evolves t (s\<lparr>rt_pc := p\<rparr>)"
  using rt_evolves_trans rt_evolves_pc by blast

lemma rt_evolves_now [simp, intro]: "rt_evolves t (t\<lparr>rt_last_now := n\<rparr>)"
  by (simp add: rt_unfold)

lemma rt_evolves_push: "\<not> is_opened_event e \<Longrightarrow> \<not> is_closed_event e \<Longrightarrow> rt_evolves t (rt_push e t)"
  by (simp add: rt_unfold rt_push_def advances_plain)

lemma rt_evolves_pushI:
  "rt_evolves t s \<Longrightarrow> \<not> is_opened_event e \<Longrightarrow> \<not> is_closed_event e \<Longrightarrow> rt_evolves t (rt_push e s)"
  using rt_evolves_trans rt_evolves_push by blast

lemma rt_evolves_finish [simp, intro]: "rt_evolves t (rt_finish r t)"
  by (cases "rt_finished t") (simp_all add: rt_finish_def rt_unfold rt_push_def advances_closed)

lemma rt_evolves_open: "\<not> rt_opened t \<Longrightarrow> rt_evolves t (rt_push Opened (t\<lparr>rt_opened := True\<rparr>))"
  by (simp add: rt_unfold rt_push_def advances_opened)

lemma rt_evolves_maybe_open [simp, intro]: "rt_evolves t (rt_maybe_open P t)"
  using rt_evolves_open [of t] by (auto simp: rt_maybe_open_def rt_refresh_opened_def Let_def)

lemma rt_evolves_sample [simp, intro]: "rt_evolves t (rt_sample_handshake P t)"
  by (auto simp: rt_sample_handshake_def Let_def rt_unfold split: prod.splits)

lemma rt_evolves_on_event [simp, intro]: "rt_evolves t (rt_on_event P ev t)"
  by (auto simp: rt_on_event_def rt_evolves_open split: rtc_event.splits pc_state.splits ice_conn_state.splits)

section \<open>The loops\<close>

lemma rt_evolves_drain_writes: "rt_drain_writes P t = Some u \<Longrightarrow> rt_evolves t u"
  unfolding rt_drain_writes_def
  by (erule while_let_inv [where I = "rt_evolves t"])
    (auto simp: rt_evolves_pcI rt_evolves_pushI split: prod.splits option.splits)

lemma rt_evolves_drain_events: "rt_drain_events P t = Some u \<Longrightarrow> rt_evolves t u"
  unfolding rt_drain_events_def
  by (erule while_let_inv [where I = "rt_evolves t"])
    (auto simp: rt_evolves_pcI rt_evolves_trans [OF rt_evolves_pcI rt_evolves_on_event]
      split: prod.splits option.splits if_splits)

lemma rt_evolves_drain_reads: "rt_drain_reads P t = Some u \<Longrightarrow> rt_evolves t u"
  unfolding rt_drain_reads_def
  by (erule while_let_inv [where I = "rt_evolves t"])
    (auto simp: rt_evolves_pcI rt_evolves_pushI split: prod.splits option.splits if_splits rtc_message.splits)

lemma rt_evolves_settle: "rt_evolves t (rt_sample_handshake P (rt_maybe_open P t))"
  by (rule rt_evolves_trans [OF rt_evolves_maybe_open rt_evolves_sample])

lemma rt_evolves_drain:
  assumes "rt_drain P t = Some u"
  shows "rt_evolves t u"
proof -
  obtain t1 t2 t3 t4 where "rt_drain_writes P t = Some t1" "rt_drain_events P t1 = Some t2"
    "rt_drain_writes P t2 = Some t3" "rt_drain_reads P t3 = Some t4"
    "u = rt_sample_handshake P (rt_maybe_open P t4)"
    using assms by (auto simp: rt_drain_def bind_eq_Some_conv)
  then show ?thesis
    using rt_evolves_drain_writes rt_evolves_drain_events rt_evolves_drain_reads rt_evolves_settle rt_evolves_trans
    by metis
qed

lemma rt_drain_total:
  assumes "pc_drains P"
  shows "\<exists>u. rt_drain P t = Some u"
proof -
  have d: "drains (pc_poll_event P)" "drains (pc_poll_write P)" "drains (pc_poll_read P)"
    using assms by (simp_all add: pc_drains_def)
  obtain me :: "'a \<Rightarrow> nat" where e: "\<And>s x s'. pc_poll_event P s = (Some x, s') \<Longrightarrow> me s' < me s"
    by (rule drainsE [OF d(1)]) (rule that)
  obtain mw :: "'a \<Rightarrow> nat" where w: "\<And>s x s'. pc_poll_write P s = (Some x, s') \<Longrightarrow> mw s' < mw s"
    by (rule drainsE [OF d(2)]) (rule that)
  obtain mr :: "'a \<Rightarrow> nat" where r: "\<And>s x s'. pc_poll_read P s = (Some x, s') \<Longrightarrow> mr s' < mr s"
    by (rule drainsE [OF d(3)]) (rule that)
  have W: "\<exists>u. rt_drain_writes P v = Some u" for v
    unfolding rt_drain_writes_def
    by (rule while_let_total [where I = "\<lambda>_. True" and m = "\<lambda>t. mw (rt_pc t)"])
      (auto simp: rt_push_def split: prod.splits option.splits dest!: w)
  have pc: "rt_pc (rt_on_event P ev v) = rt_pc v" for ev v
    by (auto simp: rt_on_event_def rt_push_def rt_finish_def rt_maybe_open_def rt_refresh_opened_def Let_def
        split: rtc_event.splits pc_state.splits ice_conn_state.splits)
  have E: "\<exists>u. rt_drain_events P v = Some u" for v
    unfolding rt_drain_events_def
    by (rule while_let_total [where I = "\<lambda>_. True" and m = "\<lambda>t. me (rt_pc t)"])
      (auto simp: pc split: prod.splits option.splits if_splits dest!: e)
  have R: "\<exists>u. rt_drain_reads P v = Some u" for v
    unfolding rt_drain_reads_def
    by (rule while_let_total [where I = "\<lambda>_. True" and m = "\<lambda>t. mr (rt_pc t)"])
      (auto simp: rt_push_def split: prod.splits option.splits if_splits rtc_message.splits dest!: r)
  obtain t1 t2 t3 t4 where "rt_drain_writes P t = Some t1" "rt_drain_events P t1 = Some t2"
    "rt_drain_writes P t2 = Some t3" "rt_drain_reads P t3 = Some t4" using W E R by metis
  then show ?thesis by (simp add: rt_drain_def)
qed

section \<open>The methods\<close>

lemma rt_evolves_handle_read [simp, intro]: "rt_evolves t (rt_handle_read P now d t)"
  by (auto simp: rt_handle_read_def Let_def rt_unfold saturating_add_u64_mono split: prod.splits)

lemma rt_evolves_receive: "rt_receive P n d t = Some u \<Longrightarrow> rt_evolves t u"
  by (auto simp: rt_receive_def Let_def split: if_splits dest!: rt_evolves_drain
      intro: rt_evolves_trans [OF rt_evolves_now rt_evolves_trans [OF rt_evolves_handle_read]])

lemma rt_evolves_receive_deferred: "rt_receive_deferred P n d t = Some u \<Longrightarrow> rt_evolves t u"
  by (auto simp: rt_receive_deferred_def Let_def split: if_splits dest!: rt_evolves_receive
      intro: rt_evolves_trans [OF rt_evolves_now])

lemma rt_evolves_finish_input_batch: "rt_finish_input_batch P t = Some u \<Longrightarrow> rt_evolves t u"
  by (auto simp: rt_finish_input_batch_def split: if_splits intro: rt_evolves_drain)

lemma rt_evolves_tick: "rt_tick P n t = Some u \<Longrightarrow> rt_evolves t u"
  by (auto simp: rt_tick_def Let_def split: if_splits dest!: rt_evolves_drain
      intro: rt_evolves_trans [OF rt_evolves_pcI [OF rt_evolves_now]])

lemma rt_evolves_send: "rt_send P d t = Some (r, u) \<Longrightarrow> rt_evolves t u"
proof (cases "rt_finished t")
  case False
  assume eq: "rt_send P d t = Some (r, u)"
  let ?v = "if \<not> rt_opened t then rt_maybe_open P t else t"
  have "rt_evolves ?v u"
    using eq False unfolding rt_send_def Let_def
    by (auto split: if_splits prod.splits dest!: rt_evolves_drain intro: rt_evolves_trans [OF rt_evolves_pc])
  moreover have "rt_evolves t ?v" by simp
  ultimately show ?thesis using rt_evolves_trans by blast
qed (simp add: rt_send_def)

lemma rt_evolves_close: "rt_evolves t (rt_close P t)"
  by (auto simp: rt_close_def intro: rt_evolves_trans [OF rt_evolves_pc])

lemma rt_evolves_next_deadline: "rt_evolves t (snd (rt_next_deadline P t))"
  by (auto simp: rt_next_deadline_def Let_def split: prod.splits)

lemmas rt_evolves_calls = rt_evolves_receive rt_evolves_receive_deferred rt_evolves_finish_input_batch
  rt_evolves_tick rt_evolves_send

lemma rtc_api_simps [simp]:
  "new_op (rtc_api P) = rt_new P" "receive_op (rtc_api P) = rt_receive P"
  "receive_deferred_op (rtc_api P) = rt_receive_deferred P"
  "finish_input_batch_op (rtc_api P) = rt_finish_input_batch P" "tick_op (rtc_api P) = rt_tick P"
  "send_op (rtc_api P) = rt_send P" "close_op (rtc_api P) = rt_close P" "poll_event_op (rtc_api P) = rt_poll_event"
  "next_deadline_op (rtc_api P) = rt_next_deadline P" "set_send_buffer_cap_op (rtc_api P) = rt_set_send_buffer_cap"
  "is_open_op (rtc_api P) = rt_opened" "is_finished_op (rtc_api P) = rt_finished" "queue_op (rtc_api P) = rt_events"
  "cipher_suite_op (rtc_api P) = rt_negotiated_cipher_suite P" "dropped_datagrams_op (rtc_api P) = rt_dropped_datagrams" "handshake_trace_op (rtc_api P) = rt_trace"
  "set_remote_op (rtc_api P) = rt_set_remote" "apply_answer_op (rtc_api P) = rt_apply_remote_answer_sdp P"
  "set_credentials_op (rtc_api P) u p t = t"
  by (simp_all add: rtc_api_def)

lemma tview_rtc: "tview (rtc_api P) t = rt_view t"
  by (simp add: tview_def rt_view_def)

lemma rt_send_Accepted:
  assumes "rt_send P d t = Some (Accepted, u)"
  shows "\<not> rt_finished t \<and> rt_opened u \<and> length d \<le> MAX_MESSAGE_SIZE
    \<and> (let v = (if rt_opened t then t else rt_maybe_open P t) in rt_opened v \<and> rt_buffered_bytes P v = channel_outstanding_bytes P (rt_handle v) (rt_pc v)
        \<and> saturating_add_usize (pcs_usize_max P) (rt_buffered_bytes P v) (length d) \<le> rt_send_buffer_cap v)"
proof (cases "rt_finished t")
  case False
  let ?v = "if \<not> rt_opened t then rt_maybe_open P t else t"
  obtain p where v: "rt_opened ?v" "length d \<le> MAX_MESSAGE_SIZE" "pc_data_channel P (rt_handle ?v) (rt_pc ?v)"
    "saturating_add_usize (pcs_usize_max P) (channel_outstanding_bytes P (rt_handle ?v) (rt_pc ?v)) (length d) \<le> rt_send_buffer_cap ?v"
    "rt_drain P (?v\<lparr>rt_pc := p\<rparr>) = Some u"
    using assms False unfolding rt_send_def Let_def
    by (auto simp del: if_split_asm split: prod.splits if_splits)
  have "rt_opened u"
    using rt_evolves_drain [OF v(5)] v(1) by (auto simp: rt_unfold advances.simps)
  then show ?thesis using v False by (auto simp: Let_def rt_buffered_bytes_def)
qed (use assms in \<open>simp add: rt_send_def\<close>)

lemma rt_view_close: "rt_view (rt_close P t) =
    (if rt_finished t then rt_view t else (rt_events t @ [Closed Local], rt_opened t, True))"
  by (simp add: rt_close_def rt_finish_def rt_push_def rt_view_def)

lemma rt_view_next_deadline: "rt_view (snd (rt_next_deadline P t)) = rt_view t"
  by (auto simp: rt_next_deadline_def Let_def rt_view_def split: prod.splits)

lemma rt_view_cipher: "rt_view (snd (rt_negotiated_cipher_suite P t)) = rt_view t"
  by (auto simp: rt_negotiated_cipher_suite_def Let_def rt_view_def split: prod.splits)

lemma rt_evolves_tview: "rt_evolves t u \<Longrightarrow> advances (tview (rtc_api P) t) (tview (rtc_api P) u)"
  by (simp add: tview_rtc rt_evolves_def)

lemma rt_apply_evolves: "rt_apply_remote_answer P a t = Some (r, u) \<Longrightarrow> rt_evolves t u"
  by (auto simp: rt_apply_remote_answer_def split: prod.splits sum.splits dest!: rt_evolves_drain
      intro: rt_evolves_trans [OF rt_evolves_pc])

lemma rt_apply_sdp_evolves: "rt_apply_remote_answer_sdp P sdp t = Some (r, u) \<Longrightarrow> rt_evolves t u"
  by (auto simp: rt_apply_remote_answer_sdp_def split: sum.splits intro: rt_apply_evolves)

interpretation rtc: tunnel_backend "rtc_api P" for P
proof
  fix n d t t' r e c a u p sdp r'
  show "receive_op (rtc_api P) n d t = Some t' \<Longrightarrow> advances (tview (rtc_api P) t) (tview (rtc_api P) t')"
    by (simp add: rt_evolves_tview rt_evolves_receive)
  show "receive_deferred_op (rtc_api P) n d t = Some t' \<Longrightarrow> advances (tview (rtc_api P) t) (tview (rtc_api P) t')"
    by (simp add: rt_evolves_tview rt_evolves_receive_deferred)
  show "finish_input_batch_op (rtc_api P) t = Some t' \<Longrightarrow> advances (tview (rtc_api P) t) (tview (rtc_api P) t')"
    by (simp add: rt_evolves_tview rt_evolves_finish_input_batch)
  show "tick_op (rtc_api P) n t = Some t' \<Longrightarrow> advances (tview (rtc_api P) t) (tview (rtc_api P) t')"
    by (simp add: rt_evolves_tview rt_evolves_tick)
  show "send_op (rtc_api P) d t = Some (r, t') \<Longrightarrow> advances (tview (rtc_api P) t) (tview (rtc_api P) t')"
    using rt_evolves_tview [OF rt_evolves_send, of P d t r t' P] by simp
  show "tview (rtc_api P) (close_op (rtc_api P) t) =
      (if is_finished_op (rtc_api P) t then tview (rtc_api P) t
       else (queue_op (rtc_api P) t @ [Closed Local], is_open_op (rtc_api P) t, True))"
    by (simp add: tview_rtc rt_view_close)
  show "poll_event_op (rtc_api P) t = (e, t') \<Longrightarrow>
      pop_front (queue_op (rtc_api P) t) = (e, queue_op (rtc_api P) t')
      \<and> is_open_op (rtc_api P) t' = is_open_op (rtc_api P) t
      \<and> is_finished_op (rtc_api P) t' = is_finished_op (rtc_api P) t"
    by (auto simp: rt_poll_event_def split: prod.splits)
  show "tview (rtc_api P) (snd (next_deadline_op (rtc_api P) t)) = tview (rtc_api P) t"
    by (simp add: tview_rtc rt_view_next_deadline)
  show "tview (rtc_api P) (set_send_buffer_cap_op (rtc_api P) c t) = tview (rtc_api P) t"
    by (simp add: tview_rtc rt_view_def rt_set_send_buffer_cap_def)
  show "tview (rtc_api P) (snd (cipher_suite_op (rtc_api P) t)) = tview (rtc_api P) t"
    using rt_view_cipher [of P t] by (simp add: tview_rtc)
  show "tview (rtc_api P) (set_remote_op (rtc_api P) a t) = tview (rtc_api P) t"
    by (simp add: tview_rtc rt_view_def rt_set_remote_def)
  show "tview (rtc_api P) (set_credentials_op (rtc_api P) u p t) = tview (rtc_api P) t" by simp
  show "apply_answer_op (rtc_api P) sdp t = Some (r', t') \<Longrightarrow> advances (tview (rtc_api P) t) (tview (rtc_api P) t')"
    using rt_apply_sdp_evolves [of P sdp t r' t'] rt_evolves_tview by simp
  show "is_finished_op (rtc_api P) t \<Longrightarrow>
      receive_op (rtc_api P) n d t = Some t \<and> receive_deferred_op (rtc_api P) n d t = Some t
      \<and> finish_input_batch_op (rtc_api P) t = Some t \<and> tick_op (rtc_api P) n t = Some t
      \<and> send_op (rtc_api P) d t = Some (NotOpen, t) \<and> close_op (rtc_api P) t = t
      \<and> next_deadline_op (rtc_api P) t = (None, t)"
    by (simp add: rt_receive_def rt_receive_deferred_def rt_finish_input_batch_def rt_tick_def rt_send_def
        rt_close_def rt_next_deadline_def)
  show "send_op (rtc_api P) d t = Some (Accepted, t') \<Longrightarrow>
      \<not> is_finished_op (rtc_api P) t \<and> is_open_op (rtc_api P) t' \<and> length d \<le> MAX_MESSAGE_SIZE"
    using rt_send_Accepted [of P d t t'] by simp
qed

section \<open>Sessions\<close>

text \<open>A constructor builds the record and drains once or twice.\<close>

lemma rt_offerer_initial:
  assumes "rt_offerer P config la n = Some (Inr t)"
  shows "\<exists>h p. rt_evolves (rt_initial P config la n h p) t"
  using assms unfolding rt_offerer_def rt_try_def lift_drain_def Let_def
  by (auto split: if_splits sum.splits prod.splits dest!: rt_evolves_drain)

lemma rt_answerer_initial:
  assumes "rt_answerer P config la sdp n = Some (Inr t)"
  shows "\<exists>h p. rt_evolves (rt_initial P config la n h p) t"
  using assms unfolding rt_answerer_def rt_try_def lift_drain_def Let_def
  by (auto split: if_splits sum.splits prod.splits dest!: rt_evolves_drain)

lemma rt_new_initial:
  assumes "rt_new P config la n = Some (Inr t)"
  shows "\<exists>h p. rt_evolves (rt_initial P config la n h p) t"
proof -
  have "rt_offerer P config la n \<noteq> None"
    using assms by (cases "rt_offerer P config la n") (auto simp: rt_new_def split: if_split_asm)
  then obtain r where r: "rt_offerer P config la n = Some r" by blast
  with assms obtain u a where u: "r = Inr u" "sd_answer P (remote_answer_sdp config) = Inr a"
    by (cases r; cases "sd_answer P (remote_answer_sdp config)") (auto simp: rt_new_def split: if_split_asm)
  have "\<exists>r'. rt_apply_remote_answer P a u = Some (r', t)"
  proof (cases "rt_apply_remote_answer P a u")
    case (Some x)
    then show ?thesis using assms r u
      by (cases x; cases "fst x") (auto simp: rt_new_def split: if_split_asm)
  qed (use assms r u in \<open>auto simp: rt_new_def split: if_split_asm\<close>)
  with r u obtain r' where "rt_offerer P config la n = Some (Inr u)"
    and a: "rt_apply_remote_answer P a u = Some (r', t)" by blast
  then show ?thesis using rt_offerer_initial rt_apply_evolves [OF a] rt_evolves_trans by blast
qed

definition rt_constructed :: "('p, 'c, 'j, 'd) pc_stack \<Rightarrow> 'p rtc_tunnel \<Rightarrow> bool" where
  "rt_constructed P t = ((\<exists>config la n. rt_new P config la n = Some (Inr t))
     \<or> (\<exists>config la n. rt_offerer P config la n = Some (Inr t))
     \<or> (\<exists>config la sdp n. rt_answerer P config la sdp n = Some (Inr t)))"

lemma rt_constructed_start: "rt_constructed P t \<Longrightarrow> advances ([], False, False) (tview (rtc_api P) t)"
proof -
  assume "rt_constructed P t"
  then obtain config la n h p where "rt_evolves (rt_initial P config la n h p) t"
    unfolding rt_constructed_def by (elim disjE exE) (blast dest: rt_new_initial rt_offerer_initial rt_answerer_initial)+
  then show ?thesis by (simp add: rt_unfold tview_rtc rt_initial_def Let_def)
qed

lemma rt_reach_fixed:
  "host_reach (rtc_api P) t0 s \<Longrightarrow> rt_epoch (fst s) = rt_epoch t0 \<and> rt_handshake_deadline (fst s) = rt_handshake_deadline t0
     \<and> trace_le (rt_trace t0) (rt_trace (fst s))"
proof (induction rule: host_reach.induct)
  case (step s c s')
  obtain t out t' out' where s: "s = (t, out)" "s' = (t', out')" by (cases s; cases s') auto
  have "rt_epoch t' = rt_epoch t \<and> rt_handshake_deadline t' = rt_handshake_deadline t \<and> trace_le (rt_trace t) (rt_trace t')"
  proof (cases c)
    case PollEvent
    then show ?thesis using step.hyps(2) s
      by (auto simp: rt_poll_event_def split: prod.splits option.splits)
  next
    case (SetSendBufferCap n)
    then show ?thesis using step.hyps(2) s by (auto simp: rt_set_send_buffer_cap_def)
  next
    case CipherSuite
    then show ?thesis using step.hyps(2) s
      by (auto simp: rtc_api_def rt_negotiated_cipher_suite_def Let_def split: prod.splits)
  next
    case (SetRemote a)
    then show ?thesis using step.hyps(2) s by (auto simp: rt_set_remote_def)
  next
    case (ApplyAnswer sdp)
    then show ?thesis using step.hyps(2) s by (auto dest!: rt_apply_sdp_evolves simp: rt_unfold)
  next
    case Close
    then show ?thesis using step.hyps(2) s rt_evolves_close [of t P] by (auto simp: rt_unfold)
  next
    case NextDeadline
    then show ?thesis using step.hyps(2) s rt_evolves_next_deadline [of t P] by (auto simp: rt_unfold)
  qed (use step.hyps(2) s in \<open>auto dest!: rt_evolves_calls simp: rt_unfold\<close>)
  with step.IH s show ?case by (auto intro: trace_le_trans)
qed simp

lemma rt_step_total:
  assumes "pc_drains P"
  shows "\<exists>s'. host_step (rtc_api P) c (t, out) = Some s'"
proof -
  have r: "\<exists>u. rt_receive P n d v = Some u" for n d v
    using rt_drain_total [OF assms] by (auto simp: rt_receive_def Let_def)
  show ?thesis
  proof (cases c)
    case (ReceiveDeferred n d)
    then show ?thesis using r by (fastforce simp: rt_receive_deferred_def Let_def)
  next
    case FinishInputBatch
    then show ?thesis using rt_drain_total [OF assms] by (auto simp: rt_finish_input_batch_def)
  next
    case (Tick n)
    then show ?thesis using rt_drain_total [OF assms] by (auto simp: rt_tick_def Let_def)
  next
    case (Send d)
    then show ?thesis using rt_drain_total [OF assms] by (fastforce simp: rt_send_def Let_def split: prod.splits)
  next
    case (ApplyAnswer sdp)
    then show ?thesis using rt_drain_total [OF assms]
      by (fastforce simp: rt_apply_remote_answer_sdp_def rt_apply_remote_answer_def split: sum.splits prod.splits)
  next
    case PollEvent
    then show ?thesis by (cases "fst (rt_poll_event t)"; cases "rt_poll_event t") auto
  qed (use r in auto)
qed

lemma rt_deadline_budget:
  assumes "rt_handshake_deadline t = rt_epoch t + millis D" "D < 2 ^ 64"
  shows "\<not> rt_opened t \<and> \<not> rt_finished t \<longrightarrow> (\<exists>d. fst (rt_next_deadline P t) = Some d \<and> d \<le> D)"
proof
  assume closed: "\<not> rt_opened t \<and> \<not> rt_finished t"
  obtain x p where x: "pc_poll_timeout P (rt_pc t) = (x, p)" by (cases "pc_poll_timeout P (rt_pc t)")
  obtain m where m: "min_opt (Some (rt_handshake_deadline t)) x = Some m" "m \<le> rt_handshake_deadline t"
    using min_opt_Some by blast
  have "fst (rt_next_deadline P t) = Some (ms_since (rt_epoch t) m)"
    using closed x m(1) by (cases x) (auto simp: rt_next_deadline_def rt_ms_since_epoch_def ms_since_def min_opt_def)
  moreover have "ms_since (rt_epoch t) m \<le> D" using m(2) assms by (intro ms_since_mono) auto
  ultimately show "\<exists>d. fst (rt_next_deadline P t) = Some d \<and> d \<le> D" by blast
qed

section \<open>A scripted peer connection\<close>

text \<open>Datagrams starting with 1 open the channel, with 3 carry a message, with 5 close it; any
  other is malformed.\<close>

record pc_script =
  pcs_writes :: "(socket_addr \<times> byte list) list"
  pcs_events :: "rtc_event list"
  pcs_reads :: "rtc_message list"
  pcs_open :: bool

definition script_pc_read :: "byte list \<Rightarrow> pc_script \<Rightarrow> (rstr + unit) \<times> pc_script" where
  "script_pc_read d p = (case d of
       [] \<Rightarrow> (Inl ''empty'', p)
     | b # rest \<Rightarrow>
         if b = 1 then (Inr (), p\<lparr>pcs_open := True, pcs_events := pcs_events p @ [OnConnectionStateChange PcConnected]\<rparr>)
         else if b = 3 then (Inr (), p\<lparr>pcs_reads := pcs_reads p @ [DataChannelMessage rest]\<rparr>)
         else if b = 5 then (Inr (), p\<lparr>pcs_events := pcs_events p @ [OnClose], pcs_writes := pcs_writes p @ [(script_addr, [6])]\<rparr>)
         else (Inl ''malformed'', p))"

definition scripted_pc :: "(pc_script, host_config, host_config, rstr) pc_stack" where
  "scripted_pc = \<lparr>
     pcs_instant_now = millis 5000, pcs_instant_now_again = millis 5000, pcs_usize_max = 2 ^ 32 - 1,
     pcs_on_wasm32 = False,
     pc_build = (\<lambda>s now. Inr \<lparr>pcs_writes = [], pcs_events = [], pcs_reads = [], pcs_open = False\<rparr>),
     pc_create_data_channel = (\<lambda>l i p. (Inr 1, p)), pc_new_candidate_host = Inr, pc_candidate_json = Inr,
     pc_add_local_candidate = (\<lambda>j p. (Inr (), p)), sd_offer = Inr, sd_answer = Inr,
     pc_create_offer = (\<lambda>p. (Inr ''offer'', p)), pc_create_answer = (\<lambda>p. (Inr ''answer'', p)),
     pc_set_local_description = (\<lambda>now d p. (Inr (), p)),
     pc_set_remote_description = (\<lambda>now d p. (Inr (), p\<lparr>pcs_writes := pcs_writes p @ [(script_addr, [0])]\<rparr>)),
     pc_local_description = (\<lambda>p. Some ''offer''), pc_handle_read = (\<lambda>now l r d p. script_pc_read d p),
     pc_handle_timeout = (\<lambda>now p. (Inr (), p)),
     pc_poll_event = script_poll pcs_events (\<lambda>xs p. p\<lparr>pcs_events := xs\<rparr>),
     pc_poll_write = script_poll pcs_writes (\<lambda>xs p. p\<lparr>pcs_writes := xs\<rparr>),
     pc_poll_read = script_poll pcs_reads (\<lambda>xs p. p\<lparr>pcs_reads := xs\<rparr>),
     pc_poll_timeout = (\<lambda>p. (None, p)), pc_close = (\<lambda>p. (Inr (), p)),
     pc_data_channel = (\<lambda>h p. True), channel_is_open = (\<lambda>h p. pcs_open p),
     channel_outstanding_bytes = (\<lambda>h p. sum_list (map (\<lambda>w. length (snd w)) (pcs_writes p))),
     channel_send = (\<lambda>h now m p. (Inr (), p\<lparr>pcs_writes := pcs_writes p @ [(script_addr, 3 # m)]\<rparr>)),
     pc_sctp = (\<lambda>p. None), pc_transport_cipher = (\<lambda>now p. (Some [], p))\<rparr>"

lemma scripted_pc_drains: "pc_drains scripted_pc"
  unfolding pc_drains_def scripted_pc_def by (auto intro!: drains_script_poll)

definition script_r0 :: "pc_script rtc_tunnel" where
  "script_r0 = (rt_initial scripted_pc script_config script_addr 5000 1
     \<lparr>pcs_writes = [], pcs_events = [], pcs_reads = [], pcs_open = False\<rparr>)\<lparr>rt_events := [SendDatagram [0]]\<rparr>"

lemmas rtc_eval = rt_new_def rt_offerer_def rt_try_def rt_add_local_def rt_apply_remote_answer_def lift_drain_def
  rt_drain_def rt_drain_writes_def rt_drain_events_def rt_drain_reads_def rt_maybe_open_def rt_refresh_opened_def
  rt_sample_handshake_def rt_push_def rt_on_event_def rt_finish_def rt_handle_read_def rt_receive_def
  rt_receive_deferred_def rt_finish_input_batch_def rt_send_def rt_instant_def rt_ms_since_epoch_def rt_initial_def rt_epoch_of_def instant_checked_sub_def
  script_pc_read_def script_poll_def script_config_def script_addr_def tunnel_config_new_def is_unspecified_def
  observe_def is_complete_def trace_new_def millis_def while_let.simps Let_def

lemma script_rtc_new: "rt_new scripted_pc script_config script_addr 5000 = Some (Inr script_r0)"
  by (simp add: scripted_pc_def script_r0_def rtc_eval)

lemma script_rtc_constructed: "rt_constructed scripted_pc script_r0"
  unfolding rt_constructed_def using script_rtc_new by blast

lemma script_rtc_receive:
  "map_option rt_events (rt_receive scripted_pc 5100 [1] script_r0) = Some [SendDatagram [0], Opened]"
  by (simp add: scripted_pc_def script_r0_def rtc_eval)

lemma script_rtc_send:
  "map_option fst (Option.bind (rt_receive scripted_pc 5100 [1] script_r0) (rt_send scripted_pc [9])) = Some Accepted"
  by (simp add: scripted_pc_def script_r0_def rtc_eval MAX_MESSAGE_SIZE_def DEFAULT_SEND_BUFFER_CAP_def
      saturating_add_usize_def)

section \<open>Properties\<close>

text \<open>
  C19. The \<open>rtc\<close> backend keeps the same lifecycle: in every session of a tunnel its constructors
  return, the events handed out and queued hold one \<open>Opened\<close> exactly when the tunnel is open and
  one \<open>Closed\<close> exactly when it is finished, although construction itself already drains events.
\<close>

theorem rtc_lifecycle_once:
  assumes "rt_constructed P t0" "host_reach (rtc_api P) t0 (t, out)"
  shows "length (filter is_opened_event (out @ rt_events t)) = (if rt_opened t then 1 else 0)
    \<and> length (filter is_closed_event (out @ rt_events t)) = (if rt_finished t then 1 else 0)
    \<and> trace_le (rt_trace t0) (rt_trace t)"
  using rtc.reach_counts [OF assms(2) rt_constructed_start [OF assms(1)]] rt_reach_fixed [OF assms(2)] by simp

theorem rtc_lifecycle_once_witness:
  "\<exists>u. rt_receive scripted_pc 5100 [1] script_r0 = Some u \<and> length (filter is_opened_event (rt_events u)) = (if rt_opened u then 1 else 0)"
proof -
  obtain u where u: "rt_receive scripted_pc 5100 [1] script_r0 = Some u" using script_rtc_receive by auto
  have "host_reach (rtc_api scripted_pc) script_r0 (u, [])"
    by (rule host_reach.step [OF host_reach.start, where c = "Receive 5100 [1]"]) (simp add: u)
  from rtc_lifecycle_once [OF script_rtc_constructed this] u show ?thesis by simp
qed

text \<open>
  C20. The \<open>rtc\<close> backend always returns and honours its budget: when the peer connection's queues
  run empty under polling, every method returns in any state; a tick at or after
  \<open>n0 + handshake_timeout_ms\<close> leaves the tunnel open or finished; and until then
  \<open>next_deadline\<close> names a time within the budget.
\<close>

theorem rtc_handshake_budget:
  assumes "pc_drains P" "rt_new P config la n0 = Some (Inr t0)" "host_reach (rtc_api P) t0 (t, out)"
    and "n0 + cfg_handshake_timeout_ms config < 2 ^ 64"
  shows "(\<exists>s'. host_step (rtc_api P) c (t, out) = Some s')
    \<and> (n0 + cfg_handshake_timeout_ms config \<le> n \<longrightarrow> (\<exists>u. rt_tick P n t = Some u \<and> (rt_opened u \<or> rt_finished u)))
    \<and> (\<not> rt_opened t \<and> \<not> rt_finished t \<longrightarrow>
        (\<exists>d. fst (rt_next_deadline P t) = Some d \<and> d \<le> n0 + cfg_handshake_timeout_ms config))"
proof -
  let ?D = "n0 + cfg_handshake_timeout_ms config"
  obtain h p where i: "rt_evolves (rt_initial P config la n0 h p) t0" using rt_new_initial [OF assms(2)] by blast
  have dl: "rt_handshake_deadline t = rt_epoch t + millis ?D"
    using i rt_reach_fixed [OF assms(3)] by (auto simp: rt_unfold rt_initial_def Let_def millis_def)
  have ret: "\<exists>s'. host_step (rtc_api P) c (t, out) = Some s'" for c
    by (rule rt_step_total [OF assms(1)])
  have tick: "rt_tick P n t = Some u \<Longrightarrow> ?D \<le> n \<Longrightarrow> rt_opened u \<or> rt_finished u" for u
    using dl by (auto simp: rt_tick_def rt_instant_def rt_finish_def rt_push_def Let_def split: if_splits
        dest!: rt_evolves_drain) (auto simp: rt_unfold advances.simps)
  have "\<exists>u. rt_tick P n t = Some u" using ret [of "Tick n"] by auto
  moreover have "\<not> rt_opened t \<and> \<not> rt_finished t \<longrightarrow> (\<exists>d. fst (rt_next_deadline P t) = Some d \<and> d \<le> ?D)"
    by (rule rt_deadline_budget [OF dl assms(4)])
  ultimately show ?thesis using ret tick by blast
qed

theorem rtc_handshake_budget_witness:
  "\<exists>u. rt_tick scripted_pc 35000 script_r0 = Some u \<and> (rt_opened u \<or> rt_finished u)"
  using rtc_handshake_budget [OF scripted_pc_drains script_rtc_new host_reach.start, of PollEvent 35000]
  by (simp add: script_config_def tunnel_config_new_def)

text \<open>
  C21. A message the \<open>rtc\<close> backend accepts is within the limit of the channel and, together with the
  bytes the channel already held, within the send buffer cap, for any cap below the largest
  \<open>usize\<close>; the tunnel was not finished and is open.
\<close>

theorem rtc_send_accepted:
  assumes "rt_send P d t = Some (Accepted, u)" "rt_send_buffer_cap t < pcs_usize_max P"
  shows "\<not> rt_finished t \<and> rt_opened u \<and> length d \<le> MAX_MESSAGE_SIZE
    \<and> rt_buffered_bytes P t + length d \<le> rt_send_buffer_cap t"
proof -
  let ?v = "if rt_opened t then t else rt_maybe_open P t"
  have same: "rt_buffered_bytes P ?v = rt_buffered_bytes P t" "rt_send_buffer_cap ?v = rt_send_buffer_cap t"
    by (simp_all add: rt_maybe_open_def rt_refresh_opened_def rt_push_def rt_buffered_bytes_def Let_def)
  show ?thesis
    using rt_send_Accepted [OF assms(1)] saturating_add_usize_le [OF _ assms(2)] same by (auto simp: Let_def)
qed

theorem rtc_send_accepted_witness:
  "\<exists>t u. rt_receive scripted_pc 5100 [1] script_r0 = Some t \<and> rt_send scripted_pc [9] t = Some (Accepted, u)
     \<and> rt_buffered_bytes scripted_pc t + 1 \<le> rt_send_buffer_cap t"
proof -
  obtain t where t: "rt_receive scripted_pc 5100 [1] script_r0 = Some t" using script_rtc_receive by auto
  obtain u where u: "rt_send scripted_pc [9] t = Some (Accepted, u)"
    using script_rtc_send t by auto
  have "rt_send_buffer_cap t < pcs_usize_max scripted_pc"
    using rt_evolves_receive [OF t] by (simp add: rt_unfold script_r0_def rt_initial_def scripted_pc_def Let_def DEFAULT_SEND_BUFFER_CAP_def)
  from rtc_send_accepted [OF u this] t u show ?thesis by auto
qed

section \<open>Departures from the documentation\<close>

text \<open>\<open>Closed\<close> is documented as final; a datagram the peer connection wrote together with its close
  event is queued after it.\<close>

lemma rtc_datagram_after_closed:
  "map_option rt_events (Option.bind (rt_receive scripted_pc 5100 [1] script_r0)
      (\<lambda>t. rt_receive (scripted_pc\<lparr>pc_poll_event := \<lambda>p. case pcs_events p of [] \<Rightarrow> (None, p)
          | e # es \<Rightarrow> (Some e, p\<lparr>pcs_events := es, pcs_writes := pcs_writes p @ [(script_addr, [7])]\<rparr>)\<rparr>) 5200 [5] t)) =
   Some [SendDatagram [0], Opened, SendDatagram [6], Closed Remote, SendDatagram [7]]"
  by (simp add: scripted_pc_def script_r0_def rtc_eval)

end
