(* ===== verification/Wasm_Spec.thy ===== *)
theory Wasm_Spec
  imports Complex_Main Wasm_Abi Trust Rtc_Spec
begin

text \<open>
  The ABI layer neither loses, invents nor reorders anything: every session of ABI calls is a
  session of host calls on the tunnel behind the handle, with the same events, so what the
  backends promise holds across the boundary. Null handles are inert, and numbers, descriptors
  and buffers carry what the core computed.
\<close>

section \<open>Reading events on the other side\<close>

definition decode_reason :: "u32 \<Rightarrow> close_reason" where
  "decode_reason r = (if r = 0 then Local else if r = 1 then Remote else if r = 2 then Timeout else Failure)"

definition decode_event :: "u32 \<Rightarrow> byte list \<Rightarrow> u32 \<Rightarrow> event option" where
  "decode_event kind payload reason =
     (if kind = EVENT_DATAGRAM then Some (SendDatagram payload)
      else if kind = EVENT_OPENED then Some Opened
      else if kind = EVENT_MESSAGE then Some (Message payload)
      else if kind = EVENT_CLOSED then Some (Closed (decode_reason reason)) else None)"

lemma decode_reason_code [simp]: "decode_reason (close_reason_code r) = r"
  by (cases r) (simp_all add: decode_reason_def)

fun decode_descriptors :: "memory \<Rightarrow> u32 list \<Rightarrow> event option list" where
  "decode_descriptors mem (kind # addr # len # aux # ds) =
     decode_event kind (slice_from mem addr (unat len)) aux # decode_descriptors mem ds"
| "decode_descriptors mem _ = []"

primrec payload :: "event \<Rightarrow> byte list" where
  "payload (SendDatagram b) = b"
| "payload Opened = []"
| "payload (Message b) = b"
| "payload (Closed r) = []"

text \<open>The payload of the event lies at the address the descriptor names.\<close>

definition lies_at :: "memory \<Rightarrow> u32 \<Rightarrow> event \<Rightarrow> bool" where
  "lies_at mem addr e = (length (payload e) < 2 ^ 32 \<and> slice_from mem addr (length (payload e)) = payload e)"

lemma decode_descriptor:
  "lies_at mem addr e \<Longrightarrow> decode_descriptors mem (descriptor addr e @ ds) = Some e # decode_descriptors mem ds"
  by (cases e) (simp_all add: lies_at_def decode_event_def unat_of_nat take_bit_eq_mod)

lemma decode_all:
  "(\<And>i. i < length es \<Longrightarrow> lies_at mem (as_ptr (k + i)) (es ! i)) \<Longrightarrow>
   decode_descriptors mem (concat (map (\<lambda>(i, e). descriptor (as_ptr i) e) (enumerate k es))) = map Some es"
proof (induction es arbitrary: k)
  case (Cons e es)
  have "lies_at mem (as_ptr (Suc k + i)) (es ! i)" if "i < length es" for i
    using Cons.prems [of "Suc i"] that by simp
  with Cons.IH [of "Suc k"] Cons.prems [of 0] show ?case by (simp add: decode_descriptor)
qed simp

lemma length_descriptor: "length (descriptor a e) = 4"
  by (cases e) simp_all

lemma length_descriptors: "length (concat (map (\<lambda>(i, e). descriptor (as_ptr i) e) (enumerate k es))) = 4 * length es"
  by (induction es arbitrary: k) (simp_all add: length_descriptor)

section \<open>The polling loop\<close>

context tunnel_backend
begin

lemma drain_loop_queue:
  "drain_loop api n t = (es, u) \<Longrightarrow>
   es = take n (queue_op api t) \<and> queue_op api u = drop n (queue_op api t)
   \<and> is_open_op api u = is_open_op api t \<and> is_finished_op api u = is_finished_op api t"
proof (induction n arbitrary: t es u)
  case (Suc n)
  obtain e v where p: "poll_event_op api t = (e, v)" by (cases "poll_event_op api t")
  show ?case
  proof (cases "queue_op api t")
    case Nil
    then show ?thesis using Suc.prems p poll_pops [OF p] by auto
  next
    case (Cons x q)
    then have e: "e = Some x" "queue_op api v = q" using poll_pops [OF p] by auto
    obtain fs w where f: "drain_loop api n v = (fs, w)" by (cases "drain_loop api n v")
    then have "es = x # fs" "u = w" using Suc.prems p e by auto
    then show ?thesis using Suc.IH [OF f] e Cons poll_pops [OF p] by simp
  qed
qed simp

lemma drain_loop_reach:
  "host_reach api t0 (t, out) \<Longrightarrow> drain_loop api n t = (es, u) \<Longrightarrow> host_reach api t0 (u, out @ es)"
proof (induction n arbitrary: t out es u)
  case (Suc n)
  obtain e v where p: "poll_event_op api t = (e, v)" by (cases "poll_event_op api t")
  show ?case
  proof (cases e)
    case None
    then have "es = []" "u = v" using Suc.prems p by auto
    moreover have "host_reach api t0 (v, out)"
      using host_reach.step [OF Suc.prems(1), where c = PollEvent] p None by simp
    ultimately show ?thesis by simp
  next
    case (Some x)
    obtain fs w where f: "drain_loop api n v = (fs, w)" by (cases "drain_loop api n v")
    have "host_reach api t0 (v, out @ [x])"
      using host_reach.step [OF Suc.prems(1), where c = PollEvent] p Some by simp
    from Suc.IH [OF this f] show ?thesis using Suc.prems p Some f by auto
  qed
qed simp

end

section \<open>Sessions across the boundary\<close>

text \<open>The calls of the ABI that change a handle; a call that reads memory carries it.\<close>

datatype abi_call = AbiInput memory f64 u32 nat | AbiInputDeferred memory f64 u32 nat | AbiFinishInputBatch
  | AbiTick f64 | AbiSend memory u32 nat | AbiNextDeadline | AbiClose | AbiSetSendBufferCap nat
  | AbiPollEvent | AbiDrainEvents "nat \<Rightarrow> u32" u32 | AbiCipherLen | AbiCipherCopy u32 nat memory

text \<open>One call on a handle, with the events the JavaScript side has read so far.\<close>

fun abi_step ::
  "'t tunnel_api \<Rightarrow> abi_call \<Rightarrow> 't tunnel_handle \<times> event list \<Rightarrow> ('t tunnel_handle \<times> event list) option" where
  "abi_step api (AbiInput mem n p l) (h, out) =
     map_option (\<lambda>h. (the h, out)) (rtc_tunnel_input api mem (Some h) n p l)"
| "abi_step api (AbiInputDeferred mem n p l) (h, out) =
     map_option (\<lambda>h. (the h, out)) (rtc_tunnel_input_deferred api mem (Some h) n p l)"
| "abi_step api AbiFinishInputBatch (h, out) =
     map_option (\<lambda>h. (the h, out)) (rtc_tunnel_finish_input_batch api (Some h))"
| "abi_step api (AbiTick n) (h, out) = map_option (\<lambda>h. (the h, out)) (rtc_tunnel_tick api (Some h) n)"
| "abi_step api (AbiSend mem p l) (h, out) =
     map_option (\<lambda>(r, h). (the h, out)) (rtc_tunnel_send api mem (Some h) p l)"
| "abi_step api AbiNextDeadline (h, out) = Some (the (snd (rtc_tunnel_next_deadline api (Some h))), out)"
| "abi_step api AbiClose (h, out) = Some (the (rtc_tunnel_close api (Some h)), out)"
| "abi_step api (AbiSetSendBufferCap c) (h, out) = Some (the (rtc_tunnel_set_send_buffer_cap api (Some h) c), out)"
| "abi_step api AbiPollEvent (h, out) =
     (let h' = snd (rtc_tunnel_poll_event api (Some h)) in
      Some (the h', out @ (case decode_event (rtc_tunnel_event_kind h') (th_event_payload (the h')) (rtc_tunnel_event_reason h') of
          None \<Rightarrow> [] | Some e \<Rightarrow> [e])))"
| "abi_step api (AbiDrainEvents as_ptr m) (h, out) =
     (let h' = the (snd (rtc_tunnel_drain_events api as_ptr (Some h) m)) in Some (h', out @ th_drained h'))"
| "abi_step api AbiCipherLen (h, out) = Some (the (snd (rtc_tunnel_cipher_len api (Some h))), out)"
| "abi_step api (AbiCipherCopy b c mem) (h, out) =
     Some (the (fst (snd (rtc_tunnel_cipher_copy api (Some h) b c mem))), out)"

inductive abi_reach :: "'t tunnel_api \<Rightarrow> 't tunnel_handle \<Rightarrow> 't tunnel_handle \<times> event list \<Rightarrow> bool" for api h0 where
  abi_start: "abi_reach api h0 (h0, [])"
| abi_next: "abi_reach api h0 s \<Longrightarrow> abi_step api c s = Some s' \<Longrightarrow> abi_reach api h0 s'"

lemma poll_event_decodes:
  "rtc_tunnel_poll_event api (Some h) = (kind, h') \<Longrightarrow>
   \<exists>h''. h' = Some h'' \<and> th_tunnel h'' = snd (poll_event_op api (th_tunnel h)) \<and> th_event_kind h'' = kind
     \<and> decode_event kind (th_event_payload h'') (th_event_reason h'') = fst (poll_event_op api (th_tunnel h))"
proof -
  assume eq: "rtc_tunnel_poll_event api (Some h) = (kind, h')"
  obtain e t where p: "poll_event_op api (th_tunnel h) = (e, t)" by (cases "poll_event_op api (th_tunnel h)")
  show ?thesis
  proof (cases e)
    case None
    then show ?thesis using eq p by (auto simp: rtc_tunnel_poll_event_def decode_event_def Let_def)
  next
    case (Some ev)
    then show ?thesis using eq p
      by (cases ev) (auto simp: rtc_tunnel_poll_event_def decode_event_def Let_def)
  qed
qed

lemma cipher_name_tunnel:
  "th_tunnel (snd (cipher_name api h)) = th_tunnel h
   \<or> th_tunnel (snd (cipher_name api h)) = snd (cipher_suite_op api (th_tunnel h))"
  by (auto simp: cipher_name_def Let_def split: prod.splits)

context tunnel_backend
begin

lemma cipher_reach:
  "host_reach api t0 (th_tunnel h, out) \<Longrightarrow> host_reach api t0 (th_tunnel (snd (cipher_name api h)), out)"
  using cipher_name_tunnel [of api h] host_reach.step [of api t0 "(th_tunnel h, out)" CipherSuite]
  by (auto simp del: host_reach.intros)

lemma call_reach:
  assumes "host_reach api t0 s" "host_step api c s = Some s'"
  shows "host_reach api t0 s'"
  using assms by (rule host_reach.step)

lemma abi_step_reach:
  assumes r: "host_reach api t0 (th_tunnel h, out)" and s: "abi_step api c (h, out) = Some (h', out')"
  shows "host_reach api t0 (th_tunnel h', out')"
proof (cases c)
  case (AbiInput mem n p l)
  then show ?thesis using s call_reach [OF r, of "Receive (f64_as_u64 (f64_max_zero n)) (slice_from mem p l)"]
    by (auto simp: rtc_tunnel_input_def on_tunnel_def)
next
  case (AbiInputDeferred mem n p l)
  then show ?thesis using s call_reach [OF r, of "ReceiveDeferred (f64_as_u64 (f64_max_zero n)) (slice_from mem p l)"]
    by (auto simp: rtc_tunnel_input_deferred_def on_tunnel_def)
next
  case AbiFinishInputBatch
  then show ?thesis using s call_reach [OF r, of FinishInputBatch]
    by (auto simp: rtc_tunnel_finish_input_batch_def on_tunnel_def)
next
  case (AbiTick n)
  then show ?thesis using s call_reach [OF r, of "Tick (f64_as_u64 (f64_max_zero n))"]
    by (auto simp: rtc_tunnel_tick_def on_tunnel_def)
next
  case (AbiSend mem p l)
  then show ?thesis using s call_reach [OF r, of "Send (slice_from mem p l)"]
    by (auto simp: rtc_tunnel_send_def)
next
  case AbiNextDeadline
  then show ?thesis using s call_reach [OF r, of NextDeadline]
    by (auto simp: rtc_tunnel_next_deadline_def Let_def split: prod.splits)
next
  case AbiClose
  then show ?thesis using s call_reach [OF r, of Close] by (auto simp: rtc_tunnel_close_def)
next
  case (AbiSetSendBufferCap n)
  then show ?thesis using s call_reach [OF r, of "SetSendBufferCap n"]
    by (auto simp: rtc_tunnel_set_send_buffer_cap_def)
next
  case AbiPollEvent
  obtain kind x where p: "rtc_tunnel_poll_event api (Some h) = (kind, x)" by (cases "rtc_tunnel_poll_event api (Some h)")
  then show ?thesis
    using s AbiPollEvent poll_event_decodes [OF p] call_reach [OF r, of PollEvent]
    by (cases "poll_event_op api (th_tunnel h)"; cases "fst (poll_event_op api (th_tunnel h))")
      (auto simp: rtc_tunnel_event_kind_def rtc_tunnel_event_reason_def Let_def)
next
  case (AbiDrainEvents as_ptr m)
  obtain es u where d: "drain_loop api (unat m) (th_tunnel h) = (es, u)" by (cases "drain_loop api (unat m) (th_tunnel h)")
  then show ?thesis using s AbiDrainEvents drain_loop_reach [OF r d]
    by (auto simp: rtc_tunnel_drain_events_def Let_def)
next
  case AbiCipherLen
  then show ?thesis using s cipher_reach [OF r]
    by (cases "cipher_name api h") (auto simp: rtc_tunnel_cipher_len_def)
next
  case (AbiCipherCopy b n mem)
  then show ?thesis using s r cipher_reach [OF r]
    by (cases "cipher_name api h"; cases "fst (cipher_name api h)"; cases "b = 0")
      (auto simp: rtc_tunnel_cipher_copy_def Let_def)
qed

lemma abi_reach_host: "abi_reach api h0 s \<Longrightarrow> host_reach api (th_tunnel h0) (th_tunnel (fst s), snd s)"
proof (induction rule: abi_reach.induct)
  case abi_start
  show ?case by (simp add: host_reach.start)
next
  case (abi_next s c s')
  then show ?case using abi_step_reach [of "th_tunnel h0" "fst s" "snd s" c "fst s'" "snd s'"] by simp
qed

end

section \<open>A concrete call of \<open>create\<close>\<close>

lemma slice_copy_mid:
  assumes "off + len \<le> length src" "length src < 2 ^ 32" "buf + of_nat off \<noteq> 0"
  shows "slice_from (copy_nonoverlapping src buf (length src) mem) (buf + of_nat off) len = take len (drop off src)"
proof (cases "len = 0")
  case False
  have "unat (word_of_nat (off + i) :: u32) = off + i" if "i < len" for i
    using that assms by (simp add: unat_of_nat take_bit_eq_mod del: of_nat_add)
  then show ?thesis using False assms
    by (intro nth_equalityI) (auto simp: slice_from_def copy_nonoverlapping_def ac_simps)
qed (simp add: slice_from_def)

definition script_text :: rstr where
  "script_text = ''192.0.2.1:3478192.0.2.9:40000ufrgpassab:cdsha-256''"

definition script_mem :: memory where
  "script_mem = copy_nonoverlapping (str_bytes script_text) 16 (length (str_bytes script_text)) (\<lambda>_. 0)"

definition script_args :: create_args where
  "script_args = \<lparr>ca_remote = (16, 14), ca_ufrag = (45, 4), ca_pwd = (49, 4), ca_fingerprint = (53, 5),
     ca_fingerprint_algorithm = (58, 7), ca_local = (30, 15), ca_sctp_port = 5000, ca_stream_id = 0,
     ca_ordered = 0, ca_max_retransmits = 0, ca_handshake_timeout_ms = Finite 0 0,
     ca_disable_fingerprint_verification = 0, ca_now_ms = Finite 5000 0\<rparr>"

lemma script_parse:
  "parse_socket_addr ''192.0.2.1:3478'' = Some (SockV4 (192, 0, 2, 1) 3478)"
  "parse_socket_addr ''192.0.2.9:40000'' = Some (SockV4 (192, 0, 2, 9) 40000)"
proof -
  have "''192.0.2.1:3478'' = show_ipv4 (192, 0, 2, 1) @ colon # show_dec (unat (3478 :: u16))"
    "''192.0.2.9:40000'' = show_ipv4 (192, 0, 2, 9) @ colon # show_dec (unat (40000 :: u16))"
    by (simp_all add: show_radix_def digits.simps digit_char_def char_eq_iff_code)
  then show "parse_socket_addr ''192.0.2.1:3478'' = Some (SockV4 (192, 0, 2, 1) 3478)"
    "parse_socket_addr ''192.0.2.9:40000'' = Some (SockV4 (192, 0, 2, 9) 40000)"
    by (simp_all only: parse_show_v4)
qed

lemma script_slices:
  "slice_from script_mem 16 14 = str_bytes ''192.0.2.1:3478''" "slice_from script_mem 30 15 = str_bytes ''192.0.2.9:40000''"
  "slice_from script_mem 45 4 = str_bytes ''ufrg''" "slice_from script_mem 49 4 = str_bytes ''pass''"
  "slice_from script_mem 53 5 = str_bytes ''ab:cd''" "slice_from script_mem 58 7 = str_bytes ''sha-256''"
  using slice_copy_mid [of 0 14 "str_bytes script_text" 16 "\<lambda>_. 0"] slice_copy_mid [of 14 15 "str_bytes script_text" 16 "\<lambda>_. 0"]
    slice_copy_mid [of 29 4 "str_bytes script_text" 16 "\<lambda>_. 0"] slice_copy_mid [of 33 4 "str_bytes script_text" 16 "\<lambda>_. 0"]
    slice_copy_mid [of 37 5 "str_bytes script_text" 16 "\<lambda>_. 0"] slice_copy_mid [of 42 7 "str_bytes script_text" 16 "\<lambda>_. 0"]
  unfolding script_mem_def [symmetric] by (simp_all add: script_text_def str_bytes_def)

lemma script_utf8: "utf8_valid (str_bytes ''192.0.2.1:3478'')" "utf8_valid (str_bytes ''192.0.2.9:40000'')"
  "utf8_valid (str_bytes ''ufrg'')" "utf8_valid (str_bytes ''pass'')" "utf8_valid (str_bytes ''ab:cd'')"
  "utf8_valid (str_bytes ''sha-256'')"
  by (simp_all add: str_bytes_def)

lemma script_create_config:
  "create_config script_args (SockV4 (192, 0, 2, 1) 3478) ''ufrg'' ''pass'' ''ab:cd'' ''sha-256'' = script_config"
  by (simp add: create_config_def script_args_def script_config_def tunnel_config_new_def f64_positive_def)

abbreviation script_h0 :: "script_tunnel tunnel_handle" where
  "script_h0 \<equiv> new_handle (direct_api scripted) script_t0"

lemma script_create:
  "rtc_tunnel_create (direct_api scripted) script_mem script_args = Some (Some script_h0, [])"
  using script_new
  by (simp add: rtc_tunnel_create_def script_args_def addr_arg_def str_arg_def script_slices script_utf8 script_parse
      script_create_config [unfolded script_args_def] script_addr_def f64_max_zero_def f64_as_u64_def
      create_result_def clear_last_error_def)

section \<open>Properties\<close>

lemma show_tunnel_error_nonempty: "show_tunnel_error e \<noteq> []"
  by (cases e) simp_all

lemma create_handle:
  assumes "rtc_tunnel_create api mem a = Some (Some h, err)"
  shows "\<exists>config la n t. new_op api config la n = Some (Inr t) \<and> h = new_handle api t \<and> err = []"
proof -
  obtain config la n r where "new_op api config la n = Some r" "create_result api r = (Some h, err)"
    using assms unfolding rtc_tunnel_create_def by (auto split: sum.split_asm if_split_asm)
  then show ?thesis by (cases r) (auto simp: create_result_def clear_last_error_def)
qed

lemma create_new:
  assumes "rtc_tunnel_create api mem a = Some (Some h, err)"
  shows "\<exists>remote u p f g la t. h = new_handle api t
    \<and> new_op api (create_config a remote u p f g) la (f64_as_u64 (f64_max_zero (ca_now_ms a))) = Some (Inr t)"
proof -
  obtain remote u p f g la r where
    "new_op api (create_config a remote u p f g) la (f64_as_u64 (f64_max_zero (ca_now_ms a))) = Some r"
    "create_result api r = (Some h, err)"
    using assms unfolding rtc_tunnel_create_def by (auto split: sum.split_asm if_split_asm)
  moreover from this(2) obtain t where "r = Inr t" "h = new_handle api t" by (cases r) (auto simp: create_result_def)
  ultimately show ?thesis by blast
qed

lemma create_config_timeout: "cfg_handshake_timeout_ms (create_config a remote u p f g) =
    (if f64_positive (ca_handshake_timeout_ms a) then f64_as_u64 (ca_handshake_timeout_ms a) else 30000)"
  by (simp add: create_config_def tunnel_config_new_def Let_def)

lemma script_rtc_create:
  "rtc_tunnel_create (rtc_api scripted_pc) script_mem script_args = Some (Some (new_handle (rtc_api scripted_pc) script_r0), [])"
  using script_rtc_new
  by (simp add: rtc_tunnel_create_def script_args_def addr_arg_def str_arg_def script_slices script_utf8 script_parse
      script_create_config [unfolded script_args_def] script_addr_def f64_max_zero_def f64_as_u64_def
      create_result_def clear_last_error_def)

text \<open>
  C3. The module tells its JavaScript host of the lifecycle exactly: for a handle \<open>create\<close> returned
  on the direct backend, any sequence of ABI calls is a session of calls on the tunnel behind it
  that hands out the same events; among the events the host has decoded and those still queued
  there is one \<open>Opened\<close> exactly when the tunnel is open and one \<open>Closed\<close> exactly when it is finished.
\<close>

theorem abi_sessions_refine:
  assumes "rtc_tunnel_create (direct_api E) mem a = Some (Some h0, err)" "abi_reach (direct_api E) h0 (h, out)"
  shows "dt_constructed E (th_tunnel h0)
    \<and> host_reach (direct_api E) (th_tunnel h0) (th_tunnel h, out)
    \<and> length (filter is_opened_event (out @ dt_events (th_tunnel h))) = (if dt_opened (th_tunnel h) then 1 else 0)
    \<and> length (filter is_closed_event (out @ dt_events (th_tunnel h))) = (if dt_finished (th_tunnel h) then 1 else 0)"
proof -
  obtain config la n t where "dt_new E config la n = Inr t" "h0 = new_handle (direct_api E) t"
    using create_handle [OF assms(1)] by auto
  then have c: "dt_constructed E (th_tunnel h0)" by (auto simp: new_handle_def intro: constructed_new)
  have r: "host_reach (direct_api E) (th_tunnel h0) (th_tunnel h, out)"
    using direct.abi_reach_host [OF assms(2)] by simp
  from direct.reach_once [OF r] constructed_fresh [OF c] c r show ?thesis by (simp add: dt_fresh_def)
qed

theorem abi_sessions_refine_witness:
  "rtc_tunnel_create (direct_api scripted) script_mem script_args = Some (Some script_h0, [])
   \<and> dt_constructed scripted (th_tunnel script_h0)"
  using abi_sessions_refine [OF script_create abi_reach.abi_start] script_create by blast

text \<open>
  C26. A drain hands over the front of the queue, whole and in order: the drained events are the
  first \<open>max\<close> of the queue, the rest stays queued, the returned count is their number, and a host
  that reads the four words of each descriptor and the payload they point to gets exactly these
  events.
\<close>

theorem drain_events_faithful:
  assumes "rtc_tunnel_drain_events (direct_api E) as_ptr (Some h) m = (n, Some h')"
    and "\<And>i. i < length (th_drained h') \<Longrightarrow> lies_at mem (as_ptr i) (th_drained h' ! i)"
  shows "th_drained h' = take (unat m) (dt_events (th_tunnel h))
    \<and> dt_events (th_tunnel h') = drop (unat m) (dt_events (th_tunnel h))
    \<and> unat n = length (th_drained h')
    \<and> decode_descriptors mem (th_descriptors h') = map Some (th_drained h')"
proof -
  obtain es u where d: "drain_loop (direct_api E) (unat m) (th_tunnel h) = (es, u)"
    by (cases "drain_loop (direct_api E) (unat m) (th_tunnel h)")
  then have h': "th_drained h' = es" "th_tunnel h' = u" "n = of_nat (length es)"
    "th_descriptors h' = concat (map (\<lambda>(i, e). descriptor (as_ptr i) e) (enumerate 0 es))"
    using assms(1) by (auto simp: rtc_tunnel_drain_events_def Let_def length_descriptors)
  note q = direct.drain_loop_queue [OF d]
  have "length es \<le> unat m" using q by simp
  then have "length es < 2 ^ 32" using unsigned_less [of m, where 'a = nat] by simp
  then have "unat n = length es" using h'(3) by (simp add: unat_of_nat take_bit_eq_mod)
  then show ?thesis using q h' decode_all [of es mem as_ptr 0] assms(2) by simp
qed

theorem drain_events_faithful_witness:
  "\<exists>n h'. rtc_tunnel_drain_events (direct_api scripted) (\<lambda>_. 16) (Some (script_h0\<lparr>th_tunnel := script_t0\<lparr>dt_events := [Message [49, 57], Opened]\<rparr>\<rparr>)) 1 = (n, Some h')
     \<and> decode_descriptors script_mem (th_descriptors h') = [Some (Message [49, 57])] \<and> unat n = 1"
proof -
  let ?h = "script_h0\<lparr>th_tunnel := script_t0\<lparr>dt_events := [Message [49, 57], Opened]\<rparr>\<rparr>"
  obtain es u where l: "drain_loop (direct_api scripted) 1 (th_tunnel ?h) = (es, u)"
    by (cases "drain_loop (direct_api scripted) 1 (th_tunnel ?h)")
  then have es: "es = [Message [49, 57]]" using direct.drain_loop_queue [OF l] by simp
  obtain n h' where d: "rtc_tunnel_drain_events (direct_api scripted) (\<lambda>_. 16) (Some ?h) 1 = (n, Some h')"
    and dr: "th_drained h' = [Message [49, 57]]"
    using l es by (simp add: rtc_tunnel_drain_events_def Let_def del: drain_loop.simps)
  have "slice_from script_mem 16 2 = [49, 57]"
    using slice_copy_mid [of 0 2 "str_bytes script_text" 16 "\<lambda>_. 0"]
    unfolding script_mem_def [symmetric] by (simp add: script_text_def str_bytes_def)
  then have "lies_at script_mem 16 (th_drained h' ! i)" if "i < length (th_drained h')" for i
    using that unfolding dr by (simp add: lies_at_def flip: numeral_2_eq_2)
  then have "unat n = length (th_drained h') \<and> decode_descriptors script_mem (th_descriptors h') = map Some (th_drained h')"
    using drain_events_faithful [OF d, of script_mem] by blast
  then have "unat n = 1" "decode_descriptors script_mem (th_descriptors h') = [Some (Message [49, 57])]"
    unfolding dr by simp_all
  with d show ?thesis by blast
qed

text \<open>The milliseconds a double stands for: its value rounded down, held within \<open>u64\<close>, and 0 for what is
  no time at all.\<close>

definition host_ms :: "f64 \<Rightarrow> nat" where
  "host_ms x = (case x of
       NaN \<Rightarrow> 0
     | NegInfinity \<Rightarrow> 0
     | Infinity \<Rightarrow> 2 ^ 64 - 1
     | Finite m e \<Rightarrow> nat (max 0 (min (2 ^ 64 - 1) \<lfloor>(of_int m :: real) * 2 powi e\<rfloor>)))"

lemma floor_finite:
  "\<lfloor>(of_int m :: real) * 2 powi e\<rfloor> = (if 0 \<le> e then m * 2 ^ nat e else m div 2 ^ nat (- e))"
proof (cases "0 \<le> e")
  case True
  then have "(of_int m :: real) * 2 powi e = of_int (m * 2 ^ nat e)" by (simp add: power_int_def)
  then show ?thesis using True by (simp only: floor_of_int if_True)
next
  case False
  then have "(of_int m :: real) * 2 powi e = of_int m / of_int (2 ^ nat (- e))"
    by (simp add: power_int_def field_simps)
  then show ?thesis using False by (simp only: floor_divide_of_int_eq if_False)
qed

lemma host_ms_cast: "f64_as_u64 (f64_max_zero x) = host_ms x"
proof (cases x)
  case (Finite m e)
  let ?v = "if 0 \<le> e then m * 2 ^ nat e else m div 2 ^ nat (- e)"
  consider "m < 0" | "m = 0" | "0 < m" by linarith
  then show ?thesis
  proof cases
    case 1
    then have "?v < 0" by (simp add: mult_neg_pos div_neg_pos_less0)
    with 1 Finite show ?thesis unfolding host_ms_def by (simp add: floor_finite f64_max_zero_def f64_as_u64_def)
  next
    case 2
    then show ?thesis using Finite by (simp add: host_ms_def floor_finite f64_max_zero_def f64_as_u64_def)
  next
    case 3
    then have "0 \<le> ?v" by (simp add: pos_imp_zdiv_nonneg_iff)
    then have "nat (max 0 (min (2 ^ 64 - 1) ?v)) = min (2 ^ 64 - 1) (nat ?v)" by (simp add: min_def) linarith
    then show ?thesis using 3 Finite by (simp add: host_ms_def floor_finite f64_max_zero_def f64_as_u64_def)
  qed
qed (simp_all add: host_ms_def f64_max_zero_def f64_as_u64_def)

text \<open>
  C27. Milliseconds survive the doubles of the ABI. Every double the host may pass, \<open>NaN\<close>, negative,
  infinite or fractional, reaches the tunnel as the \<open>u64\<close> that \<open>host_ms\<close> names: in \<open>tick\<close>, in
  \<open>input\<close>, in \<open>input_deferred\<close> and in \<open>create\<close>. And a deadline below \<open>2 ^ 53\<close> that the module
  reports is, passed back to \<open>tick\<close>, the same number.
\<close>

theorem deadline_round_trip:
  "rtc_tunnel_tick api h x = on_tunnel (tick_op api (host_ms x)) h
   \<and> rtc_tunnel_input api mem h x ptr len = on_tunnel (receive_op api (host_ms x) (slice_from mem ptr len)) h
   \<and> rtc_tunnel_input_deferred api mem h x ptr len = on_tunnel (receive_deferred_op api (host_ms x) (slice_from mem ptr len)) h
   \<and> (rtc_tunnel_create api mem a = Some (Some hc, err) \<longrightarrow>
        (\<exists>config la. new_op api config la (host_ms (ca_now_ms a)) = Some (Inr (th_tunnel hc))))
   \<and> host_ms x < 2 ^ 64
   \<and> (next_deadline_op api (th_tunnel hq) = (Some d, t) \<and> d < 2 ^ 53 \<longrightarrow>
        rtc_tunnel_tick api h (fst (rtc_tunnel_next_deadline api (Some hq))) = on_tunnel (tick_op api d) h)"
proof -
  have x: "host_ms x < 2 ^ 64"
    using f64_as_u64_bound [of "f64_max_zero x"] by (simp add: host_ms_cast order_le_less_trans)
  have again: "host_ms (u64_as_f64 d) = d" if "d < 2 ^ 53"
    using f64_round_trip [OF that] that by (simp add: u64_as_f64_def f64_max_zero_def flip: host_ms_cast)
  have create: "\<exists>config la. new_op api config la (host_ms (ca_now_ms a)) = Some (Inr (th_tunnel hc))"
    if "rtc_tunnel_create api mem a = Some (Some hc, err)"
  proof -
    have "create_result api r = (Some hc, err) \<Longrightarrow> r = Inr (th_tunnel hc)" for r
      by (cases r) (auto simp: create_result_def new_handle_def)
    then show ?thesis using that unfolding rtc_tunnel_create_def host_ms_cast
      by (auto split: sum.split_asm if_split_asm)
  qed
  show ?thesis using x again create
    by (simp add: rtc_tunnel_tick_def rtc_tunnel_input_def rtc_tunnel_input_deferred_def rtc_tunnel_next_deadline_def host_ms_cast)
qed

theorem deadline_round_trip_witness:
  "rtc_tunnel_tick (direct_api scripted) (Some script_h0) (fst (rtc_tunnel_next_deadline (direct_api scripted) (Some script_h0)))
     = on_tunnel (dt_tick scripted 5200) (Some script_h0)
   \<and> rtc_tunnel_tick (direct_api scripted) (Some script_h0) (Finite 11 (- 1)) = on_tunnel (dt_tick scripted 5) (Some script_h0)
   \<and> rtc_tunnel_tick (direct_api scripted) (Some script_h0) (Finite (- 7) 0) = on_tunnel (dt_tick scripted 0) (Some script_h0)"
proof -
  have d: "next_deadline_op (direct_api scripted) (th_tunnel script_h0) = (Some 5200, script_t0)"
    by (simp add: new_handle_def dt_next_deadline_def min_opt_def ms_since_def millis_def script_states
        initial_tunnel_def epoch_of_def instant_checked_sub_def script_config_def tunnel_config_new_def Let_def)
  have ms: "host_ms (Finite 11 (- 1)) = 5" "host_ms (Finite (- 7) 0) = 0" by (simp_all add: host_ms_def floor_finite)
  show ?thesis
    using deadline_round_trip [where api = "direct_api scripted" and h = "Some script_h0" and x = "Finite 11 (- 1)" and d = 5200
        and hq = script_h0 and t = script_t0]
      deadline_round_trip [where api = "direct_api scripted" and h = "Some script_h0" and x = "Finite (- 7) 0" and d = 5200
        and hq = script_h0 and t = script_t0]
    unfolding d ms by simp
qed

text \<open>
  C28. \<open>create\<close> reports failure consistently: it returns null exactly when it leaves an error
  message, and a handle is returned only for parsable addresses of the configuration, an SCTP
  port within 16 bits and a stream id that SCTP can use, with a tunnel the backend built.
\<close>

theorem create_error_consistent:
  assumes "rtc_tunnel_create api mem a = Some (h, err)"
  shows "(h = None \<longleftrightarrow> 0 < rtc_tunnel_last_error_len err)
    \<and> (h \<noteq> None \<longrightarrow> ca_sctp_port a \<le> 65535 \<and> ca_stream_id a \<le> 65534
        \<and> (\<exists>remote la. addr_arg mem (fst (ca_remote a)) (snd (ca_remote a)) = Inr remote
            \<and> addr_arg mem (fst (ca_local a)) (snd (ca_local a)) = Inr la))"
proof -
  have res: "create_result api r = (h, err) \<Longrightarrow> h = None \<longleftrightarrow> 0 < length err" for r
    by (cases r) (auto simp: create_result_def clear_last_error_def set_last_error_def str_bytes_def show_tunnel_error_nonempty)
  show ?thesis
    using assms unfolding rtc_tunnel_create_def rtc_tunnel_last_error_len_def
    by (auto simp: set_last_error_def str_bytes_def not_less dest!: res split: sum.split_asm if_split_asm)
qed

theorem create_error_consistent_witness:
  "\<exists>err. rtc_tunnel_create (direct_api scripted) script_mem (script_args\<lparr>ca_stream_id := 65535\<rparr>) = Some (None, err)
     \<and> 0 < rtc_tunnel_last_error_len err"
proof -
  have c: "rtc_tunnel_create (direct_api scripted) script_mem (script_args\<lparr>ca_stream_id := 65535\<rparr>) =
      Some (None, set_last_error ''stream id must be 0..=65534'')"
    by (simp add: rtc_tunnel_create_def script_args_def addr_arg_def str_arg_def script_slices script_utf8 script_parse)
  from create_error_consistent [OF this] c show ?thesis by blast
qed

text \<open>What a copy function owes its caller for a text: how many bytes it reports, what lies at the buffer
  afterwards, and that it wrote no others.\<close>

definition copied :: "byte list \<Rightarrow> u32 \<Rightarrow> nat \<Rightarrow> memory \<Rightarrow> nat \<Rightarrow> memory \<Rightarrow> bool" where
  "copied text buf cap mem n mem' =
     (n = (if buf = 0 then 0 else min (length text) cap)
      \<and> slice_from mem' buf n = take n text
      \<and> (\<forall>x. n \<le> unat (x - buf) \<longrightarrow> mem' x = mem x))"

text \<open>The name of the cipher suite behind a handle: the one kept, or else what the tunnel answers.\<close>

definition cipher_text :: "'t tunnel_api \<Rightarrow> 't tunnel_handle option \<Rightarrow> byte list" where
  "cipher_text api h = (case h of
       None \<Rightarrow> []
     | Some h \<Rightarrow> (case (th_cipher h, fst (cipher_suite_op api (th_tunnel h))) of
         (Some text, _) \<Rightarrow> text
       | (None, Some name) \<Rightarrow> str_bytes name
       | (None, None) \<Rightarrow> []))"

lemma copied_nothing: "copied [] buf cap mem 0 mem" "copied text 0 cap mem 0 mem"
  by (simp_all add: copied_def slice_from_def)

lemma copied_copy:
  assumes "cap < 2 ^ 32" "buf \<noteq> 0"
  shows "copied text buf cap mem (min (length text) cap) (copy_nonoverlapping text buf (min (length text) cap) mem)"
  using slice_after_copy [OF assms(2), of "min (length text) cap" "text" mem] copy_outside assms
  by (auto simp: copied_def)

text \<open>
  C29. Copies are exact and stay inside the buffer. Each of the three copy functions reports the
  length of its text cut off at \<open>cap\<close>, which is at most \<open>cap\<close>, writes that prefix of the text at
  \<open>buf\<close> and leaves every other address as it was; the length function reports the whole length. The
  texts are the offer kept in the handle, the last error, and the name of the cipher suite, which
  the handle asks the tunnel for once and keeps. A null buffer or handle writes nothing.
\<close>

theorem copies_in_bounds:
  assumes "cap < 2 ^ 32"
  shows "(case rtc_tunnel_offer_copy h buf cap mem of (n, mem') \<Rightarrow>
      n \<le> cap \<and> copied (case h of None \<Rightarrow> [] | Some h \<Rightarrow> th_offer h) buf cap mem n mem')
    \<and> (case rtc_tunnel_last_error_copy err buf cap mem of (n, mem') \<Rightarrow> n \<le> cap \<and> copied err buf cap mem n mem')
    \<and> (case rtc_tunnel_cipher_copy api h buf cap mem of (n, h', mem') \<Rightarrow>
      n \<le> cap \<and> copied (cipher_text api h) buf cap mem n mem'
      \<and> (0 < n \<longrightarrow> map_option th_cipher h' = Some (Some (cipher_text api h))))
    \<and> rtc_tunnel_offer_len h = length (case h of None \<Rightarrow> [] | Some h \<Rightarrow> th_offer h)
    \<and> rtc_tunnel_last_error_len err = length err
    \<and> fst (rtc_tunnel_cipher_len api h) = length (cipher_text api h)"
proof -
  note copy = copied_copy [OF assms]
  have 1: "case rtc_tunnel_offer_copy h buf cap mem of (n, mem') \<Rightarrow>
      n \<le> cap \<and> copied (case h of None \<Rightarrow> [] | Some h \<Rightarrow> th_offer h) buf cap mem n mem'"
    by (cases h) (simp_all add: rtc_tunnel_offer_copy_def Let_def copied_nothing copy)
  have 2: "case rtc_tunnel_last_error_copy err buf cap mem of (n, mem') \<Rightarrow> n \<le> cap \<and> copied err buf cap mem n mem'"
    by (simp add: rtc_tunnel_last_error_copy_def Let_def copied_nothing copy)
  have 3: "case rtc_tunnel_cipher_copy api h buf cap mem of (n, h', mem') \<Rightarrow>
      n \<le> cap \<and> copied (cipher_text api h) buf cap mem n mem'
      \<and> (0 < n \<longrightarrow> map_option th_cipher h' = Some (Some (cipher_text api h)))"
    using copied_nothing copy
    by (auto simp: rtc_tunnel_cipher_copy_def cipher_name_def cipher_text_def Let_def split: prod.splits option.splits)
  have 4: "fst (rtc_tunnel_cipher_len api h) = length (cipher_text api h)"
    by (auto simp: rtc_tunnel_cipher_len_def cipher_name_def cipher_text_def Let_def split: prod.splits option.splits)
  show ?thesis using 1 2 3 4
    by (simp add: rtc_tunnel_offer_len_def rtc_tunnel_last_error_len_def split: option.split)
qed

text \<open>The cipher suite of a handle that has not asked for it yet, in a buffer of four bytes.\<close>

theorem copies_in_bounds_witness:
  "\<exists>h' mem'. rtc_tunnel_cipher_copy (direct_api scripted) (Some (new_handle (direct_api scripted) script_t1)) 64 4 (\<lambda>_. 0) = (4, h', mem')
     \<and> slice_from mem' 64 4 = str_bytes ''TLS_'' \<and> mem' 68 = 0"
proof -
  let ?h = "Some (new_handle (direct_api scripted) script_t1)"
  obtain n h' mem' where c: "rtc_tunnel_cipher_copy (direct_api scripted) ?h 64 4 (\<lambda>_. 0) = (n, h', mem')"
    by (metis prod_cases3)
  have name: "cipher_text (direct_api scripted) ?h = str_bytes ''TLS_ECDHE_ECDSA_WITH_CHACHA20_POLY1305_SHA256''"
    by (simp add: cipher_text_def new_handle_def direct_api_def dt_negotiated_cipher_suite_def script_t1_def)
  have cap: "(4 :: nat) < 2 ^ 32" by simp
  have c4: "copied (str_bytes ''TLS_ECDHE_ECDSA_WITH_CHACHA20_POLY1305_SHA256'') 64 4 (\<lambda>_. 0) n mem'"
    using copies_in_bounds [OF cap, where api = "direct_api scripted" and h = ?h and buf = 64 and mem = "\<lambda>_. 0"]
    unfolding c name by simp
  then have n: "n = 4" by (simp add: copied_def str_bytes_def)
  have "slice_from mem' 64 4 = take 4 (str_bytes ''TLS_ECDHE_ECDSA_WITH_CHACHA20_POLY1305_SHA256'')"
    using c4 unfolding copied_def n by blast
  also have "\<dots> = str_bytes ''TLS_''" by (simp add: str_bytes_def numeral_eq_Suc)
  finally have "slice_from mem' 64 4 = str_bytes ''TLS_''" .
  moreover have "mem' 68 = 0" using c4 unfolding copied_def n by simp
  ultimately show ?thesis using c unfolding n by blast
qed

end
