(* ===== verification/Wasm_Std.thy ===== *)
theory Wasm_Std
  imports Wasm_Num Direct_Spec
begin

text \<open>
  The pieces of the standard library the build replaces on bare wasm (\<open>scripts/wasm-std\<close>) and the
  entropy bridge of the module (\<open>entropy.rs\<close>). The clock and the random bytes are host imports and
  so arguments; a panic is \<open>None\<close>. A \<open>Duration\<close> is what it is in Rust, 64-bit seconds and 32-bit
  nanoseconds, with the carry and the borrow of the library's checked operations; \<open>dur_ns\<close> is the
  number of nanoseconds it stands for, and the lemmas show that the operations compute on it.
\<close>

section \<open>Durations\<close>

datatype duration = Duration (dur_secs: u64) (dur_nanos: u32)

abbreviation NANOS_PER_SEC :: u32 where "NANOS_PER_SEC \<equiv> 1000000000"

definition u64_checked_add :: "u64 \<Rightarrow> u64 \<Rightarrow> u64 option" where
  "u64_checked_add a b = (if unat a + unat b < 2 ^ 64 then Some (a + b) else None)"

definition u64_checked_sub :: "u64 \<Rightarrow> u64 \<Rightarrow> u64 option" where
  "u64_checked_sub a b = (if b \<le> a then Some (a - b) else None)"

definition DURATION_MAX :: duration where
  "DURATION_MAX = Duration (- 1) (NANOS_PER_SEC - 1)"

definition DURATION_ZERO :: duration where
  "DURATION_ZERO = Duration 0 0"

definition duration_from_secs :: "u64 \<Rightarrow> duration" where
  "duration_from_secs s = Duration s 0"

definition duration_from_millis :: "u64 \<Rightarrow> duration" where
  "duration_from_millis ms = Duration (ms div 1000) (ucast (ms mod 1000) * 1000000)"

definition duration_from_micros :: "u64 \<Rightarrow> duration" where
  "duration_from_micros us = Duration (us div 1000000) (ucast (us mod 1000000) * 1000)"

definition duration_checked_add :: "duration \<Rightarrow> duration \<Rightarrow> duration option" where
  "duration_checked_add a b = (case u64_checked_add (dur_secs a) (dur_secs b) of
       None \<Rightarrow> None
     | Some secs \<Rightarrow>
         (let nanos = dur_nanos a + dur_nanos b in
          if NANOS_PER_SEC \<le> nanos
          then map_option (\<lambda>secs. Duration secs (nanos - NANOS_PER_SEC)) (u64_checked_add secs 1)
          else Some (Duration secs nanos)))"

definition duration_checked_sub :: "duration \<Rightarrow> duration \<Rightarrow> duration option" where
  "duration_checked_sub a b = (case u64_checked_sub (dur_secs a) (dur_secs b) of
       None \<Rightarrow> None
     | Some secs \<Rightarrow>
         if dur_nanos b \<le> dur_nanos a then Some (Duration secs (dur_nanos a - dur_nanos b))
         else map_option (\<lambda>secs. Duration secs (dur_nanos a + NANOS_PER_SEC - dur_nanos b)) (u64_checked_sub secs 1))"

text \<open>The derived order: seconds first.\<close>

instantiation duration :: linorder
begin

definition less_eq_duration :: "duration \<Rightarrow> duration \<Rightarrow> bool" where
  "less_eq_duration a b = (dur_secs a < dur_secs b \<or> dur_secs a = dur_secs b \<and> dur_nanos a \<le> dur_nanos b)"

definition less_duration :: "duration \<Rightarrow> duration \<Rightarrow> bool" where
  "less_duration a b = (dur_secs a < dur_secs b \<or> dur_secs a = dur_secs b \<and> dur_nanos a < dur_nanos b)"

instance
  by standard (auto simp: less_eq_duration_def less_duration_def intro: duration.expand)

end

subsection \<open>Nanoseconds\<close>

definition dur_ok :: "duration \<Rightarrow> bool" where
  "dur_ok a = (unat (dur_nanos a) < 1000000000)"

definition dur_ns :: "duration \<Rightarrow> nat" where
  "dur_ns a = unat (dur_secs a) * 1000000000 + unat (dur_nanos a)"

definition DURATION_MAX_NS :: nat where
  "DURATION_MAX_NS = 2 ^ 64 * 1000000000 - 1"

lemma u64_less: "unat (a :: u64) < 2 ^ 64"
  using unsigned_less [of a, where 'a = nat] by simp

lemma unat_u64_max: "unat (- 1 :: u64) = 2 ^ 64 - 1"
  by (simp add: unsigned_minus_1_eq_mask mask_eq_exp_minus_1)

lemma dur_ns_bound:
  assumes "dur_ok a"
  shows "dur_ns a \<le> DURATION_MAX_NS"
proof -
  have "Suc (unat (dur_secs a)) \<le> 2 ^ 64" using u64_less [of "dur_secs a"] by simp
  then have "Suc (unat (dur_secs a)) * 1000000000 \<le> 2 ^ 64 * 1000000000" by (rule mult_le_mono1)
  then show ?thesis using assms by (simp add: dur_ns_def dur_ok_def DURATION_MAX_NS_def)
qed

lemma u64_checked_add_Some:
  "u64_checked_add a b = Some c \<longleftrightarrow> unat a + unat b < 2 ^ 64 \<and> unat c = unat a + unat b"
proof -
  have "unat a + unat b < 2 ^ 64 \<Longrightarrow> unat (a + b) = unat a + unat b" by (simp add: unat_word_ariths)
  then show ?thesis by (auto simp: u64_checked_add_def word_unat_eq_iff)
qed

lemma u64_checked_sub_Some: "u64_checked_sub a b = Some c \<longleftrightarrow> unat a = unat b + unat c"
proof -
  have "unat (a - b) = unat a - unat b" if "b \<le> a" using that by (rule unat_sub)
  then show ?thesis by (auto simp: u64_checked_sub_def word_unat_eq_iff word_le_nat_alt)
qed

lemma u64_checked_None:
  "u64_checked_add a b = None \<longleftrightarrow> 2 ^ 64 \<le> unat a + unat b" "u64_checked_sub a b = None \<longleftrightarrow> unat a < unat b"
  by (auto simp: u64_checked_add_def u64_checked_sub_def word_le_nat_alt not_le)

lemma u32_plus: "unat (a :: u32) + unat b < 2 ^ 32 \<Longrightarrow> unat (a + b) = unat a + unat b"
  by (simp add: unat_word_ariths)

lemma u32_minus: "unat (b :: u32) \<le> unat a \<Longrightarrow> unat (a - b) = unat a - unat b"
  by (rule unat_sub) (simp add: word_le_nat_alt)

text \<open>The checked operations are exact on nanoseconds, and fail exactly where a \<open>Duration\<close> ends.\<close>

lemma duration_add:
  assumes "dur_ok a" "dur_ok b"
  shows "case duration_checked_add a b of
     None \<Rightarrow> DURATION_MAX_NS < dur_ns a + dur_ns b
   | Some c \<Rightarrow> dur_ok c \<and> dur_ns c = dur_ns a + dur_ns b"
proof -
  let ?n = "unat (dur_nanos a) + unat (dur_nanos b)"
  have n: "unat (dur_nanos a + dur_nanos b) = ?n" by (rule u32_plus) (use assms in \<open>simp add: dur_ok_def\<close>)
  have carry: "NANOS_PER_SEC \<le> dur_nanos a + dur_nanos b \<longleftrightarrow> 1000000000 \<le> ?n"
    by (simp add: word_le_nat_alt n)
  have less: "unat (dur_nanos a + dur_nanos b - NANOS_PER_SEC) = ?n - 1000000000" if "1000000000 \<le> ?n"
    using u32_minus [of NANOS_PER_SEC "dur_nanos a + dur_nanos b"] that n by simp
  show ?thesis
  proof (cases "u64_checked_add (dur_secs a) (dur_secs b)")
    case None
    then have "2 ^ 64 \<le> unat (dur_secs a) + unat (dur_secs b)" by (simp add: u64_checked_None)
    then show ?thesis by (simp add: duration_checked_add_def None dur_ns_def DURATION_MAX_NS_def)
  next
    case (Some secs)
    then have s: "unat secs = unat (dur_secs a) + unat (dur_secs b)" by (simp add: u64_checked_add_Some)
    show ?thesis
    proof (cases "1000000000 \<le> ?n")
      case True
      show ?thesis
      proof (cases "u64_checked_add secs 1")
        case n: None
        then have "2 ^ 64 \<le> unat secs + 1" by (simp add: u64_checked_None)
        with n True s show ?thesis
          by (simp add: duration_checked_add_def Some carry dur_ns_def DURATION_MAX_NS_def)
      next
        case t: (Some secs')
        then have "unat secs' = unat secs + 1" by (simp add: u64_checked_add_Some)
        with t True s less [OF True] assms show ?thesis
          by (simp add: duration_checked_add_def Some carry dur_ns_def dur_ok_def)
      qed
    next
      case False
      then show ?thesis using n s by (simp add: duration_checked_add_def Some carry dur_ns_def dur_ok_def)
    qed
  qed
qed

lemma duration_sub:
  assumes "dur_ok a" "dur_ok b"
  shows "case duration_checked_sub a b of
     None \<Rightarrow> dur_ns a < dur_ns b
   | Some c \<Rightarrow> dur_ok c \<and> dur_ns a = dur_ns b + dur_ns c"
proof (cases "u64_checked_sub (dur_secs a) (dur_secs b)")
  case None
  then have "unat (dur_secs a) < unat (dur_secs b)" by (simp add: u64_checked_None)
  then show ?thesis using assms by (simp add: duration_checked_sub_def None dur_ns_def dur_ok_def)
next
  case (Some secs)
  then have s: "unat (dur_secs a) = unat (dur_secs b) + unat secs" by (simp add: u64_checked_sub_Some)
  show ?thesis
  proof (cases "dur_nanos b \<le> dur_nanos a")
    case True
    then have "unat (dur_nanos b) \<le> unat (dur_nanos a)" by (simp add: word_le_nat_alt)
    with True s assms u32_minus show ?thesis
      by (simp add: duration_checked_sub_def Some dur_ns_def dur_ok_def)
  next
    case False
    then have lt: "unat (dur_nanos a) < unat (dur_nanos b)" by (simp add: word_le_nat_alt)
    have p: "unat (dur_nanos a + NANOS_PER_SEC) = unat (dur_nanos a) + 1000000000"
      using u32_plus [of "dur_nanos a" NANOS_PER_SEC] assms by (simp add: dur_ok_def)
    have m: "unat (dur_nanos a + NANOS_PER_SEC - dur_nanos b) = unat (dur_nanos a) + 1000000000 - unat (dur_nanos b)"
      using u32_minus [of "dur_nanos b" "dur_nanos a + NANOS_PER_SEC"] p assms by (simp add: dur_ok_def)
    show ?thesis
    proof (cases "u64_checked_sub secs 1")
      case n: None
      then have "unat secs = 0" by (simp add: u64_checked_None)
      with n False lt s show ?thesis by (simp add: duration_checked_sub_def Some dur_ns_def)
    next
      case t: (Some secs')
      then have "unat secs = 1 + unat secs'" by (simp add: u64_checked_sub_Some)
      with t False lt s m assms show ?thesis by (simp add: duration_checked_sub_def Some dur_ns_def dur_ok_def)
    qed
  qed
qed

lemma dur_ns_le:
  assumes "dur_ok a" "dur_ok b"
  shows "a \<le> b \<longleftrightarrow> dur_ns a \<le> dur_ns b"
  using assms by (cases "dur_secs a = dur_secs b")
    (auto simp: less_eq_duration_def dur_ns_def dur_ok_def word_less_nat_alt word_le_nat_alt word_unat_eq_iff)

lemma dur_ns_inj: "dur_ok a \<Longrightarrow> dur_ok b \<Longrightarrow> dur_ns a = dur_ns b \<longleftrightarrow> a = b"
  by (metis dur_ns_le order.antisym order.refl)

lemma div_mod_scale: "x div d * (d * k) + x mod d * k = x * (k :: nat)"
  by (metis add_mult_distrib div_mult_mod_eq mult.assoc)

lemma duration_from:
  "dur_ok (duration_from_micros us)" "dur_ns (duration_from_micros us) = unat us * 1000"
  "dur_ok (duration_from_millis ms)" "dur_ns (duration_from_millis ms) = millis (unat ms)"
  "dur_ok (duration_from_secs s)" "dur_ns (duration_from_secs s) = unat s * 1000000000"
proof -
  have u: "unat (ucast (us mod 1000000) * 1000 :: u32) = unat us mod 1000000 * 1000"
  proof -
    have "unat us mod 1000000 < 1000000" by simp
    then have "unat (ucast (us mod 1000000) :: u32) = unat us mod 1000000"
      by (simp add: unsigned_ucast_eq unat_mod take_bit_eq_mod)
    then show ?thesis by (simp add: unat_word_ariths)
  qed
  have m: "unat (ucast (ms mod 1000) * 1000000 :: u32) = unat ms mod 1000 * 1000000"
  proof -
    have "unat ms mod 1000 < 1000" by simp
    then have "unat (ucast (ms mod 1000) :: u32) = unat ms mod 1000"
      by (simp add: unsigned_ucast_eq unat_mod take_bit_eq_mod)
    then show ?thesis by (simp add: unat_word_ariths)
  qed
  show "dur_ok (duration_from_micros us)" by (simp add: dur_ok_def duration_from_micros_def u)
  show "dur_ok (duration_from_millis ms)" by (simp add: dur_ok_def duration_from_millis_def m)
  show "dur_ns (duration_from_micros us) = unat us * 1000"
    using div_mod_scale [of "unat us" 1000000 1000] by (simp add: dur_ns_def duration_from_micros_def u unat_div)
  show "dur_ns (duration_from_millis ms) = millis (unat ms)"
    using div_mod_scale [of "unat ms" 1000 1000000] by (simp add: dur_ns_def duration_from_millis_def m unat_div millis_def)
qed (simp_all add: dur_ok_def dur_ns_def duration_from_secs_def)

section \<open>\<open>Instant\<close> and \<open>SystemTime\<close>\<close>

datatype wasm_instant = WasmInstant (instant_duration: duration)

datatype system_time = SystemTime (system_duration: duration)

definition UNIX_EPOCH :: system_time where
  "UNIX_EPOCH = SystemTime (duration_from_secs 0)"

definition wasm_instant_now :: "bool \<Rightarrow> u64 \<Rightarrow> wasm_instant option" where
  "wasm_instant_now wasm32 now_micros = (if wasm32 then Some (WasmInstant (duration_from_micros now_micros)) else None)"

fun checked_sub_instant :: "wasm_instant \<Rightarrow> wasm_instant \<Rightarrow> duration option" where
  "checked_sub_instant (WasmInstant a) (WasmInstant b) = duration_checked_sub a b"

fun checked_add_duration :: "wasm_instant \<Rightarrow> duration \<Rightarrow> wasm_instant option" where
  "checked_add_duration (WasmInstant a) d = map_option WasmInstant (duration_checked_add a d)"

fun checked_sub_duration :: "wasm_instant \<Rightarrow> duration \<Rightarrow> wasm_instant option" where
  "checked_sub_duration (WasmInstant a) d = map_option WasmInstant (duration_checked_sub a d)"

definition SYSTEM_TIME_MAX :: system_time where
  "SYSTEM_TIME_MAX = SystemTime DURATION_MAX"

definition SYSTEM_TIME_MIN :: system_time where
  "SYSTEM_TIME_MIN = SystemTime DURATION_ZERO"

definition system_time_now :: "bool \<Rightarrow> f64 \<Rightarrow> system_time option" where
  "system_time_now wasm32 unix_millis =
     (if wasm32 then Some (SystemTime (duration_from_millis (of_nat (f64_as_u64 unix_millis)))) else None)"

text \<open>The subtraction of the error case panics where it would be negative.\<close>

fun sub_time :: "system_time \<Rightarrow> system_time \<Rightarrow> (duration + duration) option" where
  "sub_time (SystemTime a) (SystemTime b) = (case duration_checked_sub a b of
       Some d \<Rightarrow> Some (Inr d) | None \<Rightarrow> map_option Inl (duration_checked_sub b a))"

fun system_checked_add_duration :: "system_time \<Rightarrow> duration \<Rightarrow> system_time option" where
  "system_checked_add_duration (SystemTime a) d = map_option SystemTime (duration_checked_add a d)"

fun system_checked_sub_duration :: "system_time \<Rightarrow> duration \<Rightarrow> system_time option" where
  "system_checked_sub_duration (SystemTime a) d = map_option SystemTime (duration_checked_sub a d)"

section \<open>Randomness\<close>

text \<open>\<open>fill_random\<close>: the host writes into memory and says how many bytes it wrote.\<close>

type_synonym fill_random = "u32 \<Rightarrow> nat \<Rightarrow> memory \<Rightarrow> u32 \<times> memory"

definition fill_bytes :: "bool \<Rightarrow> fill_random \<Rightarrow> u32 \<Rightarrow> nat \<Rightarrow> memory \<Rightarrow> memory option" where
  "fill_bytes wasm32 fill ptr len mem =
     (if \<not> wasm32 then None
      else if len = 0 then Some mem
      else (let (written, mem) = fill ptr len mem in if written \<noteq> of_nat len then None else Some mem))"

definition u64_from_le_bytes :: "byte list \<Rightarrow> u64" where
  "u64_from_le_bytes bs = of_nat (foldr (\<lambda>b acc. unat b + 256 * acc) bs 0)"

text \<open>The keys on wasm, where the buffer lies at \<open>buf\<close>; elsewhere two allocation addresses.\<close>

definition hashmap_random_keys :: "bool \<Rightarrow> fill_random \<Rightarrow> u32 \<Rightarrow> u64 \<Rightarrow> u64 \<Rightarrow> memory \<Rightarrow> ((u64 \<times> u64) \<times> memory) option" where
  "hashmap_random_keys wasm32 fill buf stack_addr heap_addr mem =
     (if wasm32 then
        (let mem = copy_nonoverlapping (replicate 16 0) buf 16 mem in
         map_option (\<lambda>mem. ((u64_from_le_bytes (slice_from mem buf 8), u64_from_le_bytes (slice_from mem (buf + 8) 8)), mem))
           (fill_bytes True fill buf 16 mem))
      else Some ((stack_addr, heap_addr), mem))"

definition host_fill :: "fill_random \<Rightarrow> u32 \<Rightarrow> nat \<Rightarrow> memory \<Rightarrow> bool \<times> memory" where
  "host_fill fill dest len mem = (if len = 0 then (True, mem)
     else (let (written, mem) = fill dest len mem in (written = of_nat len, mem)))"

definition getrandom_custom :: "fill_random \<Rightarrow> u32 \<Rightarrow> nat \<Rightarrow> memory \<Rightarrow> u32 \<times> memory" where
  "getrandom_custom fill dest len mem =
     (let (ok, mem) = host_fill fill dest len mem in (if ok then 0 else 1, mem))"

definition getrandom_v03_custom :: "fill_random \<Rightarrow> u32 \<Rightarrow> nat \<Rightarrow> memory \<Rightarrow> (nat + unit) \<times> memory" where
  "getrandom_v03_custom fill dest len mem =
     (let (ok, mem) = host_fill fill dest len mem in (if ok then Inr () else Inl 1, mem))"

section \<open>Properties\<close>

text \<open>What the direct backend does with the clock at construction and at a call, on \<open>Instant\<close> as the wasm
  build has it: \<open>Instant::now().checked_sub(..).unwrap_or_else(Instant::now)\<close>, then additions, which
  panic where \<open>checked_add\<close> has no result.\<close>

definition wasm_epoch :: "u64 \<Rightarrow> u64 \<Rightarrow> u64 \<Rightarrow> wasm_instant option" where
  "wasm_epoch us us' now_ms = Option.bind (wasm_instant_now True us) (\<lambda>now.
     case checked_sub_duration now (duration_from_millis now_ms) of
       Some epoch \<Rightarrow> Some epoch
     | None \<Rightarrow> wasm_instant_now True us')"

abbreviation instant_ns :: "wasm_instant \<Rightarrow> nat" where
  "instant_ns i \<equiv> dur_ns (instant_duration i)"

lemma instant_add:
  assumes "dur_ok (instant_duration i)" "instant_ns i \<le> 2 ^ 64 * 1000 + k * (2 ^ 64 * 1000000)" "k \<le> 2"
  shows "\<exists>j. checked_add_duration i (duration_from_millis ms) = Some j \<and> dur_ok (instant_duration j)
    \<and> instant_ns j = instant_ns i + millis (unat ms)"
proof -
  have "millis (unat ms) \<le> 2 ^ 64 * 1000000" using u64_less [of ms] by (simp add: millis_def)
  moreover have "k * (2 ^ 64 * 1000000) \<le> 2 * (2 ^ 64 * 1000000 :: nat)" using assms(3) by (rule mult_le_mono1)
  ultimately have "instant_ns i + millis (unat ms) \<le> DURATION_MAX_NS" using assms(2) by (simp add: DURATION_MAX_NS_def)
  then show ?thesis using duration_add [OF assms(1) duration_from(3), of ms] duration_from(4) [of ms]
    by (cases i) (auto split: option.split_asm)
qed

lemma wasm_epoch_ns:
  "\<exists>e. wasm_epoch us us' n0 = Some e \<and> dur_ok (instant_duration e) \<and> instant_ns e \<le> 2 ^ 64 * 1000
     \<and> instant_ns e = (if millis (unat n0) \<le> unat us * 1000 then unat us * 1000 - millis (unat n0) else unat us' * 1000)"
proof -
  note sub = duration_sub [OF duration_from(1,3), of us n0, unfolded duration_from]
  have b: "unat us * 1000 \<le> 2 ^ 64 * 1000" "unat us' * 1000 \<le> 2 ^ 64 * 1000"
    using u64_less [of us] u64_less [of us'] by simp_all
  show ?thesis
  proof (cases "duration_checked_sub (duration_from_micros us) (duration_from_millis n0)")
    case None
    with sub b show ?thesis by (simp add: wasm_epoch_def wasm_instant_now_def duration_from)
  next
    case (Some d)
    with sub b show ?thesis by (simp add: wasm_epoch_def wasm_instant_now_def)
  qed
qed

text \<open>
  C30. The clock arithmetic of the tunnel is exact on wasm and never panics. Whatever microseconds
  the host's clock shows at construction and whatever \<open>u64\<close> the construction time, the handshake
  timeout and a later call time are: computed on \<open>Instant\<close> as the wasm build has it, the epoch, the
  construction instant, the handshake deadline and the instant of the call all exist and are those
  of the tunnel, the call comes after the epoch by its milliseconds, and comparing it with the
  deadline gives what the tunnel's own numbers give. A construction time before the start of the
  host's clock has the epoch fall back to the clock.
\<close>

theorem instants_representable:
  assumes "map_option instant_ns (wasm_instant_now True us) = Some (instant_now E)"
    and "map_option instant_ns (wasm_instant_now True us') = Some (instant_now_again E)"
    and "cfg_handshake_timeout_ms config = unat timeout"
  shows "\<exists>epoch now deadline call since.
      wasm_epoch us us' n0 = Some epoch
    \<and> checked_add_duration epoch (duration_from_millis n0) = Some now
    \<and> checked_add_duration now (duration_from_millis timeout) = Some deadline
    \<and> checked_add_duration epoch (duration_from_millis n) = Some call
    \<and> checked_sub_instant call epoch = Some since
    \<and> (let t = initial_tunnel E r config la (unat n0) ice in
        instant_ns epoch = dt_epoch t \<and> instant_ns now = dt_last_now t
        \<and> instant_ns deadline = dt_handshake_deadline t \<and> instant_ns call = dt_epoch t + millis (unat n)
        \<and> dur_ns since = millis (unat n)
        \<and> (instant_duration deadline \<le> instant_duration call \<longleftrightarrow> dt_handshake_deadline t \<le> dt_epoch t + millis (unat n)))"
proof -
  have clock: "instant_now E = unat us * 1000" "instant_now_again E = unat us' * 1000"
    using assms(1,2) by (simp_all add: wasm_instant_now_def duration_from)
  obtain e where e: "wasm_epoch us us' n0 = Some e" "dur_ok (instant_duration e)" "instant_ns e \<le> 2 ^ 64 * 1000"
    and "instant_ns e = (if millis (unat n0) \<le> unat us * 1000 then unat us * 1000 - millis (unat n0) else unat us' * 1000)"
    using wasm_epoch_ns [of us us' n0] by blast
  then have epoch: "epoch_of E (unat n0) = instant_ns e" by (simp add: epoch_of_def instant_checked_sub_def clock)
  have ms: "millis (unat m) \<le> 2 ^ 64 * 1000000" for m :: u64 using u64_less [of m] by (simp add: millis_def)
  obtain now where now: "checked_add_duration e (duration_from_millis n0) = Some now" "dur_ok (instant_duration now)"
    "instant_ns now = instant_ns e + millis (unat n0)"
    using instant_add [OF e(2), of 0 n0] e(3) by auto
  obtain deadline where d: "checked_add_duration now (duration_from_millis timeout) = Some deadline"
    "dur_ok (instant_duration deadline)" "instant_ns deadline = instant_ns now + millis (unat timeout)"
    using instant_add [OF now(2), of 1 timeout] now(3) e(3) ms [of n0] by auto
  obtain call where c: "checked_add_duration e (duration_from_millis n) = Some call" "dur_ok (instant_duration call)"
    "instant_ns call = instant_ns e + millis (unat n)"
    using instant_add [OF e(2), of 0 n] e(3) by auto
  obtain since where s: "checked_sub_instant call e = Some since" "dur_ns since = millis (unat n)"
    using duration_sub [OF c(2) e(2)] c(3) by (cases call; cases e) (auto split: option.split_asm)
  show ?thesis
    using e(1) now(1,3) d(1,3) c(1,3) s dur_ns_le [OF d(2) c(2)] epoch assms(3)
    by (intro exI conjI) (assumption | simp add: initial_tunnel_def Let_def)+
qed

theorem instants_representable_witness:
  "\<exists>epoch deadline. wasm_epoch 5000000 5000000 5000 = Some epoch \<and> instant_ns epoch = 0
     \<and> instant_ns deadline = dt_handshake_deadline (initial_tunnel scripted Offerer script_config script_addr 5000 script_ice0)"
proof -
  have "map_option instant_ns (wasm_instant_now True 5000000) = Some (instant_now scripted)"
    "map_option instant_ns (wasm_instant_now True 5000000) = Some (instant_now_again scripted)"
    "cfg_handshake_timeout_ms script_config = unat (30000 :: u64)"
    by (simp_all add: wasm_instant_now_def duration_from millis_def script_config_def tunnel_config_new_def)
  from instants_representable [OF this, of 5000 6000 Offerer script_addr script_ice0] show ?thesis
    by (auto simp: initial_tunnel_def epoch_of_def instant_checked_sub_def Let_def)
qed

text \<open>
  C31. The time of the wasm build is exact to the nanosecond. On durations with fewer than \<open>10 ^ 9\<close>
  nanoseconds beside the seconds, which all operations keep: adding a duration to an instant or a
  time is addition of nanoseconds and fails exactly past \<open>Duration::MAX\<close>, taking one off is
  subtraction and fails exactly below zero, the difference of two instants exists exactly when the
  first is not the earlier one, \<open>sub_time\<close> gives the distance of two times with its sign and never
  panics, the order is that of the numbers, and every time lies between \<open>MIN\<close> and \<open>MAX\<close>.
\<close>

theorem time_differences:
  assumes "dur_ok a" "dur_ok b"
  shows "(case system_checked_add_duration (SystemTime a) b of
       None \<Rightarrow> DURATION_MAX_NS < dur_ns a + dur_ns b
     | Some t \<Rightarrow> dur_ok (system_duration t) \<and> dur_ns (system_duration t) = dur_ns a + dur_ns b)
   \<and> (case checked_add_duration (WasmInstant a) b of
       None \<Rightarrow> DURATION_MAX_NS < dur_ns a + dur_ns b
     | Some i \<Rightarrow> dur_ok (instant_duration i) \<and> instant_ns i = dur_ns a + dur_ns b)
   \<and> (case system_checked_sub_duration (SystemTime a) b of
       None \<Rightarrow> dur_ns a < dur_ns b
     | Some t \<Rightarrow> dur_ok (system_duration t) \<and> dur_ns a = dur_ns (system_duration t) + dur_ns b)
   \<and> (case checked_sub_duration (WasmInstant a) b of
       None \<Rightarrow> dur_ns a < dur_ns b
     | Some i \<Rightarrow> dur_ok (instant_duration i) \<and> dur_ns a = instant_ns i + dur_ns b)
   \<and> (case checked_sub_instant (WasmInstant a) (WasmInstant b) of
       None \<Rightarrow> dur_ns a < dur_ns b
     | Some d \<Rightarrow> dur_ok d \<and> dur_ns a = dur_ns b + dur_ns d)
   \<and> (case sub_time (SystemTime a) (SystemTime b) of
       None \<Rightarrow> False
     | Some (Inr d) \<Rightarrow> dur_ok d \<and> dur_ns a = dur_ns b + dur_ns d
     | Some (Inl d) \<Rightarrow> dur_ok d \<and> dur_ns b = dur_ns a + dur_ns d \<and> 0 < dur_ns d)
   \<and> (a \<le> b \<longleftrightarrow> dur_ns a \<le> dur_ns b) \<and> (a = b \<longleftrightarrow> dur_ns a = dur_ns b)
   \<and> dur_ns (system_duration SYSTEM_TIME_MIN) = 0 \<and> dur_ns (system_duration UNIX_EPOCH) = 0
   \<and> dur_ns (system_duration SYSTEM_TIME_MAX) = DURATION_MAX_NS \<and> dur_ns a \<le> DURATION_MAX_NS"
proof -
  have bounds: "dur_ns (system_duration SYSTEM_TIME_MIN) = 0" "dur_ns (system_duration UNIX_EPOCH) = 0"
    "dur_ns (system_duration SYSTEM_TIME_MAX) = DURATION_MAX_NS"
    by (simp_all add: SYSTEM_TIME_MIN_def SYSTEM_TIME_MAX_def UNIX_EPOCH_def DURATION_ZERO_def DURATION_MAX_def
        duration_from_secs_def dur_ns_def DURATION_MAX_NS_def unat_u64_max)
  have dist: "case sub_time (SystemTime a) (SystemTime b) of
       None \<Rightarrow> False
     | Some (Inr d) \<Rightarrow> dur_ok d \<and> dur_ns a = dur_ns b + dur_ns d
     | Some (Inl d) \<Rightarrow> dur_ok d \<and> dur_ns b = dur_ns a + dur_ns d \<and> 0 < dur_ns d"
    using duration_sub [OF assms] duration_sub [OF assms(2,1)] by (auto split: option.splits)
  show ?thesis
    using bounds dist duration_add [OF assms] duration_sub [OF assms] dur_ns_le [OF assms] dur_ns_inj [OF assms] dur_ns_bound [OF assms(1)]
    by (auto simp del: sub_time.simps split: option.splits)
qed

text \<open>A carry, a borrow and an overflow.\<close>

theorem time_differences_witness:
  "(\<exists>t. system_checked_add_duration (SystemTime (Duration 1 999999999)) (Duration 2 1) = Some t
      \<and> dur_ns (system_duration t) = 4000000000)
   \<and> (\<exists>d. checked_sub_instant (WasmInstant (Duration 2 1)) (WasmInstant (Duration 1 999999999)) = Some d \<and> dur_ns d = 2)
   \<and> checked_add_duration (WasmInstant DURATION_MAX) (Duration 0 1) = None"
proof -
  have ok: "dur_ok (Duration 1 999999999)" "dur_ok (Duration 2 1)" "dur_ok DURATION_MAX" "dur_ok (Duration 0 1)"
    by (simp_all add: dur_ok_def DURATION_MAX_def)
  have ns: "dur_ns (Duration 1 999999999) = 1999999999" "dur_ns (Duration 2 1) = 2000000001"
    "dur_ns DURATION_MAX = DURATION_MAX_NS" "dur_ns (Duration 0 1) = 1"
    by (simp_all add: dur_ns_def DURATION_MAX_def DURATION_MAX_NS_def unat_u64_max)
  note add = time_differences [OF ok(1,2), THEN conjunct1]
  note sub = time_differences [OF ok(2,1), THEN conjunct2, THEN conjunct2, THEN conjunct2, THEN conjunct2, THEN conjunct1]
  note over = time_differences [OF ok(3,4), THEN conjunct2, THEN conjunct1]
  have 1: "\<exists>t. system_checked_add_duration (SystemTime (Duration 1 999999999)) (Duration 2 1) = Some t
      \<and> dur_ns (system_duration t) = 4000000000"
    using add by (simp add: ns DURATION_MAX_NS_def del: system_checked_add_duration.simps split: option.split_asm)
  have 2: "\<exists>d. checked_sub_instant (WasmInstant (Duration 2 1)) (WasmInstant (Duration 1 999999999)) = Some d \<and> dur_ns d = 2"
    using sub by (simp add: ns del: checked_sub_instant.simps split: option.split_asm)
  have "dur_ok (instant_duration i) \<Longrightarrow> instant_ns i = DURATION_MAX_NS + 1 \<Longrightarrow> False" for i
    using dur_ns_bound [of "instant_duration i"] by simp
  then have 3: "checked_add_duration (WasmInstant DURATION_MAX) (Duration 0 1) = None"
    using over by (auto simp: ns simp del: checked_add_duration.simps split: option.split_asm)
  show ?thesis using 1 2 3 by blast
qed

text \<open>
  C32. The three consumers of host randomness agree and never accept a short read: for a request
  that fits the address space, each of them succeeds exactly when the request is empty or the host
  reports exactly the requested number of bytes, and an empty request does not call the host.
\<close>

theorem randomness_exact:
  assumes "len < 2 ^ 32"
  shows "(fill_bytes True fill dest len mem \<noteq> None) = (len = 0 \<or> unat (fst (fill dest len mem)) = len)
    \<and> (fst (getrandom_custom fill dest len mem) = 0) = (len = 0 \<or> unat (fst (fill dest len mem)) = len)
    \<and> is_ok (fst (getrandom_v03_custom fill dest len mem)) = (len = 0 \<or> unat (fst (fill dest len mem)) = len)
    \<and> (len = 0 \<longrightarrow> fill_bytes True fill dest len mem = Some mem \<and> getrandom_custom fill dest len mem = (0, mem))"
proof -
  have eq: "w = of_nat len \<longleftrightarrow> unat w = len" for w :: u32
  proof -
    have "unat (word_of_nat len :: u32) = len" using assms by (simp add: unat_of_nat take_bit_eq_mod)
    then show ?thesis using word_unat_eq_iff [of w "word_of_nat len"] by simp
  qed
  obtain w m where f: "fill dest len mem = (w, m)" by (cases "fill dest len mem")
  show ?thesis using f eq [of w]
    by (auto simp: fill_bytes_def getrandom_custom_def getrandom_v03_custom_def host_fill_def)
qed

theorem randomness_exact_witness:
  "(fst (getrandom_custom (\<lambda>p l m. (of_nat (l - 1), m)) 64 32 (\<lambda>_. 0)) = 0) = False"
proof -
  have "(32 :: nat) < 2 ^ 32" by simp
  from randomness_exact [OF this, of "\<lambda>p l m. (of_nat (l - 1), m)" 64 "\<lambda>_. 0"] show ?thesis by simp
qed

end
