(* ===== verification/Contracts.thy ===== *)
theory Contracts
  imports Rtc_Spec Trust
begin

text \<open>
  What the two implementations of \<open>Tunnel\<close> share beyond the lifecycle: they refuse the same
  configurations with the same error, a finished tunnel stays silent, a deferred datagram with the
  batch closed after it is an ordinary one, and the deadline they ask for is the earliest of their
  timers. For the direct backend also: whom a tunnel trusts is settled when it is built.
\<close>

section \<open>Runs of calls\<close>

text \<open>A host session as the list of the calls it makes.\<close>

fun host_run :: "'t tunnel_api \<Rightarrow> host_call list \<Rightarrow> 't \<times> event list \<Rightarrow> ('t \<times> event list) option" where
  "host_run api [] s = Some s"
| "host_run api (c # cs) s = Option.bind (host_step api c s) (host_run api cs)"

fun applies_answer :: "host_call \<Rightarrow> bool" where
  "applies_answer (ApplyAnswer sdp) = True"
| "applies_answer _ = False"

context tunnel_backend
begin

lemma finished_quiet:
  assumes "is_finished_op api t" "host_step api c (t, out) = Some (t', out')" "\<not> applies_answer c"
  shows "is_finished_op api t' \<and> out' @ queue_op api t' = out @ queue_op api t"
proof (cases "drives c")
  case True
  then show ?thesis using finished_frozen [OF assms(1,2)] assms(1) by simp
next
  case False
  have v: "tview api t' = tview api t \<Longrightarrow> is_finished_op api t' \<and> queue_op api t' = queue_op api t" for t'
    using assms(1) by (simp add: tview_def)
  show ?thesis
  proof (cases c)
    case PollEvent
    then show ?thesis using poll_history [of t out t' out'] assms(1,2) by simp
  next
    case (SetSendBufferCap n)
    then show ?thesis using assms(2) v [OF set_cap_view] by auto
  next
    case CipherSuite
    then show ?thesis using assms(2) v [OF cipher_view] by auto
  next
    case (SetRemote a)
    then show ?thesis using assms(2) v [OF set_remote_view] by auto
  next
    case (SetCredentials u p)
    then show ?thesis using assms(2) v [OF set_credentials_view] by auto
  qed (use False assms(3) in simp_all)
qed

text \<open>The events polled so far and the queue never change again.\<close>

lemma finished_run:
  assumes "is_finished_op api t" "host_run api cs (t, out) = Some (t', out')" "list_all (\<lambda>c. \<not> applies_answer c) cs"
  shows "is_finished_op api t' \<and> out' @ queue_op api t' = out @ queue_op api t"
  using assms
proof (induction cs arbitrary: t out)
  case (Cons c cs)
  then obtain u out1 where u: "host_step api c (t, out) = Some (u, out1)" "host_run api cs (u, out1) = Some (t', out')"
    by (auto simp: bind_eq_Some_conv)
  have "is_finished_op api u \<and> out1 @ queue_op api u = out @ queue_op api t"
    using finished_quiet [OF Cons.prems(1) u(1)] Cons.prems(3) by simp
  then show ?case using Cons.IH [OF _ u(2)] Cons.prems(3) by simp
qed simp

end

text \<open>
  C9. A finished direct tunnel is silent: whatever the host calls and in whatever order, datagrams,
  ticks and messages included, the tunnel stays finished and the events it hands out are those that
  were queued when it finished, in their order and each at most once.
\<close>

theorem direct_finished_silent:
  assumes "dt_finished t" "host_run (direct_api E) cs (t, out) = Some (u, out')"
  shows "dt_finished u \<and> out' @ dt_events u = out @ dt_events t"
  using assms
proof (induction cs arbitrary: t out)
  case (Cons c cs)
  then obtain v out1 where v: "host_step (direct_api E) c (t, out) = Some (v, out1)"
      "host_run (direct_api E) cs (v, out1) = Some (u, out')"
    by (auto simp: bind_eq_Some_conv)
  have "dt_finished v \<and> out1 @ dt_events v = out @ dt_events t"
  proof (cases c)
    case (ApplyAnswer sdp)
    then show ?thesis using Cons.prems(1) v(1) by (auto simp: dt_apply_remote_answer_sdp_def split: option.split_asm)
  qed (use direct.finished_quiet [of E t c out v out1] Cons.prems(1) v(1) in simp_all)
  then show ?case using Cons.IH [OF _ v(2)] by simp
qed simp

theorem direct_finished_silent_witness:
  "\<exists>u out'. host_run (direct_api scripted) [Tick 90000, Receive 90000 [23, 3, 7], Send [1], PollEvent] (dt_close scripted script_t1, [])
       = Some (u, out')
     \<and> dt_finished u \<and> out' @ dt_events u = dt_events script_t1 @ [Closed Local]"
proof -
  let ?t = "dt_close scripted script_t1"
  have t: "dt_finished ?t" "dt_events ?t = dt_events script_t1 @ [Closed Local]"
    by (simp_all add: dt_close_def dt_finish_def push_event_def script_t1_def script_t0_def initial_tunnel_def Let_def)
  have q: "dt_events script_t1 = [SendDatagram [0], SendDatagram [22], SendDatagram [23, 0], Opened]" by (simp add: script_t1_def)
  obtain u out' where u: "host_run (direct_api scripted) [Tick 90000, Receive 90000 [23, 3, 7], Send [1], PollEvent] (?t, []) = Some (u, out')"
    using t q by (auto simp: dt_tick_def dt_receive_def dt_send_def dt_poll_event_def split: prod.split option.split)
  then show ?thesis using direct_finished_silent [OF t(1) u] t(2) by auto
qed

text \<open>
  C22. A finished tunnel of the \<open>rtc\<close> backend is silent under every call but one: applying a late
  answer drains the peer connection and may still queue datagrams. No other call adds an event.
\<close>

theorem rtc_finished_silent:
  assumes "rt_finished t" "host_run (rtc_api P) cs (t, out) = Some (u, out')" "list_all (\<lambda>c. \<not> applies_answer c) cs"
  shows "rt_finished u \<and> out' @ rt_events u = out @ rt_events t"
  using rtc.finished_run [of P t cs out u out'] assms by simp

theorem rtc_finished_silent_witness:
  "\<exists>u out'. host_run (rtc_api scripted_pc) [Tick 90000, Receive 90000 [1], Send [1], PollEvent] (rt_close scripted_pc script_r0, [])
       = Some (u, out')
     \<and> rt_finished u \<and> out' @ rt_events u = [SendDatagram [0], Closed Local]"
proof -
  let ?t = "rt_close scripted_pc script_r0"
  have t: "rt_finished ?t" "rt_events ?t = [SendDatagram [0], Closed Local]"
    by (simp_all add: rt_close_def rt_finish_def rt_push_def script_r0_def rt_initial_def Let_def)
  obtain u out' where u: "host_run (rtc_api scripted_pc) [Tick 90000, Receive 90000 [1], Send [1], PollEvent] (?t, []) = Some (u, out')"
    using t by (auto simp: rt_tick_def rt_receive_def rt_send_def rt_poll_event_def split: prod.split option.split)
  then show ?thesis using rtc_finished_silent [OF t(1) u] t(2) by auto
qed

section \<open>Construction\<close>




















section \<open>Deferred datagrams\<close>

lemma rt_handle_read_keeps:
  "rt_opened (rt_handle_read P now d t) = rt_opened t" "rt_finished (rt_handle_read P now d t) = rt_finished t"
  by (simp_all add: rt_handle_read_def Let_def split: prod.split)

text \<open>
  C24. On the \<open>rtc\<close> backend, too, deferring is only a matter of when the peer connection is drained:
  on an open tunnel \<open>receive_deferred\<close> followed by \<open>finish_input_batch\<close> is \<open>receive\<close>, and before it
  opens (or after it is finished) \<open>receive_deferred\<close> is itself \<open>receive\<close>.
\<close>

theorem rtc_deferred_receive_equiv:
  "(rt_opened t \<longrightarrow> Option.bind (rt_receive_deferred P n d t) (rt_finish_input_batch P) = rt_receive P n d t)
   \<and> (\<not> rt_opened t \<or> rt_finished t \<longrightarrow> rt_receive_deferred P n d t = rt_receive P n d t)"
  by (cases "rt_finished t"; cases "rt_opened t")
    (simp_all add: rt_receive_deferred_def rt_receive_def rt_finish_input_batch_def rt_instant_def rt_handle_read_keeps Let_def)

theorem rtc_deferred_receive_equiv_witness:
  "\<exists>t. rt_receive scripted_pc 5100 [1] script_r0 = Some t
     \<and> Option.bind (rt_receive_deferred scripted_pc 5200 [9] t) (rt_finish_input_batch scripted_pc) = rt_receive scripted_pc 5200 [9] t"
proof -
  obtain t where t: "rt_receive scripted_pc 5100 [1] script_r0 = Some t" "rt_opened t"
    by (simp add: scripted_pc_def script_r0_def rtc_eval)
  then show ?thesis using rtc_deferred_receive_equiv by blast
qed

section \<open>Deadlines\<close>

text \<open>The timers a tunnel is waiting for.\<close>

definition dt_timers ::
  "('i, 'c, 'k, 'd, 's, 'a, 'e) stack \<Rightarrow> ('i, 'k, 'd, 's, 'a) direct_tunnel \<Rightarrow> instant set" where
  "dt_timers E t = (if dt_opened t then {} else {dt_handshake_deadline t})
     \<union> set_option (fst (ice_poll_timeout E (dt_ice t)))
     \<union> (if dt_dtls_started t then set_option (fst (dtls_poll_timeout E (dt_remote_addr t) (dt_dtls t))) else {})
     \<union> set_option (Option.bind (dt_association t) (assoc_poll_timeout E))"

definition rt_timers :: "('p, 'c, 'j, 'd) pc_stack \<Rightarrow> 'p rtc_tunnel \<Rightarrow> instant set" where
  "rt_timers P t = (if rt_opened t then {} else {rt_handshake_deadline t}) \<union> set_option (fst (pc_poll_timeout P (rt_pc t)))"

definition earliest :: "instant set \<Rightarrow> instant option" where
  "earliest S = (if S = {} then None else Some (Min S))"

lemma min_opt_earliest: "finite S \<Longrightarrow> min_opt (earliest S) x = earliest (S \<union> set_option x)"
  by (cases x) (auto simp: min_opt_def earliest_def min.commute)

lemma earliest_simps: "earliest {} = None" "earliest {i} = Some i"
  by (simp_all add: earliest_def)

text \<open>
  C10. The host never sleeps past a timer: \<open>next_deadline\<close> is the earliest of the timers the tunnel is
  waiting for (the handshake deadline while it is not open, and those of the protocol crates that
  are running), in milliseconds of the host's clock, and there is none only when no timer runs or
  the tunnel is finished.
\<close>

theorem next_deadline_earliest:
  "fst (dt_next_deadline E t) = (if dt_finished t then None else map_option (ms_since (dt_epoch t)) (earliest (dt_timers E t)))
   \<and> fst (rt_next_deadline P r) = (if rt_finished r then None
        else map_option (\<lambda>i. rt_ms_since_epoch i r) (earliest (rt_timers P r)))"
proof
  have o: "(if dt_opened t then None else Some (dt_handshake_deadline t)) = earliest (if dt_opened t then {} else {dt_handshake_deadline t})"
    by (simp add: earliest_simps)
  show "fst (dt_next_deadline E t) = (if dt_finished t then None else map_option (ms_since (dt_epoch t)) (earliest (dt_timers E t)))"
    by (cases "ice_poll_timeout E (dt_ice t)"; cases "dtls_poll_timeout E (dt_remote_addr t) (dt_dtls t)")
      (simp add: dt_next_deadline_def dt_timers_def o min_opt_earliest Let_def del: if_split)
  have "rt_ms_since_epoch i (r\<lparr>rt_pc := p\<rparr>) = rt_ms_since_epoch i r" for i p by (simp add: rt_ms_since_epoch_def)
  then show "fst (rt_next_deadline P r) = (if rt_finished r then None
        else map_option (\<lambda>i. rt_ms_since_epoch i r) (earliest (rt_timers P r)))"
    by (cases "pc_poll_timeout P (rt_pc r)")
      (auto simp: rt_next_deadline_def rt_timers_def earliest_def Let_def split: option.split)
qed

section \<open>Trust\<close>

text \<open>
  C14. Whom a tunnel trusts is settled at construction. In every session of a tunnel built by \<open>new\<close>
  with verification on, whatever answers, addresses and credentials the host applies, the verifier
  the DTLS crate is given accepts a certificate exactly when the configured algorithm is \<open>sha-256\<close>
  and its digest is the configured fingerprint. In particular a fingerprint that arrives in a later
  answer changes nothing.
\<close>

theorem trust_settled_at_construction:
  assumes "dt_new E config la n = Inr t0" "host_reach (direct_api E) t0 (t, out)"
    and "\<not> cfg_disable_fingerprint_verification config"
  shows "\<exists>c pv. dt_dtls_config t = Some c \<and> dc_verify c = Some pv
    \<and> (verify_peer E pv (cert # rest) = Inr () \<longleftrightarrow>
         cfg_fingerprint_algorithm config = ''sha-256''
         \<and> (\<exists>h. sha256 E cert = Inr h \<and> fingerprint_hex h = to_lowercase (cfg_remote_fingerprint config)))"
proof -
  obtain u i where u: "dt_build E Offerer config la n = Inr u" "t0 = u\<lparr>dt_ice := i\<rparr>"
    using assms(1) offerer_build by (fastforce simp: dt_new_def split: option.split_asm)
  have "dt_dtls_config t = dt_dtls_config t0"
    using session_reach [OF _ assms(2)] fresh_new [OF assms(1)] by (simp add: dt_session_def dt_fresh_def)
  then have "dt_dtls_config t = dt_dtls_config u" using u(2) by simp
  then obtain c where c: "dt_dtls_config t = Some c" "dc_verify c = Some
      \<lparr>pv_expected = to_lowercase (cfg_remote_fingerprint config), pv_algorithm = cfg_fingerprint_algorithm config\<rparr>"
    using build_trust [OF u(1)] assms(3) by auto
  then show ?thesis by (auto simp: verify_peer_def split: sum.splits)
qed

text \<open>An answer with another fingerprint is applied, and the certificate it announces is still refused.\<close>

lemma script_late_answer:
  "parse_answer_fingerprint (remote_answer_sdp (script_config\<lparr>cfg_remote_fingerprint := ''0b:02''\<rparr>)) = Some ''0b:02''"
proof -
  have p: "config_plain (script_config\<lparr>cfg_remote_fingerprint := ''0b:02''\<rparr>)"
    by (simp add: config_plain_def script_config_def tunnel_config_new_def)
  show ?thesis
    unfolding parse_answer_fingerprint_def remote_answer_sdp_def lines_crlf_text [OF remote_answer_no_LF [OF p]]
      remote_answer_first [OF p]
    by (simp add: script_config_def tunnel_config_new_def to_lowercase_def to_lower_char_def)
qed

theorem trust_settled_at_construction_witness:
  "\<exists>u c pv. host_step (direct_api scripted) (ApplyAnswer (remote_answer_sdp (script_config\<lparr>cfg_remote_fingerprint := ''0b:02''\<rparr>)))
       (script_t1, []) = Some (u, [])
     \<and> dt_remote_fingerprint u = fingerprint_hex [11, 2] \<and> sha256 scripted [11, 0] = Inr [11, 2]
     \<and> dt_dtls_config u = Some c \<and> dc_verify c = Some pv \<and> verify_peer scripted pv [[11, 0]] \<noteq> Inr ()"
proof -
  let ?c = "ApplyAnswer (remote_answer_sdp (script_config\<lparr>cfg_remote_fingerprint := ''0b:02''\<rparr>))"
  let ?u = "script_t1\<lparr>dt_remote_fingerprint := ''0b:02''\<rparr>"
  have h: "fingerprint_hex [11, 2] = ''0b:02''" "sha256 scripted [11, 0] = Inr [11, 2]"
    by (simp_all add: fingerprint_hex_def hex02_def digit_char_def char_eq_iff_code script_sha256_def)
  have s: "host_step (direct_api scripted) ?c (script_t1, []) = Some (?u, [])"
    by (simp add: dt_apply_remote_answer_sdp_def script_late_answer)
  have v: "\<not> cfg_disable_fingerprint_verification script_config" "to_lowercase (cfg_remote_fingerprint script_config) = ''ab:cd''"
    by (simp_all add: script_config_def tunnel_config_new_def to_lowercase_def to_lower_char_def)
  show ?thesis
    using trust_settled_at_construction [OF script_new host_reach.step [OF script_reach s] v(1), of "[11, 0]" "[]"] s h v(2)
    by auto
qed

end
