(* ===== verification/Timeline.thy ===== *)
theory Timeline
  imports Contracts
begin

text \<open>
  The handshake trace as a record of time: under a host clock that never goes back, the phases of the
  direct backend are stamped in the order in which the layers come up, each with the time of the call
  that saw it, between the time the tunnel was built and the time of the last call. The ICE phase is
  outside this order, its time is the one the ICE crate gives its event.
\<close>

section \<open>What one call can stamp\<close>

definition keeps_or_stamps :: "nat \<Rightarrow> nat option \<Rightarrow> nat option \<Rightarrow> bool" where
  "keeps_or_stamps n a b = (b = a \<or> a = None \<and> b = Some n)"

text \<open>From \<open>t\<close> to \<open>u\<close> the clock stands still, and a phase keeps its stamp or gets the current time.\<close>

definition stamped :: "('i, 'k, 'd, 's, 'a) direct_tunnel \<Rightarrow> ('i, 'k, 'd, 's, 'a) direct_tunnel \<Rightarrow> bool" where
  "stamped t u = (dt_epoch u = dt_epoch t \<and> dt_last_now u = dt_last_now t
     \<and> start_ms (dt_trace u) = start_ms (dt_trace t)
     \<and> (let keeps = keeps_or_stamps (dt_ms t (dt_last_now t)) in
        keeps (dtls_ms (dt_trace t)) (dtls_ms (dt_trace u)) \<and> keeps (sctp_ms (dt_trace t)) (sctp_ms (dt_trace u))
        \<and> keeps (opened_ms (dt_trace t)) (opened_ms (dt_trace u))))"

text \<open>The part of a tunnel \<open>stamped\<close> reads.\<close>

definition clock_view :: "('i, 'k, 'd, 's, 'a) direct_tunnel \<Rightarrow> (nat \<times> nat) \<times> nat \<times> nat option \<times> nat option \<times> nat option" where
  "clock_view t = ((dt_epoch t, dt_last_now t), start_ms (dt_trace t), dtls_ms (dt_trace t), sctp_ms (dt_trace t), opened_ms (dt_trace t))"

lemma stamped_same: "clock_view u = clock_view t \<Longrightarrow> stamped t u"
  by (simp add: stamped_def clock_view_def keeps_or_stamps_def)

lemma stamped_refl [simp, intro]: "stamped t t"
  by (rule stamped_same) simp

lemma stamped_trans [trans]: "stamped t u \<Longrightarrow> stamped u v \<Longrightarrow> stamped t v"
  by (auto simp: stamped_def Let_def keeps_or_stamps_def)

lemma stamped_view: "clock_view v = clock_view u \<Longrightarrow> stamped t v = stamped t u"
  by (simp add: stamped_def clock_view_def Let_def)

lemma clock_updates [simp]:
  "clock_view (t\<lparr>dt_ice := i\<rparr>) = clock_view t" "clock_view (t\<lparr>dt_dtls := d\<rparr>) = clock_view t"
  "clock_view (t\<lparr>dt_dtls_started := b\<rparr>) = clock_view t" "clock_view (t\<lparr>dt_sctp := s\<rparr>) = clock_view t"
  "clock_view (t\<lparr>dt_sctp_config := c\<rparr>) = clock_view t" "clock_view (t\<lparr>dt_association := a\<rparr>) = clock_view t"
  "clock_view (t\<lparr>dt_association_handle := h\<rparr>) = clock_view t" "clock_view (t\<lparr>dt_channel_dialed := b\<rparr>) = clock_view t"
  "clock_view (t\<lparr>dt_events := q\<rparr>) = clock_view t" "clock_view (t\<lparr>dt_finished := b\<rparr>) = clock_view t"
  "clock_view (t\<lparr>dt_dropped_datagrams := w\<rparr>) = clock_view t" "clock_view (t\<lparr>dt_remote_addr := x\<rparr>) = clock_view t"
  "clock_view (t\<lparr>dt_remote_fingerprint := f\<rparr>) = clock_view t" "clock_view (t\<lparr>dt_send_buffer_cap := n\<rparr>) = clock_view t"
  by (simp_all add: clock_view_def)

lemma clock_push [simp]: "clock_view (push_event e t) = clock_view t"
  by (simp add: push_event_def)

lemma clock_finish [simp]: "clock_view (dt_finish r t) = clock_view t"
  by (simp add: dt_finish_def)

section \<open>The layers\<close>

lemma clock_start_dtls [simp]: "clock_view (start_dtls E t) = clock_view t"
  by (simp add: start_dtls_def activate_dtls_def Let_def split: option.split prod.split)

lemma clock_start_sctp: "start_sctp E t = (r, u) \<Longrightarrow> clock_view u = clock_view t"
  by (auto simp: start_sctp_def Let_def split: if_split_asm prod.split_asm sum.split_asm)

lemma clock_feed_sctp [simp]: "clock_view (feed_sctp E now d t) = clock_view t"
  by (auto simp: feed_sctp_def Let_def split: option.split prod.split datagram_event.split)

lemma clock_open_stream: "open_stream E t = (r, u) \<Longrightarrow> clock_view u = clock_view t"
  by (auto simp: open_stream_def Let_def split: option.split_asm prod.split_asm sum.split_asm)

lemma clock_drain_channel: "drain_channel E t = (r, u) \<Longrightarrow> clock_view u = clock_view t"
  by (auto simp: drain_channel_def dest: clock_open_stream split: if_split_asm)

lemma clock_drain_ice_writes: "drain_ice_writes E t = Some u \<Longrightarrow> clock_view u = clock_view t"
  unfolding drain_ice_writes_def
  by (erule while_let_inv [where I = "\<lambda>u. clock_view u = clock_view t"]) (auto split: prod.splits option.splits)

lemma clock_drain_ice_events: "drain_ice_events E t = Some u \<Longrightarrow> clock_view u = clock_view t"
  unfolding drain_ice_events_def
  by (erule while_let_inv [where I = "\<lambda>u. clock_view u = clock_view t"])
    (auto simp: Let_def clock_view_def observe_ice_def split: prod.splits option.splits ice_event.splits if_splits)

lemma clock_drain_dtls_transmits: "drain_dtls_transmits E t = Some u \<Longrightarrow> clock_view u = clock_view t"
  unfolding drain_dtls_transmits_def
  by (erule while_let_inv [where I = "\<lambda>u. clock_view u = clock_view t"]) (auto split: prod.splits option.splits)

lemma clock_read_stream: "read_stream E t = Some (r, u) \<Longrightarrow> clock_view u = clock_view t"
  by (auto simp: read_stream_def bind_eq_Some_conv split: option.split_asm if_split_asm)

lemma clock_poll_sctp: "poll_sctp E t = Some (readable, connected, lost, u) \<Longrightarrow> clock_view u = clock_view t"
  by (auto simp: poll_sctp_def bind_eq_Some_conv split: option.split_asm)

lemma clock_drain_sctp_transmits: "drain_sctp_transmits E t = Some (r, u) \<Longrightarrow> clock_view u = clock_view t"
  by (auto simp: drain_sctp_transmits_def bind_eq_Some_conv split: option.split_asm)

lemma stamped_note_sctp: "stamped t (note_sctp connected lost t)"
  by (simp add: note_sctp_def Let_def stamped_view [OF clock_finish])
    (simp add: stamped_def keeps_or_stamps_def observe_sctp_def Let_def)

lemma stamped_maybe_open: "stamped t (dt_maybe_open t)"
  by (simp add: dt_maybe_open_def stamped_view [OF clock_push])
    (simp add: stamped_def keeps_or_stamps_def observe_open_def Let_def)

lemma stamped_feed_dtls_events:
  "feed_dtls_events E now evs t = (r, u) \<Longrightarrow> dt_last_now t = now \<Longrightarrow> stamped t u"
proof (induction evs arbitrary: t)
  case (Cons ev evs)
  show ?case
  proof (cases ev)
    case HandshakeComplete
    let ?t = "t\<lparr>dt_dtls_connected := True, dt_trace := observe_dtls (dt_ms t now) (dt_trace t)\<rparr>"
    have t: "stamped t ?t" using Cons.prems(2) by (simp add: stamped_def keeps_or_stamps_def observe_dtls_def Let_def)
    obtain r' v where ss: "start_sctp E ?t = (r', v)" by (cases "start_sctp E ?t") auto
    have v: "stamped t v" using t stamped_view [OF clock_start_sctp [OF ss]] by blast
    have v': "dt_last_now v = now" "dt_last_now ?t = now" using v t Cons.prems(2) by (simp_all add: stamped_def)
    have "stamped v u \<or> stamped ?t u \<or> u = v"
      using Cons.prems(1) HandshakeComplete ss Cons.IH [OF _ v'(1)] Cons.IH [OF _ v'(2)]
      by (cases r') (auto simp: Let_def split: if_split_asm)
    then show ?thesis using t v stamped_trans by blast
  next
    case (ApplicationData d)
    have "dt_last_now (feed_sctp E now d t) = now"
      using clock_feed_sctp [of E now d t] Cons.prems(2) by (simp add: clock_view_def)
    then have "stamped (feed_sctp E now d t) u" using Cons ApplicationData by simp
    then show ?thesis using stamped_trans [OF stamped_same [OF clock_feed_sctp]] by blast
  qed (use Cons in simp)
qed simp

lemma stamped_feed_dtls: "feed_dtls E (dt_last_now t) d t = (r, u) \<Longrightarrow> stamped t u"
  by (auto simp: feed_dtls_def split: prod.split_asm sum.split_asm
      intro: stamped_same [OF clock_updates(2)] stamped_trans [OF stamped_same [OF clock_updates(2)] stamped_feed_dtls_events])

section \<open>The pump and the calls\<close>

lemma stamped_drain_sctp: "drain_sctp E t = Some (r, u) \<Longrightarrow> stamped t u"
proof -
  assume "drain_sctp E t = Some (r, u)"
  then obtain readable connected lost v where p: "poll_sctp E t = Some (readable, connected, lost, v)"
    and rest: "(if readable then read_stream E (note_sctp connected lost v)
      else Some (Inr (), note_sctp connected lost v)) = Some (r, u)"
    by (auto simp: drain_sctp_def Let_def bind_eq_Some_conv)
  have "stamped t v" by (rule stamped_same [OF clock_poll_sctp [OF p]])
  also have "stamped v (note_sctp connected lost v)" by (rule stamped_note_sctp)
  also have "stamped \<dots> u" using rest clock_read_stream by (auto intro!: stamped_same split: if_split_asm)
  finally show ?thesis .
qed

lemma stamped_pump_started: "pump_started E t = Some (r, u) \<Longrightarrow> stamped t u"
proof -
  assume eq: "pump_started E t = Some (r, u)"
  then obtain r1 t1 where 1: "drain_sctp E t = Some (r1, t1)"
    by (auto simp: pump_started_def bind_eq_Some_conv)
  obtain r2 t2 where 2: "drain_channel E t1 = (r2, t2)" by (cases "drain_channel E t1") auto
  have "clock_view u = clock_view t1"
    using eq 1 2 clock_drain_channel [OF 2]
    by (auto simp: pump_started_def try_then_Some bind_eq_Some_conv
        dest!: clock_drain_sctp_transmits clock_drain_dtls_transmits)
  then show ?thesis using stamped_view stamped_drain_sctp [OF 1] by blast
qed

lemma stamped_pump: "pump E t = Some (r, u) \<Longrightarrow> stamped t u"
proof -
  assume eq: "pump E t = Some (r, u)"
  then obtain t1 t2 where 1: "drain_ice_events E t = Some t1" and 2: "drain_ice_writes E t1 = Some t2"
    by (auto simp: pump_def bind_eq_Some_conv)
  let ?t3 = "if selected_pair E (dt_ice t2) \<and> \<not> dt_dtls_started t2 then start_dtls E t2 else t2"
  from eq 1 2 obtain r4 t4
    where 4: "(if dt_dtls_started ?t3 then pump_started E ?t3 else Some (Inr (), ?t3)) = Some (r4, t4)"
      and u: "u = t4 \<or> u = dt_maybe_open t4"
    by (auto simp: pump_def Let_def bind_eq_Some_conv try_then_Some)
  have "clock_view ?t3 = clock_view t" using clock_drain_ice_events [OF 1] clock_drain_ice_writes [OF 2] by simp
  then have "stamped t ?t3" by (rule stamped_same)
  also have "stamped ?t3 t4" using 4 stamped_pump_started by (metis stamped_refl option.inject prod.inject)
  also have "stamped t4 u" using u stamped_maybe_open by auto
  finally show ?thesis .
qed

lemma stamped_ingest: "dt_last_now t = now \<Longrightarrow> stamped t (ingest E now d t)"
proof -
  assume n: "dt_last_now t = now"
  let ?s = "if \<not> dt_dtls_started t then start_dtls E t else t"
  have s: "stamped t ?s" "dt_last_now ?s = now"
    using n clock_start_dtls [of E t] by (auto intro: stamped_same simp: clock_view_def)
  obtain r v where f: "feed_dtls E now d ?s = (r, v)" by (cases "feed_dtls E now d ?s") auto
  have v: "stamped t v" using stamped_trans [OF s(1) stamped_feed_dtls] f s(2) by blast
  then have "stamped t (v\<lparr>dt_dropped_datagrams := w\<rparr>)" for w using stamped_view [OF clock_updates(11)] by blast
  then show ?thesis
    using v f by (auto simp: ingest_def Let_def intro: stamped_same split: prod.split)
qed

fun call_time :: "host_call \<Rightarrow> nat option" where
  "call_time (Receive n d) = Some n"
| "call_time (ReceiveDeferred n d) = Some n"
| "call_time (Tick n) = Some n"
| "call_time _ = None"

text \<open>The clock of the tunnel when a call starts its work.\<close>

definition at_call :: "host_call \<Rightarrow> ('i, 'k, 'd, 's, 'a) direct_tunnel \<Rightarrow> ('i, 'k, 'd, 's, 'a) direct_tunnel" where
  "at_call c t = (case call_time c of None \<Rightarrow> t
     | Some n \<Rightarrow> if dt_finished t then t else t\<lparr>dt_last_now := dt_epoch t + millis n\<rparr>)"

lemma clock_run_timeouts [simp]: "clock_view (run_timeouts E now t) = clock_view t"
  by (simp add: run_timeouts_def Let_def split: option.split)

lemma clock_flush_message: "flush_message E t = Some u \<Longrightarrow> clock_view u = clock_view t"
  by (cases "drain_channel E t")
    (auto simp: flush_message_def bind_eq_Some_conv
      dest!: clock_drain_channel clock_drain_sctp_transmits clock_drain_dtls_transmits)

lemma clock_send: "dt_send E d t = Some (r, u) \<Longrightarrow> clock_view u = clock_view t"
  by (auto simp: dt_send_def Let_def bind_eq_Some_conv
      split: if_split_asm option.split_asm prod.split_asm sum.split_asm dest!: clock_flush_message)

lemma clock_next_deadline: "clock_view (snd (dt_next_deadline E t)) = clock_view t"
  by (simp add: dt_next_deadline_def Let_def split: prod.split)

lemma stamped_received:
  assumes "\<not> dt_finished t"
  shows "stamped (at_call (Receive n d) t) (ingest E (dt_epoch t + millis n) d (t\<lparr>dt_last_now := dt_epoch t + millis n\<rparr>))"
  using stamped_ingest [of "t\<lparr>dt_last_now := dt_epoch t + millis n\<rparr>" "dt_epoch t + millis n" E d] assms by (simp add: at_call_def)

lemma stamped_step:
  assumes "host_step (direct_api E) c (t, out) = Some (u, out')"
  shows "stamped (at_call c t) u"
proof (cases c)
  case (Receive n d)
  then show ?thesis
    using assms stamped_received [of t n d E] stamped_trans [OF _ stamped_pump]
    by (cases "dt_finished t") (auto simp: at_call_def dt_receive_def Let_def)
next
  case (ReceiveDeferred n d)
  then show ?thesis
    using assms stamped_received [of t n d E] stamped_trans [OF _ stamped_pump]
    by (cases "dt_finished t") (auto simp: at_call_def dt_receive_deferred_def Let_def split: if_split_asm)
next
  case (Tick n)
  show ?thesis
  proof (cases "dt_finished t")
    case False
    let ?t = "run_timeouts E (dt_epoch t + millis n) (t\<lparr>dt_last_now := dt_epoch t + millis n\<rparr>)"
    obtain r v where p: "pump E ?t = Some (r, v)" and u: "u = v \<or> u = dt_finish Timeout v"
      using assms Tick False by (auto simp: dt_tick_def Let_def bind_eq_Some_conv)
    have "stamped (at_call c t) ?t" using Tick False by (auto simp: at_call_def intro: stamped_same)
    then have "stamped (at_call c t) v" using stamped_trans stamped_pump [OF p] by blast
    then show ?thesis using u stamped_view [OF clock_finish] by blast
  qed (use assms Tick in \<open>simp add: at_call_def dt_tick_def\<close>)
next
  case FinishInputBatch
  then show ?thesis using assms stamped_pump by (fastforce simp: at_call_def dt_finish_input_batch_def split: if_split_asm)
next
  case (Send d)
  then show ?thesis using assms clock_send by (fastforce simp: at_call_def intro: stamped_same)
next
  case PollEvent
  then have "\<exists>q. u = t\<lparr>dt_events := q\<rparr>"
    using assms by (auto simp: dt_poll_event_def split: prod.splits option.splits)
  then show ?thesis using PollEvent by (auto simp: at_call_def intro: stamped_same)
next
  case (SetCredentials x p)
  then have "u = snd (dt_set_remote_ice_credentials E x p t)" using assms by simp
  then show ?thesis using SetCredentials dt_set_credentials_ice [of E x p t] by (auto simp: at_call_def intro: stamped_same)
next
  case (ApplyAnswer sdp)
  then show ?thesis using assms
    by (auto simp: at_call_def dt_apply_remote_answer_sdp_def intro: stamped_same split: option.split_asm)
next
  case CipherSuite
  then show ?thesis using assms by (simp add: at_call_def direct_api_def)
qed (use assms clock_next_deadline in \<open>auto simp: at_call_def dt_close_def dt_set_send_buffer_cap_def dt_set_remote_def intro!: stamped_same\<close>)

section \<open>Sessions under a monotone clock\<close>

text \<open>The phases in order, all of them between the times \<open>n0\<close> and \<open>m\<close>.\<close>

definition ordered_phases :: "nat \<Rightarrow> nat \<Rightarrow> handshake_trace \<Rightarrow> bool" where
  "ordered_phases n0 m tr = (start_ms tr = n0
     \<and> (\<forall>d. dtls_ms tr = Some d \<longrightarrow> n0 \<le> d \<and> d \<le> m)
     \<and> (\<forall>s. sctp_ms tr = Some s \<longrightarrow> (\<exists>d. dtls_ms tr = Some d \<and> d \<le> s) \<and> s \<le> m)
     \<and> (\<forall>p. opened_ms tr = Some p \<longrightarrow> (\<exists>s. sctp_ms tr = Some s \<and> s \<le> p) \<and> p \<le> m))"

lemma ordered_phases_mono: "ordered_phases n0 m tr \<Longrightarrow> m \<le> k \<Longrightarrow> ordered_phases n0 k tr"
  unfolding ordered_phases_def by (blast intro: le_trans)

text \<open>The clock of the tunnel reads \<open>m\<close>, a time of a call or of the construction.\<close>

definition timeline :: "nat \<Rightarrow> nat \<Rightarrow> ('i, 'k, 'd, 's, 'a) direct_tunnel \<Rightarrow> bool" where
  "timeline n0 m t = (n0 \<le> m \<and> m < 2 ^ 64 \<and> dt_last_now t = dt_epoch t + millis m \<and> ordered_phases n0 m (dt_trace t))"

lemma inv_presence:
  assumes "dt_inv t"
  shows "sctp_ms (dt_trace t) = Some s \<Longrightarrow> \<exists>d. dtls_ms (dt_trace t) = Some d"
    and "opened_ms (dt_trace t) = Some p \<Longrightarrow> \<exists>s. sctp_ms (dt_trace t) = Some s"
  using assms by (auto simp: dt_inv_def not_None_eq)

lemma timeline_stamped:
  assumes "timeline n0 m t" "stamped t u" "dt_inv u"
  shows "timeline n0 m u"
proof -
  have n: "dt_ms t (dt_last_now t) = m" using assms(1) by (simp add: timeline_def ms_since_millis)
  have st: "start_ms (dt_trace u) = n0" "dt_last_now u = dt_epoch u + millis m" "n0 \<le> m" "m < 2 ^ 64"
    using assms(1,2) by (simp_all add: timeline_def stamped_def ordered_phases_def)
  have k: "keeps_or_stamps m (dtls_ms (dt_trace t)) (dtls_ms (dt_trace u))" "keeps_or_stamps m (sctp_ms (dt_trace t)) (sctp_ms (dt_trace u))"
    "keeps_or_stamps m (opened_ms (dt_trace t)) (opened_ms (dt_trace u))"
    using assms(2) n by (simp_all add: stamped_def Let_def)
  have o: "ordered_phases n0 m (dt_trace t)" using assms(1) by (simp add: timeline_def)
  have d: "n0 \<le> d \<and> d \<le> m" if "dtls_ms (dt_trace u) = Some d" for d
    using k(1) o that st(3) by (auto simp: keeps_or_stamps_def ordered_phases_def)
  have s: "(\<exists>d. dtls_ms (dt_trace u) = Some d \<and> d \<le> s) \<and> s \<le> m" if h: "sctp_ms (dt_trace u) = Some s" for s
  proof -
    obtain x where x: "dtls_ms (dt_trace u) = Some x" using inv_presence(1) [OF assms(3) h] by blast
    from k(2) h have "sctp_ms (dt_trace t) = Some s \<or> s = m" by (auto simp: keeps_or_stamps_def)
    then show ?thesis using o k(1) x d [OF x] by (auto simp: keeps_or_stamps_def ordered_phases_def)
  qed
  have p: "(\<exists>s. sctp_ms (dt_trace u) = Some s \<and> s \<le> p) \<and> p \<le> m" if h: "opened_ms (dt_trace u) = Some p" for p
  proof -
    obtain x where x: "sctp_ms (dt_trace u) = Some x" using inv_presence(2) [OF assms(3) h] by blast
    from k(3) h have "opened_ms (dt_trace t) = Some p \<or> p = m" by (auto simp: keeps_or_stamps_def)
    then show ?thesis using o k(2) x s [OF x] by (auto simp: keeps_or_stamps_def ordered_phases_def)
  qed
  show ?thesis using st d s p by (simp add: timeline_def ordered_phases_def)
qed

text \<open>The times of the calls of a run, and that they never go back from \<open>m\<close>.\<close>

definition call_times :: "host_call list \<Rightarrow> nat list" where
  "call_times cs = List.map_filter call_time cs"

lemma timeline_run:
  assumes "host_run (direct_api E) cs (t, out) = Some (u, out')" "timeline n0 m t" "dt_session t0 t"
    and "sorted (m # call_times cs)" "\<forall>n\<in>set (call_times cs). n < 2 ^ 64"
  shows "\<exists>k \<ge> m. k \<le> last (m # call_times cs) \<and> timeline n0 k u"
  using assms
proof (induction cs arbitrary: t out m)
  case (Cons c cs)
  obtain v out1 where v: "host_step (direct_api E) c (t, out) = Some (v, out1)" "host_run (direct_api E) cs (v, out1) = Some (u, out')"
    using Cons.prems(1) by (auto simp: bind_eq_Some_conv)
  have ses: "dt_session t0 v" by (rule session_step [OF Cons.prems(3) v(1)])
  then have inv: "dt_inv v" by (simp add: dt_session_def)
  show ?case
  proof (cases "call_time c")
    case None
    then have "timeline n0 m v"
      using timeline_stamped [OF Cons.prems(2) _ inv] stamped_step [OF v(1)] by (simp add: at_call_def)
    then show ?thesis using Cons.IH [OF v(2) _ ses] Cons.prems(4,5) None by (simp add: call_times_def map_filter_simps)
  next
    case (Some n)
    have n: "m \<le> n" "n < 2 ^ 64" "sorted (n # call_times cs)" "\<forall>n\<in>set (call_times cs). n < 2 ^ 64"
      using Cons.prems(4,5) Some by (simp_all add: call_times_def map_filter_simps)
    have "\<exists>l \<ge> m. l \<le> n \<and> timeline n0 l v"
    proof (cases "dt_finished t")
      case True
      then have "timeline n0 m v"
        using timeline_stamped [OF Cons.prems(2) _ inv] stamped_step [OF v(1)] Some by (simp add: at_call_def)
      then show ?thesis using n(1) by blast
    next
      case False
      have "timeline n0 n (at_call c t)"
        using Cons.prems(2) False Some n ordered_phases_mono by (auto simp: timeline_def at_call_def)
      then show ?thesis using timeline_stamped [OF _ stamped_step [OF v(1)] inv] n(1) by blast
    qed
    then obtain l where l: "m \<le> l" "l \<le> n" "timeline n0 l v" by blast
    have "sorted (l # call_times cs)" using n(3) l(2) by (auto simp: le_trans)
    then obtain k where k: "l \<le> k" "k \<le> last (l # call_times cs)" "timeline n0 k u"
      using Cons.IH [OF v(2) l(3) ses _ n(4)] by blast
    have "last (l # call_times cs) \<le> last (m # call_times (c # cs))"
      using Some l(2) by (simp add: call_times_def map_filter_simps)
    then show ?thesis using k l(1) by (meson le_trans)
  qed
qed auto

text \<open>The three constructors start the clock and the trace at the time they are given.\<close>

definition dt_built_at ::
  "('i, 'c, 'k, 'd, 's, 'a, 'e) stack \<Rightarrow> nat \<Rightarrow> ('i, 'k, 'd, 's, 'a) direct_tunnel \<Rightarrow> bool" where
  "dt_built_at E n t = (\<exists>config la. dt_new E config la n = Inr t \<or> dt_offerer E config la n = Inr t
     \<or> (\<exists>sdp. dt_answerer E config la sdp n = Inr t))"

lemma clock_build:
  assumes "dt_build E r config la n = Inr t"
  shows "dt_last_now t = dt_epoch t + millis n" "dt_trace t = trace_new n"
proof -
  from assms obtain ice u v where p: "prepare_dtls E (initial_tunnel E r config la n ice) = Inr u"
    and c: "add_candidates E config u = Inr v" and t: "\<exists>i. t = v\<lparr>dt_ice := i\<rparr>"
    by (auto simp: dt_build_def split: sum.splits prod.splits)
  let ?f = "\<lambda>t. (dt_last_now t, dt_epoch t, dt_trace t)"
  have "?f u = ?f (initial_tunnel E r config la n ice)"
    using p unfolding prepare_dtls_def Let_def
    by (cases "dt_role (initial_tunnel E r config la n ice) = Offerer") (auto split: sum.splits)
  moreover have "?f v = ?f u" using c by (auto simp: add_candidates_def split: sum.splits prod.splits)
  ultimately have "?f t = ?f (initial_tunnel E r config la n ice)" using t by auto
  then show "dt_last_now t = dt_epoch t + millis n" "dt_trace t = trace_new n" by (simp_all add: initial_tunnel_def Let_def)
qed

lemma built_start:
  assumes "dt_built_at E n t" "n < 2 ^ 64"
  shows "dt_inv t \<and> timeline n n t"
proof -
  have "\<exists>r config la u i. dt_build E r config la n = Inr u \<and> t = u\<lparr>dt_ice := i\<rparr>"
    using assms(1) unfolding dt_built_at_def
  proof (elim exE disjE)
    fix config la sdp
    assume "dt_answerer E config la sdp n = Inr t"
    then obtain c u where "dt_build E Answerer c la n = Inr u" "start_checks E u = Inr t"
      unfolding dt_answerer_def Let_def by (clarsimp split: if_split_asm sum.split_asm)
    then show ?thesis using start_checks_ice by blast
  next
    fix config la
    assume "dt_offerer E config la n = Inr t"
    then obtain u i where "dt_build E Offerer config la n = Inr u" "t = u\<lparr>dt_ice := i\<rparr>" using offerer_build by blast
    then show ?thesis by (intro exI conjI)
  next
    fix config la
    assume "dt_new E config la n = Inr t"
    then obtain u i where "dt_build E Offerer config la n = Inr u" "t = u\<lparr>dt_ice := i\<rparr>" using new_build by blast
    then show ?thesis by (intro exI conjI)
  qed
  then obtain r config la u i where u: "dt_build E r config la n = Inr u" and i: "t = u\<lparr>dt_ice := i\<rparr>" by blast
  have "dt_fresh t" using assms(1) fresh_new fresh_offerer fresh_answerer unfolding dt_built_at_def by blast
  then show ?thesis using clock_build [OF u] i assms(2) by (simp add: dt_fresh_def timeline_def ordered_phases_def trace_new_def)
qed

text \<open>
  C11. The handshake trace is a timeline. In every session of a tunnel a constructor returned at \<open>n0\<close>,
  if the host's clock never goes back, the phases are stamped in the order DTLS, SCTP, open, each stamp
  lies between \<open>n0\<close> and the time of the last call, and no phase is stamped without the one it rests on.
\<close>

theorem handshake_timeline:
  assumes "dt_built_at E n0 t0" "host_run (direct_api E) cs (t0, []) = Some (t, out)"
    and "sorted (n0 # call_times cs)" "\<forall>n\<in>set (n0 # call_times cs). n < 2 ^ 64"
  shows "ordered_phases n0 (last (n0 # call_times cs)) (dt_trace t)"
proof -
  have t0: "dt_inv t0" "timeline n0 n0 t0" using built_start [OF assms(1)] assms(4) by simp_all
  obtain k where "k \<le> last (n0 # call_times cs)" "timeline n0 k t"
    using timeline_run [OF assms(2) t0(2) session_refl [OF t0(1)] assms(3)] assms(4) by auto
  then show ?thesis using ordered_phases_mono by (auto simp: timeline_def)
qed

theorem handshake_timeline_witness:
  "\<exists>t out. host_run (direct_api scripted) [Receive 5100 [1], Tick 5101, Receive 5102 [22], Receive 5103 [23, 2]] (script_t0, []) = Some (t, out)
     \<and> ordered_phases 5000 5103 (dt_trace t)
     \<and> dtls_ms (dt_trace t) = Some 5102 \<and> sctp_ms (dt_trace t) = Some 5103 \<and> opened_ms (dt_trace t) = Some 5103"
proof -
  let ?cs = "[Receive 5100 [1], Tick 5101, Receive 5102 [22], Receive 5103 [23, 2]]"
  obtain t out where r: "host_run (direct_api scripted) ?cs (script_t0, []) = Some (t, out)"
    and m: "dtls_ms (dt_trace t) = Some 5102" "sctp_ms (dt_trace t) = Some 5103" "opened_ms (dt_trace t) = Some 5103"
    by (simp add: direct_eval script_eval script_states)
  have b: "dt_built_at scripted 5000 script_t0" using script_new by (auto simp: dt_built_at_def)
  have "ordered_phases 5000 5103 (dt_trace t)"
    using handshake_timeline [OF b r] by (simp add: call_times_def map_filter_simps)
  then show ?thesis using r m by blast
qed

end
