(* ===== verification/Refpeer.thy ===== *)
theory Refpeer
  imports Rtc_Spec Trust
begin

text \<open>
  The reference peer of the interop tests: the line-oriented answerer (\<open>answerer.rs\<close>), which runs
  a tunnel of the core, and the echo peer (\<open>main.rs\<close>), which runs a peer connection directly. One
  turn of each main loop is one definition; the socket, the clock and standard input are the
  turn's arguments, and what the turn prints and sends is its result. The two \<open>main\<close> functions run
  the turns over a list of such inputs, one per pass of the outer loop; at the end of the list the
  program is still running. Base64 is the argument \<open>b64\<close>, and \<open>decode\<close> on the way back.
\<close>

section \<open>Arguments\<close>

fun position :: "('a \<Rightarrow> bool) \<Rightarrow> 'a list \<Rightarrow> nat option" where
  "position p [] = None"
| "position p (x # xs) = (if p x then Some 0 else map_option Suc (position p xs))"

definition arg_value :: "rstr list \<Rightarrow> rstr \<Rightarrow> rstr option" where
  "arg_value args key = Option.bind (position (\<lambda>a. a = key) args)
     (\<lambda>i. if i + 1 < length args then Some (args ! (i + 1)) else None)"

text \<open>\<open>str::parse\<close> to an unsigned integer: an optional plus sign, then digits up to the largest value.\<close>

definition parse_uint :: "nat \<Rightarrow> rstr \<Rightarrow> nat option" where
  "parse_uint max_value s =
     (case read_number 10 None True max_value (case strip_prefix ''+'' s of None \<Rightarrow> s | Some s \<Rightarrow> s) of
        Some (v, []) \<Rightarrow> Some v
      | _ \<Rightarrow> None)"

definition arg_number :: "nat \<Rightarrow> nat \<Rightarrow> rstr list \<Rightarrow> rstr \<Rightarrow> nat" where
  "arg_number max_value dflt args key = or_default dflt (Option.bind (arg_value args key) (parse_uint max_value))"

definition arg_bind :: "rstr list \<Rightarrow> socket_addr option" where
  "arg_bind args = parse_socket_addr (or_default ''127.0.0.1:0'' (arg_value args ''--bind''))"

primrec close_name :: "close_reason \<Rightarrow> rstr" where
  "close_name Local = ''local''"
| "close_name Remote = ''remote''"
| "close_name Timeout = ''timeout''"
| "close_name Failure = ''failure''"

text \<open>What one attempt to receive gives: nothing yet, a datagram, or an error that ends the run.\<close>

datatype recv = WouldBlock | Datagram "byte list" socket_addr | RecvError rstr

text \<open>What a turn reads from outside: the time since the start, the clock readings it makes and the
  outcome of its one receive.\<close>

record turn_input =
  ti_elapsed :: instant
  ti_clock :: "nat \<Rightarrow> instant"
  ti_read_now :: instant
  ti_timeout_now :: instant
  ti_recv :: recv

text \<open>How a run ends; \<open>as_millis() as u64\<close> of a duration.\<close>

datatype run_end = Running | Exited | ExitCode nat | RunError rstr

definition as_ms :: "instant \<Rightarrow> nat" where
  "as_ms d = (d div 1000000) mod 2 ^ 64"

section \<open>The answerer\<close>

text \<open>The offer is the first line of standard input that starts with the keyword; \<open>decode\<close> is
  base64 and UTF-8 together.\<close>

fun read_offer :: "(rstr \<Rightarrow> rstr + rstr) \<Rightarrow> rstr list \<Rightarrow> rstr + rstr" where
  "read_offer decode [] = Inl ''no OFFER line received''"
| "read_offer decode (l # ls) = (case strip_prefix ''OFFER '' l of
       None \<Rightarrow> read_offer decode ls
     | Some encoded \<Rightarrow> decode (trim encoded))"

definition answerer_config :: "socket_addr \<Rightarrow> u16 \<Rightarrow> tunnel_config" where
  "answerer_config peer stream_id =
     (tunnel_config_new peer [] [] [])\<lparr>cfg_stream_id := stream_id, cfg_disable_fingerprint_verification := True\<rparr>"

text \<open>The lines printed before the loop, and the peer's address with the tunnel.\<close>

definition answerer_start ::
  "('i, 'c, 'k, 'd, 's, 'a, 'e) stack \<Rightarrow> (byte list \<Rightarrow> rstr) \<Rightarrow> socket_addr \<Rightarrow> u16 \<Rightarrow> rstr \<Rightarrow>
   rstr list \<times> (rstr + socket_addr \<times> ('i, 'k, 'd, 's, 'a) direct_tunnel)" where
  "answerer_start E b64 local_addr stream_id offer_sdp =
     (case candidate_address offer_sdp of
        None \<Rightarrow> ([], Inl ''offer carried no usable candidate'')
      | Some peer \<Rightarrow> (case dt_answerer E (answerer_config peer stream_id) local_addr offer_sdp 0 of
          Inl e \<Rightarrow> ([], Inl (show_tunnel_error e))
        | Inr t \<Rightarrow>
          (let port = ''PORT '' @ show_dec (unat (sock_port local_addr)) in
           case dt_answer_sdp E t of
             None \<Rightarrow> ([port], Inl ''tunnel did not produce an answer'')
           | Some answer \<Rightarrow> ([port, ''ANSWER '' @ b64 (str_bytes answer)], Inr (peer, t)))))"

text \<open>The event loop of one turn: datagrams to send, lines to print, the reason to stop.\<close>

record 't turn =
  tn_tunnel :: 't
  tn_outgoing :: "byte list list"
  tn_terminal :: "rstr option"
  tn_echoes :: nat
  tn_lines :: "rstr list"

definition answerer_event ::
  "'t tunnel_api \<Rightarrow> (byte list \<Rightarrow> rstr) \<Rightarrow> event \<Rightarrow> 't turn \<Rightarrow> 't turn option" where
  "answerer_event api b64 e s = (case e of
       SendDatagram bytes \<Rightarrow> Some (s\<lparr>tn_outgoing := tn_outgoing s @ [bytes]\<rparr>)
     | Opened \<Rightarrow> Some (s\<lparr>tn_lines := tn_lines s @ [''OPEN'']\<rparr>)
     | Message bytes \<Rightarrow> map_option (\<lambda>(r, t).
           if r = Accepted then s\<lparr>tn_tunnel := t, tn_echoes := tn_echoes s + 1,
             tn_lines := tn_lines s @ [''MSG '' @ show_dec (tn_echoes s + 1) @ '' '' @ b64 bytes]\<rparr>
           else s\<lparr>tn_tunnel := t\<rparr>) (send_op api bytes (tn_tunnel s))
     | Closed reason \<Rightarrow> Some (s\<lparr>tn_terminal := Some (close_name reason)\<rparr>))"

definition answerer_poll :: "'t tunnel_api \<Rightarrow> (byte list \<Rightarrow> rstr) \<Rightarrow> 't turn \<Rightarrow> 't turn option" where
  "answerer_poll api b64 s = Option.bind (while_let (\<lambda>s. case poll_event_op api (tn_tunnel s) of
       (None, t) \<Rightarrow> Done (Some (s\<lparr>tn_tunnel := t\<rparr>))
     | (Some e, t) \<Rightarrow> (case answerer_event api b64 e (s\<lparr>tn_tunnel := t\<rparr>) of
           None \<Rightarrow> Done None
         | Some s \<Rightarrow> More s)) s) id"

datatype 't turn_result = Continue 't nat | Stop 't

text \<open>One turn: the lines printed, the datagrams sent, and whether the loop goes on.\<close>

definition answerer_turn ::
  "'t tunnel_api \<Rightarrow> (byte list \<Rightarrow> rstr) \<Rightarrow> nat \<Rightarrow> nat \<Rightarrow> recv \<Rightarrow> 't \<Rightarrow> nat \<Rightarrow>
   (rstr list \<times> byte list list \<times> (rstr + 't turn_result)) option" where
  "answerer_turn api b64 now_ms recv_ms recv t echoes = do {
     t \<leftarrow> tick_op api now_ms t;
     s \<leftarrow> answerer_poll api b64
       \<lparr>tn_tunnel = t, tn_outgoing = [], tn_terminal = None, tn_echoes = echoes, tn_lines = []\<rparr>;
     (case tn_terminal s of
        Some name \<Rightarrow> Some (tn_lines s @ [''CLOSED '' @ name], tn_outgoing s, Inr (Stop (tn_tunnel s)))
      | None \<Rightarrow> (case recv of
            Datagram d _ \<Rightarrow> map_option (\<lambda>t. (tn_lines s, tn_outgoing s, Inr (Continue t (tn_echoes s))))
              (receive_op api recv_ms d (tn_tunnel s))
          | WouldBlock \<Rightarrow> Some (tn_lines s, tn_outgoing s, Inr (Continue (tn_tunnel s) (tn_echoes s)))
          | RecvError e \<Rightarrow> Some (tn_lines s, tn_outgoing s, Inl e))) }"

text \<open>The main loop over a list of inputs: how it ends, the lines printed and the datagrams sent, both
  from the start of the program.\<close>

fun answerer_run ::
  "'t tunnel_api \<Rightarrow> (byte list \<Rightarrow> rstr) \<Rightarrow> instant \<Rightarrow> turn_input list \<Rightarrow> 't \<Rightarrow> nat \<Rightarrow> rstr list \<Rightarrow> byte list list \<Rightarrow>
   (run_end \<times> rstr list \<times> byte list list) option" where
  "answerer_run api b64 lifetime [] t echoes ls sent = Some (Running, ls, sent)"
| "answerer_run api b64 lifetime (i # is) t echoes ls sent =
     (if ti_elapsed i < lifetime then
        Option.bind (answerer_turn api b64 (as_ms (ti_timeout_now i)) (as_ms (ti_read_now i)) (ti_recv i) t echoes)
          (\<lambda>(new, out, r). case r of
             Inl e \<Rightarrow> Some (RunError e, ls @ new, sent @ out)
           | Inr (Stop t) \<Rightarrow> Some (Exited, ls @ new, sent @ out)
           | Inr (Continue t echoes) \<Rightarrow> answerer_run api b64 lifetime is t echoes (ls @ new) (sent @ out))
      else Some (Exited, ls, sent))"

definition answerer_main ::
  "('i, 'c, 'k, 'd, 's, 'a, 'e) stack \<Rightarrow> (byte list \<Rightarrow> rstr) \<Rightarrow> (rstr \<Rightarrow> rstr + rstr) \<Rightarrow> rstr list \<Rightarrow> socket_addr \<Rightarrow> rstr list \<Rightarrow>
   turn_input list \<Rightarrow> (run_end \<times> rstr list \<times> byte list list) option" where
  "answerer_main E b64 decode args local_addr stdin is =
     (case arg_bind args of
        None \<Rightarrow> Some (RunError ''invalid socket address syntax'', [], [])
      | Some _ \<Rightarrow>
        (let stream_id = of_nat (arg_number 65535 0 args ''--stream-id'');
             lifetime = millis (arg_number (2 ^ 64 - 1) 60000 args ''--lifetime-ms'')
         in case read_offer decode stdin of
              Inl e \<Rightarrow> Some (RunError e, [], [])
            | Inr offer \<Rightarrow>
              (case answerer_start E b64 local_addr stream_id offer of
                 (ls, Inl e) \<Rightarrow> Some (RunError e, ls, [])
               | (ls, Inr (peer, t)) \<Rightarrow> answerer_run (direct_api E) b64 lifetime is t 0 ls [])))"

section \<open>The echo peer\<close>

record 'p peer =
  pr_pc :: 'p
  pr_opened :: bool
  pr_echoes :: nat
  pr_lines :: "rstr list"
  pr_sent :: "(socket_addr \<times> byte list) list"

definition peer_writes :: "('p, 'c, 'j, 'd) pc_stack \<Rightarrow> 'p peer \<Rightarrow> 'p peer option" where
  "peer_writes P = while_let (\<lambda>s. case pc_poll_write P (pr_pc s) of
       (None, p) \<Rightarrow> Done (s\<lparr>pr_pc := p\<rparr>)
     | (Some m, p) \<Rightarrow> More (s\<lparr>pr_pc := p, pr_sent := pr_sent s @ [m]\<rparr>))"

text \<open>The event loop leaves at \<open>Failed\<close>, without ending the run.\<close>

definition peer_events :: "('p, 'c, 'j, 'd) pc_stack \<Rightarrow> 'p peer \<Rightarrow> 'p peer option" where
  "peer_events P = while_let (\<lambda>s. case pc_poll_event P (pr_pc s) of
       (None, p) \<Rightarrow> Done (s\<lparr>pr_pc := p\<rparr>)
     | (Some ev, p) \<Rightarrow>
         (let s = s\<lparr>pr_pc := p\<rparr> in
          case ev of
            OnOpen \<Rightarrow> More (if \<not> pr_opened s then s\<lparr>pr_opened := True, pr_lines := pr_lines s @ [''OPEN'']\<rparr> else s)
          | OnClose \<Rightarrow> More (s\<lparr>pr_lines := pr_lines s @ [''CHANNEL_CLOSED'']\<rparr>)
          | OnConnectionStateChange PcFailed \<Rightarrow> Done (s\<lparr>pr_lines := pr_lines s @ [''FAILED'']\<rparr>)
          | _ \<Rightarrow> More s))"

text \<open>Each echo reads the clock anew; \<open>clock\<close> is indexed by the number of echoes before it.\<close>

definition peer_reads :: "('p, 'c, 'j, 'd) pc_stack \<Rightarrow> nat \<Rightarrow> (nat \<Rightarrow> instant) \<Rightarrow> 'p peer \<Rightarrow> 'p peer option" where
  "peer_reads P handle clock = while_let (\<lambda>s. case pc_poll_read P (pr_pc s) of
       (None, p) \<Rightarrow> Done (s\<lparr>pr_pc := p\<rparr>)
     | (Some m, p) \<Rightarrow>
         (let s = s\<lparr>pr_pc := p\<rparr> in
          More (case m of
              DataChannelMessage d \<Rightarrow>
                if pc_data_channel P handle (pr_pc s)
                then s\<lparr>pr_pc := snd (channel_send P handle (clock (pr_echoes s)) d (pr_pc s)), pr_echoes := pr_echoes s + 1,
                  pr_lines := pr_lines s @ [''ECHO '' @ show_dec (pr_echoes s + 1)]\<rparr>
                else s
            | OtherMessage \<Rightarrow> s)))"

definition peer_turn ::
  "('p, 'c, 'j, 'd) pc_stack \<Rightarrow> nat \<Rightarrow> socket_addr \<Rightarrow> turn_input \<Rightarrow> 'p peer \<Rightarrow> ((rstr + unit) \<times> 'p peer) option" where
  "peer_turn P handle local_addr i s = do {
     s \<leftarrow> peer_writes P s;
     s \<leftarrow> peer_events P s;
     s \<leftarrow> peer_reads P handle (ti_clock i) s;
     (case ti_recv i of
        RecvError e \<Rightarrow> Some (Inl e, s)
      | WouldBlock \<Rightarrow> Some (Inr (), s\<lparr>pr_pc := snd (pc_handle_timeout P (ti_timeout_now i) (pr_pc s))\<rparr>)
      | Datagram d peer_addr \<Rightarrow>
          (let s = s\<lparr>pr_pc := snd (pc_handle_read P (ti_read_now i) local_addr peer_addr d (pr_pc s))\<rparr>
           in Some (Inr (), s\<lparr>pr_pc := snd (pc_handle_timeout P (ti_timeout_now i) (pr_pc s))\<rparr>))) }"

fun peer_run ::
  "('p, 'c, 'j, 'd) pc_stack \<Rightarrow> nat \<Rightarrow> socket_addr \<Rightarrow> instant \<Rightarrow> turn_input list \<Rightarrow> 'p peer \<Rightarrow> (run_end \<times> 'p peer) option" where
  "peer_run P handle local_addr lifetime [] s = Some (Running, s)"
| "peer_run P handle local_addr lifetime (i # is) s =
     (if ti_elapsed i < lifetime then
        Option.bind (peer_turn P handle local_addr i s) (\<lambda>(r, s). case r of
            Inl e \<Rightarrow> Some (RunError e, s)
          | Inr _ \<Rightarrow> peer_run P handle local_addr lifetime is s)
      else Some (Exited, s\<lparr>pr_pc := snd (pc_close P (pr_pc s)), pr_lines := pr_lines s @ [''DONE'']\<rparr>))"

definition peer_start ::
  "('p, 'c, 'j, 'd) pc_stack \<Rightarrow> (byte list \<Rightarrow> rstr) \<Rightarrow> (rstr \<Rightarrow> rstr \<Rightarrow> instant \<Rightarrow> rstr + 'p) \<Rightarrow> instant \<times> instant \<times> instant \<Rightarrow> socket_addr \<Rightarrow> rstr \<Rightarrow> rstr \<Rightarrow> rstr \<Rightarrow>
   tunnel_error + (rstr list \<times> nat \<times> 'p)" where
  "peer_start P b64 build nows local_addr ufrag pwd offer =
     rt_try (build ufrag pwd (fst nows), ()) (\<lambda>p _.
     rt_try (sd_offer P offer, p) (\<lambda>remote p.
     rt_try (pc_set_remote_description P (fst (snd nows)) remote p) (\<lambda>_ p.
     rt_try (pc_create_data_channel P ''relay''
       \<lparr>ci_ordered = False, ci_max_retransmits = Some 0, ci_negotiated = Some 0\<rparr> p) (\<lambda>handle p.
     case rt_add_local P local_addr p of
       Inl e \<Rightarrow> Inl e
     | Inr p \<Rightarrow>
       rt_try (pc_create_answer P p) (\<lambda>answer p.
       rt_try (pc_set_local_description P (snd (snd nows)) answer p) (\<lambda>_ p.
       Inr ([''ANSWER '' @ b64 (str_bytes (or_default [] (pc_local_description P p)))], handle, p)))))))"

text \<open>The program from its arguments, once the socket is bound to \<open>local_addr\<close>: the lines it prints
  and how the run ends.\<close>

definition peer_main ::
  "('p, 'c, 'j, 'd) pc_stack \<Rightarrow> (byte list \<Rightarrow> rstr) \<Rightarrow> (rstr \<Rightarrow> rstr \<Rightarrow> instant \<Rightarrow> rstr + 'p) \<Rightarrow> instant \<times> instant \<times> instant \<Rightarrow>
   rstr list \<Rightarrow> socket_addr \<Rightarrow> rstr \<Rightarrow> turn_input list \<Rightarrow> (rstr list \<times> run_end) option" where
  "peer_main P b64 build nows args local_addr offer is =
     (case arg_bind args of
        None \<Rightarrow> Some ([], RunError ''invalid socket address syntax'')
      | Some _ \<Rightarrow>
        (let ufrag = or_default ''refufrag'' (arg_value args ''--ufrag'');
             pwd = or_default ''refpwdrefpwdrefpwdrefpwd'' (arg_value args ''--pwd'');
             lifetime = millis (arg_number (2 ^ 64 - 1) 60000 args ''--lifetime-ms'');
             ready = ''READY '' @ show_dec (unat (sock_port local_addr))
         in if trim offer = [] then Some ([ready], ExitCode 2)
         else (case peer_start P b64 build nows local_addr ufrag pwd offer of
             Inl e \<Rightarrow> Some ([ready], RunError (show_tunnel_error e))
           | Inr (ls, handle, p) \<Rightarrow> map_option (\<lambda>(r, s). (pr_lines s, r))
               (peer_run P handle local_addr lifetime is
                 \<lparr>pr_pc = p, pr_opened = False, pr_echoes = 0, pr_lines = ready # ls, pr_sent = []\<rparr>))))"

section \<open>Properties\<close>

lemma position_split:
  "position p xs = Some i \<longleftrightarrow> i < length xs \<and> p (xs ! i) \<and> (\<forall>j < i. \<not> p (xs ! j))"
proof (induction xs arbitrary: i)
  case (Cons x xs)
  show ?case
  proof (cases i)
    case 0
    then show ?thesis using Cons by (auto simp: nth_Cons split: nat.splits)
  next
    case (Suc k)
    have "(\<forall>j < Suc k. \<not> p ((x # xs) ! j)) \<longleftrightarrow> \<not> p x \<and> (\<forall>j < k. \<not> p (xs ! j))"
      by (auto simp: less_Suc_eq_0_disj)
    then show ?thesis using Suc Cons.IH [of k] by auto
  qed
qed simp

text \<open>
  C40. A command-line option takes the argument that follows its first occurrence: \<open>arg_value\<close>
  returns \<open>v\<close> exactly when the arguments are some prefix without the key, the key, then \<open>v\<close>.
\<close>

theorem arg_value_first:
  "arg_value args key = Some v \<longleftrightarrow> (\<exists>pre post. args = pre @ key # v # post \<and> key \<notin> set pre)"
proof
  assume "arg_value args key = Some v"
  then obtain i where i: "position (\<lambda>a. a = key) args = Some i" "i + 1 < length args" "v = args ! (i + 1)"
    by (auto simp: arg_value_def bind_eq_Some_conv split: if_splits)
  then have k: "args ! i = key" "\<forall>j < i. args ! j \<noteq> key" by (auto simp: position_split)
  have "args = take i args @ key # v # drop (i + 2) args"
    using i k(1) id_take_nth_drop [of i args] Cons_nth_drop_Suc [of "i + 1" args] by simp
  moreover have "key \<notin> set (take i args)" using k(2) by (auto simp: in_set_conv_nth)
  ultimately show "\<exists>pre post. args = pre @ key # v # post \<and> key \<notin> set pre" by blast
next
  assume "\<exists>pre post. args = pre @ key # v # post \<and> key \<notin> set pre"
  then obtain pre post where a: "args = pre @ key # v # post" "key \<notin> set pre" by blast
  have "position (\<lambda>a. a = key) args = Some (length pre)"
    unfolding position_split using a by (auto simp: nth_append in_set_conv_nth)
  then show "arg_value args key = Some v" using a by (simp add: arg_value_def nth_append)
qed

text \<open>The lines of the answerer, told apart by their keyword.\<close>

definition keyword :: "rstr \<Rightarrow> rstr \<Rightarrow> bool" where
  "keyword k l = (strip_prefix k l \<noteq> None)"

definition msg_lines :: "(byte list \<Rightarrow> rstr) \<Rightarrow> byte list list \<Rightarrow> rstr list" where
  "msg_lines b64 ms = map (\<lambda>(k, m). ''MSG '' @ show_dec (Suc k) @ '' '' @ b64 m) (enumerate 0 ms)"

definition answerer_inv :: "'t tunnel_api \<Rightarrow> (byte list \<Rightarrow> rstr) \<Rightarrow> 't \<Rightarrow> 't \<Rightarrow> nat \<Rightarrow> rstr list \<Rightarrow> bool" where
  "answerer_inv api b64 t0 t echoes ls =
     ((\<exists>out. host_reach api t0 (t, out) \<and> length (filter (\<lambda>l. l = ''OPEN'') ls) = length (filter is_opened_event out))
      \<and> (\<exists>ms. length ms = echoes \<and> filter (keyword ''MSG '') ls = msg_lines b64 ms)
      \<and> filter (keyword ''CLOSED '') ls = [])"

lemma answerer_inv_call:
  assumes "answerer_inv api b64 t0 t n ls" "\<And>out. host_step api c (t, out) = Some (u, out)"
  shows "answerer_inv api b64 t0 u n ls"
proof -
  have "host_reach api t0 (t, out) \<Longrightarrow> host_reach api t0 (u, out)" for out
    by (rule host_reach.step [OF _ assms(2)])
  then show ?thesis using assms(1) unfolding answerer_inv_def by blast
qed

lemma msg_lines_snoc: "msg_lines b64 (ms @ [m]) = msg_lines b64 ms @ [''MSG '' @ show_dec (Suc (length ms)) @ '' '' @ b64 m]"
  by (simp add: msg_lines_def enumerate_append_eq)

lemma answerer_inv_msg:
  "answerer_inv api b64 t0 t n ls \<Longrightarrow> answerer_inv api b64 t0 t (Suc n) (ls @ [''MSG '' @ show_dec (Suc n) @ '' '' @ b64 m])"
  unfolding answerer_inv_def
  by (elim conjE exE) (auto simp: keyword_def msg_lines_snoc [unfolded append.simps] intro!: exI [of _ "_ @ [m]"])

lemma answerer_event_inv:
  assumes "answerer_inv api b64 t0 t n (ls @ tn_lines s)" "poll_event_op api t = (Some e, tn_tunnel s)" "n = tn_echoes s"
    and "answerer_event api b64 e s = Some u"
  shows "answerer_inv api b64 t0 (tn_tunnel u) (tn_echoes u) (ls @ tn_lines u)"
proof -
  obtain out where out: "host_reach api t0 (t, out)"
    and o: "length (filter (\<lambda>l. l = ''OPEN'') (ls @ tn_lines s)) = length (filter is_opened_event out)"
    using assms(1) by (auto simp: answerer_inv_def)
  have r: "host_reach api t0 (tn_tunnel s, out @ [e])"
    by (rule host_reach.step [OF out, where c = PollEvent]) (simp add: assms(2))
  show ?thesis
  proof (cases e)
    case Opened
    then show ?thesis using assms r o by (auto simp: answerer_event_def answerer_inv_def keyword_def intro!: exI [of _ "out @ [e]"])
  next
    case (Message m)
    have i: "answerer_inv api b64 t0 (tn_tunnel s) n (ls @ tn_lines s)"
      using assms(1) r o Message by (auto simp: answerer_inv_def intro!: exI [of _ "out @ [e]"])
    obtain q v where q: "send_op api m (tn_tunnel s) = Some (q, v)"
      and u: "u = (if q = Accepted then s\<lparr>tn_tunnel := v, tn_echoes := tn_echoes s + 1,
             tn_lines := tn_lines s @ [''MSG '' @ show_dec (tn_echoes s + 1) @ '' '' @ b64 m]\<rparr> else s\<lparr>tn_tunnel := v\<rparr>)"
      using assms(4) Message by (auto simp: answerer_event_def)
    have "answerer_inv api b64 t0 v n (ls @ tn_lines s)"
      by (rule answerer_inv_call [OF i, where c = "Send m"]) (simp add: q)
    then show ?thesis using u assms(3) answerer_inv_msg [of api b64 t0 v n "ls @ tn_lines s" m] by (auto split: if_splits)
  qed (use assms r o in \<open>auto simp: answerer_event_def answerer_inv_def intro!: exI [of _ "out @ [e]"]\<close>)
qed

lemma answerer_poll_inv:
  assumes "answerer_poll api b64 s = Some u" "answerer_inv api b64 t0 (tn_tunnel s) (tn_echoes s) (ls @ tn_lines s)"
  shows "answerer_inv api b64 t0 (tn_tunnel u) (tn_echoes u) (ls @ tn_lines u)"
  using assms(1) unfolding answerer_poll_def
proof (rule while_bind_inv [where I = "\<lambda>s. answerer_inv api b64 t0 (tn_tunnel s) (tn_echoes s) (ls @ tn_lines s)"])
  show "answerer_inv api b64 t0 (tn_tunnel s) (tn_echoes s) (ls @ tn_lines s)" by (rule assms(2))
next
  fix v w assume i: "answerer_inv api b64 t0 (tn_tunnel v) (tn_echoes v) (ls @ tn_lines v)"
    and st: "(case poll_event_op api (tn_tunnel v) of (None, t) \<Rightarrow> Done (Some (v\<lparr>tn_tunnel := t\<rparr>))
       | (Some e, t) \<Rightarrow> (case answerer_event api b64 e (v\<lparr>tn_tunnel := t\<rparr>) of None \<Rightarrow> Done None | Some s \<Rightarrow> More s)) = More w"
  obtain x t where p: "poll_event_op api (tn_tunnel v) = (x, t)" by (cases "poll_event_op api (tn_tunnel v)")
  with st obtain e where x: "x = Some e" by (cases x) simp_all
  with st p have ev: "answerer_event api b64 e (v\<lparr>tn_tunnel := t\<rparr>) = Some w"
    by (cases "answerer_event api b64 e (v\<lparr>tn_tunnel := t\<rparr>)") simp_all
  show "answerer_inv api b64 t0 (tn_tunnel w) (tn_echoes w) (ls @ tn_lines w)"
  proof (rule answerer_event_inv [OF _ _ _ ev])
    show "answerer_inv api b64 t0 (tn_tunnel v) (tn_echoes v) (ls @ tn_lines (v\<lparr>tn_tunnel := t\<rparr>))" using i by simp
    show "poll_event_op api (tn_tunnel v) = (Some e, tn_tunnel (v\<lparr>tn_tunnel := t\<rparr>))" using p x by simp
  qed simp
next
  fix v w assume i: "answerer_inv api b64 t0 (tn_tunnel v) (tn_echoes v) (ls @ tn_lines v)"
    and st: "(case poll_event_op api (tn_tunnel v) of (None, t) \<Rightarrow> Done (Some (v\<lparr>tn_tunnel := t\<rparr>))
       | (Some e, t) \<Rightarrow> (case answerer_event api b64 e (v\<lparr>tn_tunnel := t\<rparr>) of None \<Rightarrow> Done None | Some s \<Rightarrow> More s)) = Done (Some w)"
  show "answerer_inv api b64 t0 (tn_tunnel w) (tn_echoes w) (ls @ tn_lines w)"
    using st answerer_inv_call [OF i, where c = PollEvent] by (auto split: prod.split_asm option.split_asm)
qed

lemma answerer_turn_inv:
  assumes "answerer_turn api b64 now_ms recv_ms recv t n = Some (new, out, r)" "answerer_inv api b64 t0 t n ls"
  shows "\<exists>u m new'. answerer_inv api b64 t0 u m (ls @ new')
    \<and> (new = new' \<and> (\<forall>v. r \<noteq> Inr (Stop v)) \<and> (\<forall>v k. r = Inr (Continue v k) \<longrightarrow> v = u \<and> k = m)
       \<or> (\<exists>name. new = new' @ [''CLOSED '' @ name]) \<and> r = Inr (Stop u))"
proof -
  obtain t1 s where t1: "tick_op api now_ms t = Some t1"
    and s: "answerer_poll api b64 \<lparr>tn_tunnel = t1, tn_outgoing = [], tn_terminal = None, tn_echoes = n, tn_lines = []\<rparr> = Some s"
    using assms(1) by (auto simp: answerer_turn_def bind_eq_Some_conv)
  have "answerer_inv api b64 t0 t1 n ls" by (rule answerer_inv_call [OF assms(2), where c = "Tick now_ms"]) (simp add: t1)
  then have i: "answerer_inv api b64 t0 (tn_tunnel s) (tn_echoes s) (ls @ tn_lines s)"
    using answerer_poll_inv [OF s] by simp
  have recv: "receive_op api recv_ms d (tn_tunnel s) = Some v \<Longrightarrow> answerer_inv api b64 t0 v (tn_echoes s) (ls @ tn_lines s)" for d v
    by (rule answerer_inv_call [OF i, where c = "Receive recv_ms d"]) simp
  show ?thesis using assms(1) t1 s i recv unfolding answerer_turn_def
    by (fastforce split: option.split_asm recv.split_asm)
qed

lemma answerer_run_lines:
  "answerer_run api b64 lifetime is t n ls sent = Some (r, ls', sent') \<Longrightarrow> answerer_inv api b64 t0 t n ls \<Longrightarrow>
     \<exists>u m pre. answerer_inv api b64 t0 u m pre \<and> (ls' = pre \<or> r = Exited \<and> (\<exists>name. ls' = pre @ [''CLOSED '' @ name]))"
proof (induction api b64 lifetime "is" t n ls sent rule: answerer_run.induct)
  case (2 api b64 lifetime i "is" t n ls sent)
  show ?case
  proof (cases "ti_elapsed i < lifetime")
    case True
    then obtain new out q where turn: "answerer_turn api b64 (as_ms (ti_timeout_now i)) (as_ms (ti_read_now i)) (ti_recv i) t n
        = Some (new, out, q)"
      using 2(2) by (auto simp: bind_eq_Some_conv)
    note i = answerer_turn_inv [OF turn 2(3)]
    consider e where "q = Inl e" | v where "q = Inr (Stop v)" | v k where "q = Inr (Continue v k)"
      by (cases q) (auto elim: turn_result.exhaust)
    then show ?thesis
    proof cases
      case 1
      then have "ls' = ls @ new" using 2(2) True turn by simp
      then show ?thesis using i 1 by blast
    next
      case 2
      then have "ls' = ls @ new" "r = Exited" using "2.prems"(1) True turn by simp_all
      then show ?thesis using i 2 by fastforce
    next
      case 3
      then have "answerer_inv api b64 t0 v k (ls @ new)" using i by auto
      then show ?thesis using "2.IH" [OF True turn refl refl 3 refl] "2.prems"(1) True turn 3 by simp
    qed
  qed (use 2 in auto)
qed auto

lemma answerer_start_Inr:
  assumes "answerer_start E b64 local_addr stream_id offer = (ls, Inr (peer, t))"
  shows "dt_constructed E t \<and> answerer_inv (direct_api E) b64 t t 0 ls"
proof -
  obtain x where "dt_answerer E (answerer_config peer stream_id) local_addr offer 0 = Inr t"
    and ls: "ls = [''PORT '' @ show_dec (unat (sock_port local_addr)), ''ANSWER '' @ x]"
    using assms by (auto simp: answerer_start_def Let_def split: option.split_asm sum.split_asm)
  then have "dt_constructed E t" by (auto simp: dt_constructed_def)
  then show ?thesis using ls by (auto simp: answerer_inv_def keyword_def msg_lines_def intro!: exI [of _ "[]"] host_reach.start)
qed

lemma answerer_start_Inl:
  "answerer_start E b64 local_addr stream_id offer = (ls, Inl e) \<Longrightarrow>
     ls = [] \<or> ls = [''PORT '' @ show_dec (unat (sock_port local_addr))]"
  by (auto simp: answerer_start_def Let_def split: option.split_asm sum.split_asm)

lemma answerer_main_cases:
  assumes "answerer_main E b64 decode args local_addr stdin is = Some (r, ls, sent)"
  shows "(\<exists>pre t0 u m. dt_constructed E t0 \<and> answerer_inv (direct_api E) b64 t0 u m pre
      \<and> (ls = pre \<or> r = Exited \<and> (\<exists>name. ls = pre @ [''CLOSED '' @ name])))
    \<or> ls = [] \<or> ls = [''PORT '' @ show_dec (unat (sock_port local_addr))]"
proof -
  let ?id = "of_nat (arg_number 65535 0 args ''--stream-id'') :: u16"
  consider "ls = []" | offer e where "answerer_start E b64 local_addr ?id offer = (ls, Inl e)"
    | offer ls0 peer t where "answerer_start E b64 local_addr ?id offer = (ls0, Inr (peer, t))"
        "answerer_run (direct_api E) b64 (millis (arg_number (2 ^ 64 - 1) 60000 args ''--lifetime-ms'')) is t 0 ls0 []
           = Some (r, ls, sent)"
    using assms unfolding answerer_main_def Let_def
    by (auto split: option.split_asm sum.split_asm prod.split_asm)
  then show ?thesis
  proof cases
    case 3
    from answerer_start_Inr [OF 3(1)] answerer_run_lines [OF 3(2)] show ?thesis by blast
  qed (auto dest: answerer_start_Inl)
qed

definition echo_line :: "rstr \<Rightarrow> bool" where
  "echo_line l = (strip_prefix ''ECHO '' l \<noteq> None)"

definition peer_inv :: "'p peer \<Rightarrow> bool" where
  "peer_inv s = (length (filter (\<lambda>l. l = ''OPEN'') (pr_lines s)) = of_bool (pr_opened s)
     \<and> filter echo_line (pr_lines s) = map (\<lambda>k. ''ECHO '' @ show_dec (Suc k)) [0..<pr_echoes s])"

lemma peer_inv_pc [simp]: "peer_inv (s\<lparr>pr_pc := p\<rparr>) = peer_inv s"
  by (simp add: peer_inv_def)

lemma peer_inv_line:
  "peer_inv s \<Longrightarrow> l \<noteq> ''OPEN'' \<Longrightarrow> \<not> echo_line l \<Longrightarrow> peer_inv (s\<lparr>pr_lines := pr_lines s @ [l]\<rparr>)"
  by (simp add: peer_inv_def)

lemma peer_writes_inv: "peer_writes P s = Some u \<Longrightarrow> peer_inv s \<Longrightarrow> peer_inv u"
  unfolding peer_writes_def
  by (erule while_let_inv [where I = peer_inv]) (auto simp: peer_inv_def split: prod.splits option.splits)

lemma peer_events_inv: "peer_events P s = Some u \<Longrightarrow> peer_inv s \<Longrightarrow> peer_inv u"
  unfolding peer_events_def
  by (erule while_let_inv [where I = peer_inv])
    (auto simp: peer_inv_def echo_line_def Let_def split: prod.splits option.splits rtc_event.splits pc_state.splits if_splits)

lemma peer_reads_inv: "peer_reads P h c s = Some u \<Longrightarrow> peer_inv s \<Longrightarrow> peer_inv u"
  unfolding peer_reads_def
  by (erule while_let_inv [where I = peer_inv])
    (auto simp: peer_inv_def echo_line_def Let_def split: prod.splits option.splits rtc_message.splits if_splits)

lemma peer_turn_inv:
  assumes "peer_turn P handle local_addr i s = Some (r, u)" "peer_inv s"
  shows "peer_inv u"
proof -
  obtain s1 s2 s3 where "peer_writes P s = Some s1" "peer_events P s1 = Some s2" "peer_reads P handle (ti_clock i) s2 = Some s3"
    and u: "\<exists>p. u = s3\<lparr>pr_pc := p\<rparr> \<or> u = s3"
    using assms(1) by (cases "ti_recv i") (auto simp: peer_turn_def bind_eq_Some_conv Let_def)
  then have "peer_inv s3" using assms(2) peer_writes_inv peer_events_inv peer_reads_inv by blast
  then show ?thesis using u by auto
qed

lemma peer_run_inv:
  "peer_run P handle local_addr lifetime is s = Some (r, u) \<Longrightarrow> peer_inv s \<Longrightarrow>
     peer_inv u \<and> (r = Exited \<longrightarrow> last (pr_lines u) = ''DONE'')"
proof (induction P handle local_addr lifetime "is" s rule: peer_run.induct)
  case (2 P handle local_addr lifetime i "is" s)
  show ?case
  proof (cases "ti_elapsed i < lifetime")
    case True
    then obtain q v where t: "peer_turn P handle local_addr i s = Some (q, v)" using 2(2) by (auto simp: bind_eq_Some_conv)
    have "peer_inv v" using peer_turn_inv [OF t 2(3)] .
    then show ?thesis using 2 True t by (cases q) auto
  next
    case False
    then have u: "r = Exited" "u = s\<lparr>pr_pc := snd (pc_close P (pr_pc s)), pr_lines := pr_lines s @ [''DONE'']\<rparr>"
      using 2(2) by auto
    have "peer_inv (s\<lparr>pr_lines := pr_lines s @ [''DONE'']\<rparr>)" using 2(3) by (intro peer_inv_line) (auto simp: echo_line_def)
    then show ?thesis using u by (simp add: peer_inv_def)
  qed
qed auto

lemma peer_start_lines: "peer_start P b64 build nows la u p f = Inr (ls, h, q) \<Longrightarrow> \<exists>x. ls = [''ANSWER '' @ x]"
  by (auto simp: peer_start_def rt_try_def split: sum.split_asm prod.split_asm)

text \<open>
  C39. The output of the echo peer can be counted on, whatever the peer connection does and however
  long it runs: \<open>OPEN\<close> is printed at most once, the \<open>ECHO\<close> lines are numbered from one without
  gaps or repeats, and a run that ends with its lifetime ends with \<open>DONE\<close>.
\<close>

theorem peer_main_output:
  fixes P :: "('p, 'c, 'j, 'd) pc_stack"
  assumes "peer_main P b64 build nows args local_addr offer is = Some (ls, r)"
  shows "length (filter (\<lambda>l. l = ''OPEN'') ls) \<le> 1
    \<and> (\<exists>n. filter echo_line ls = map (\<lambda>k. ''ECHO '' @ show_dec (Suc k)) [0..<n])
    \<and> (r = Exited \<longrightarrow> last ls = ''DONE'')"
proof (cases "\<exists>s :: 'p peer. ls = pr_lines s \<and> peer_inv s \<and> (r = Exited \<longrightarrow> last (pr_lines s) = ''DONE'')")
  case True
  then show ?thesis by (auto simp: peer_inv_def)
next
  case False
  have "(ls = [] \<or> ls = [''READY '' @ show_dec (unat (sock_port local_addr))]) \<and> r \<noteq> Exited"
  proof (rule ccontr)
    assume no: "\<not> ?thesis"
    then obtain h p x lifetime s where
      "peer_run P h local_addr lifetime is \<lparr>pr_pc = p, pr_opened = False, pr_echoes = 0,
         pr_lines = [''READY '' @ show_dec (unat (sock_port local_addr)), ''ANSWER '' @ x], pr_sent = []\<rparr> = Some (r, s)"
      "ls = pr_lines s"
      using assms unfolding peer_main_def Let_def
      by (auto split: option.split_asm if_split_asm sum.split_asm prod.split_asm dest!: peer_start_lines)
    moreover from peer_run_inv [OF this(1)] have "peer_inv s \<and> (r = Exited \<longrightarrow> last (pr_lines s) = ''DONE'')"
      by (simp add: peer_inv_def echo_line_def)
    ultimately show False using False by blast
  qed
  then show ?thesis by (auto simp: echo_line_def intro!: exI [of _ 0])
qed

definition script_peer :: pc_script where
  "script_peer = \<lparr>pcs_writes = [], pcs_events = [OnOpen, OnOpen], pcs_reads = [DataChannelMessage [7], DataChannelMessage [8]], pcs_open = True\<rparr>"

definition script_turns :: "turn_input list" where
  "script_turns =
     [\<lparr>ti_elapsed = 0, ti_clock = \<lambda>_. 0, ti_read_now = 0, ti_timeout_now = 0, ti_recv = WouldBlock\<rparr>,
      \<lparr>ti_elapsed = millis 60000, ti_clock = \<lambda>_. 0, ti_read_now = 0, ti_timeout_now = 0, ti_recv = WouldBlock\<rparr>]"

lemma script_bind: "arg_bind [] = Some (SockV4 (127, 0, 0, 1) 0)"
proof -
  have "''127.0.0.1:0'' = show_ipv4 (127, 0, 0, 1) @ colon # show_dec (unat (0 :: u16))"
    by (simp add: show_radix_def digits.simps digit_char_def char_eq_iff_code)
  then have "or_default ''127.0.0.1:0'' (arg_value [] ''--bind'') = show_ipv4 (127, 0, 0, 1) @ colon # show_dec (unat (0 :: u16))"
    by (simp add: arg_value_def)
  then show ?thesis unfolding arg_bind_def by (simp only: parse_show_v4)
qed

lemma script_peer_main:
  "peer_main scripted_pc (\<lambda>_. []) (\<lambda>_ _ _. Inr script_peer) (0, 0, 0) [] script_addr ''v=0'' script_turns
     = Some ([''READY '' @ show_dec 40000, ''ANSWER '', ''OPEN'', ''ECHO '' @ show_dec 1, ''ECHO '' @ show_dec 2, ''DONE''], Exited)"
  by (simp add: peer_main_def script_bind arg_number_def arg_value_def peer_start_def rt_try_def rt_add_local_def
      peer_turn_def peer_writes_def peer_events_def peer_reads_def script_peer_def script_turns_def scripted_pc_def
      script_poll_def script_addr_def millis_def numeral_2_eq_2 [symmetric] while_let.simps Let_def)

theorem peer_main_output_witness:
  "\<exists>n. filter echo_line [''READY '' @ show_dec 40000, ''ANSWER '', ''OPEN'', ''ECHO '' @ show_dec 1, ''ECHO '' @ show_dec 2, ''DONE'']
     = map (\<lambda>k. ''ECHO '' @ show_dec (Suc k)) [0..<n]"
  using peer_main_output [OF script_peer_main] by (elim conjE)

section \<open>Candidates of an offer\<close>

lemma candidate_line_skip:
  "strip_prefix ''a=candidate:'' (trim l) = None \<Longrightarrow> candidate_address_lines (l # ls) = candidate_address_lines ls"
  by simp

lemma candidate_line_skipped: "skipped l \<Longrightarrow> candidate_address_lines (l # ls) = candidate_address_lines ls"
  by (simp add: skipped_def)

lemma candidate_line_key:
  assumes "graphic v"
  shows "candidate_address_lines ((''a=ice-ufrag:'' @ v) # ls) = candidate_address_lines ls"
    "candidate_address_lines ((''a=ice-pwd:'' @ v) # ls) = candidate_address_lines ls"
  using trim_key_value [of "''a=ice-ufrag:''" v] trim_key_value [of "''a=ice-pwd:''" v] assms by simp_all

lemma candidate_line_fingerprint:
  assumes "graphic a" "graphic f" "f \<noteq> []"
  shows "candidate_address_lines ((''a=fingerprint:'' @ a @ '' '' @ f) # ls) = candidate_address_lines ls"
  using trim_fingerprint_line [OF assms] by simp

lemma candidate_line_host:
  assumes "list_all (\<lambda>s. graphic s \<and> s \<noteq> []) [f, pr]"
  shows "candidate_address_lines ((''a=candidate:'' @ host_candidate f ''udp'' pr (show_ipv4 a) (show_dec (unat (p :: u16)))) # ls)
    = Some (SockV4 a p)"
proof -
  have ip: "list_all (\<lambda>s. graphic s \<and> s \<noteq> []) [f, ''udp'', pr, show_ipv4 a, show_dec (unat p)]"
    using assms by (cases a) (simp add: graphic_show_ip [of "IpV4 a", unfolded show_ip_def, simplified])
  show ?thesis
    using trim_candidate_line [of f "''udp''" pr "show_ipv4 a" "show_dec (unat p)"] assms split_host_candidate [OF ip]
      parse_show_v4 [of a p]
    by (simp add: eq_ignore_ascii_case_def Let_def)
qed

lemma candidate_render:
  assumes "get_local_credentials E (dt_ice t) = (ufrag, pwd)" "graphic ufrag" "graphic pwd" "graphic setup"
    and "graphic (dt_fingerprint_algorithm t)" "graphic (dt_local_fingerprint t)" "dt_local_fingerprint t \<noteq> []"
    and "get_local_candidates E (dt_ice t) = c # cs" "list_all (\<lambda>s. graphic s \<and> s \<noteq> []) [f, pr]"
    and "candidate_marshal E c = host_candidate f ''udp'' pr (show_ipv4 a) (show_dec (unat p))"
  shows "candidate_address (render_sdp E setup t) = Some (SockV4 a p)"
proof -
  obtain family unspecified where fam: "sdp_family (is_ipv4 (dt_local_addr t)) = (family, unspecified)"
    by (cases "sdp_family (is_ipv4 (dt_local_addr t))")
  let ?ls = "render_sdp_lines (is_ipv4 (dt_local_addr t)) (dt_fingerprint_algorithm t) (dt_local_fingerprint t)
      setup (dt_sctp_port t) ufrag pwd (candidate_marshal E c)"
  have sdp: "render_sdp E setup t = crlf_text ?ls" using assms by (simp add: render_sdp_def)
  have "LF \<notin> set (host_candidate f ''udp'' pr (show_ipv4 a) (show_dec (unat p)))"
    using assms(9) graphic_show_ip [of "IpV4 a", unfolded show_ip_def, simplified] by (intro host_candidate_no_LF) auto
  then have "list_all (\<lambda>l. LF \<notin> set l) ?ls"
    using assms no_LF_family [OF fam] by (simp add: render_sdp_lines_def fam graphic_no_LF)
  then have ls: "lines (render_sdp E setup t) = ?ls" unfolding sdp by (rule lines_crlf_text)
  have "candidate_address_lines ?ls = Some (SockV4 a p)"
    unfolding render_sdp_lines_def fam Let_def prod.case assms(10)
      skipped_fixed [THEN candidate_line_skipped] skipped_number [THEN candidate_line_skipped]
      skipped_family [OF fam, THEN conjunct1, THEN candidate_line_skipped]
      skipped_family [OF fam, THEN conjunct2, THEN candidate_line_skipped]
      skipped_setup [OF assms(4), THEN candidate_line_skipped] candidate_line_key [OF assms(2)]
      candidate_line_key [OF assms(3)] candidate_line_fingerprint [OF assms(5,6,7)]
    by (rule candidate_line_host [OF assms(9)])
  then show ?thesis by (simp add: candidate_address_def ls)
qed

text \<open>
  C38. The answerer finds the offerer: in a description a tunnel renders, with its first candidate
  written as a UDP host candidate of component 1 at an IPv4 address, the reference peer's own
  reader finds exactly that address and port.
\<close>

theorem answerer_finds_offerer:
  assumes "get_local_credentials E (dt_ice t) = (ufrag, pwd)" "graphic ufrag" "graphic pwd" "graphic setup"
    and "graphic (dt_fingerprint_algorithm t)" "graphic (dt_local_fingerprint t)" "dt_local_fingerprint t \<noteq> []"
    and "get_local_candidates E (dt_ice t) = c # cs" "list_all (\<lambda>s. graphic s \<and> s \<noteq> []) [f, pr]"
    and "candidate_marshal E c = host_candidate f ''udp'' pr (show_ipv4 a) (show_dec (unat p))"
  shows "candidate_address (render_sdp E setup t) = Some (SockV4 a p)"
  by (rule candidate_render [OF assms])

lemma script_udp:
  "get_local_candidates scripted (dt_ice script_t0) = [\<lparr>hc_address = show_ip (IpV4 (192, 0, 2, 9)), hc_port = 40000, hc_component = 1\<rparr>]"
  "get_local_credentials scripted (dt_ice script_t0) = (''lufr'', ''lpwd'')"
  "candidate_marshal scripted \<lparr>hc_address = show_ip (IpV4 (192, 0, 2, 9)), hc_port = 40000, hc_component = 1\<rparr> =
     host_candidate ''1'' ''udp'' ''2130706431'' (show_ipv4 (192, 0, 2, 9)) (show_dec (unat (40000 :: u16)))"
  by (simp_all add: script_states initial_tunnel_def Let_def show_ip_def)

lemma script_fp: "fingerprint_hex [179, 3] \<noteq> []"
  by (simp add: fingerprint_hex_Cons hex02_def)

theorem answerer_finds_offerer_witness:
  "candidate_address (render_sdp scripted ''actpass'' script_t0) = Some script_addr"
  using answerer_finds_offerer [OF script_udp(2) _ _ _ _ _ _ script_udp(1) _ script_udp(3)] script_fp
  by (simp add: script_trust script_addr_def)

definition script_offer :: rstr where
  "script_offer = render_sdp scripted ''actpass'' script_t0"

lemma script_offer_candidate: "candidate_address script_offer = Some script_addr"
  unfolding script_offer_def
  using candidate_render [OF script_udp(2) _ _ _ _ _ _ script_udp(1) _ script_udp(3)] script_fp
  by (simp add: script_trust script_addr_def)

definition script_answer_turns :: "turn_input list" where
  "script_answer_turns =
     [\<lparr>ti_elapsed = 0, ti_clock = \<lambda>_. 0, ti_read_now = 0, ti_timeout_now = 0, ti_recv = Datagram [1] script_addr\<rparr>,
      \<lparr>ti_elapsed = millis 30000, ti_clock = \<lambda>_. 0, ti_read_now = 0, ti_timeout_now = millis 30000, ti_recv = WouldBlock\<rparr>]"

lemma script_answerer_main:
  "\<exists>port answer sent. answerer_main scripted (\<lambda>_. []) (\<lambda>_. Inr script_offer) [] script_addr [''OFFER x''] script_answer_turns
     = Some (Exited, [port, answer, ''CLOSED timeout''], sent)"
  by (simp add: answerer_main_def script_bind arg_number_def arg_value_def answerer_start_def script_offer_candidate
      dt_answerer_def script_offer_parse [folded script_offer_def] answerer_config_def tunnel_config_new_def
      answerer_turn_def answerer_poll_def answerer_event_def as_ms_def script_answer_turns_def
      dt_answer_sdp_def direct_eval script_eval)

text \<open>
  C36. The output of the answerer follows its documented protocol, whatever the protocol engines do
  and however long it runs: \<open>OPEN\<close> is printed at most once, the \<open>MSG\<close> lines are numbered from one
  without gaps and each carries the echoed payload, and \<open>CLOSED\<close> is printed at most once, as the
  last line of a run that ends.
\<close>

theorem answerer_main_output:
  assumes "answerer_main E b64 decode args local_addr stdin is = Some (r, ls, sent)"
  shows "length (filter (\<lambda>l. l = ''OPEN'') ls) \<le> 1
    \<and> (\<exists>ms. filter (keyword ''MSG '') ls = msg_lines b64 ms)
    \<and> (filter (keyword ''CLOSED '') ls = []
       \<or> r = Exited \<and> filter (keyword ''CLOSED '') ls = [last ls] \<and> filter (keyword ''CLOSED '') (butlast ls) = [])"
proof -
  consider pre t0 u m where "dt_constructed E t0" "answerer_inv (direct_api E) b64 t0 u m pre"
      "ls = pre \<or> r = Exited \<and> (\<exists>name. ls = pre @ [''CLOSED '' @ name])"
    | "ls = [] \<or> ls = [''PORT '' @ show_dec (unat (sock_port local_addr))]"
    using answerer_main_cases [OF assms] by blast
  then show ?thesis
  proof cases
    case 1
    obtain out where "host_reach (direct_api E) t0 (u, out)"
      and o: "length (filter (\<lambda>l. l = ''OPEN'') pre) = length (filter is_opened_event out)"
      using 1(2) by (auto simp: answerer_inv_def)
    then have "length (filter is_opened_event out) \<le> 1"
      using direct.reach_once [of E t0 u out] constructed_fresh [OF 1(1)] by (auto simp: dt_fresh_def split: if_splits)
    then show ?thesis using 1(2,3) o by (auto simp: answerer_inv_def keyword_def)
  next
    case 2
    then show ?thesis by (auto simp: keyword_def msg_lines_def intro!: exI [of _ "[]"])
  qed
qed

theorem answerer_main_output_witness:
  "\<exists>ls sent. answerer_main scripted (\<lambda>_. []) (\<lambda>_. Inr script_offer) [] script_addr [''OFFER x''] script_answer_turns
     = Some (Exited, ls, sent) \<and> last ls = ''CLOSED timeout'' \<and> filter (keyword ''CLOSED '') (butlast ls) = []"
proof -
  obtain port answer sent where m: "answerer_main scripted (\<lambda>_. []) (\<lambda>_. Inr script_offer) [] script_addr [''OFFER x'']
      script_answer_turns = Some (Exited, [port, answer, ''CLOSED timeout''], sent)"
    using script_answerer_main by blast
  have "filter (keyword ''CLOSED '') [port, answer, ''CLOSED timeout''] \<noteq> []" by (simp add: keyword_def)
  then have "filter (keyword ''CLOSED '') (butlast [port, answer, ''CLOSED timeout'']) = []"
    using answerer_main_output [OF m] by blast
  then show ?thesis using m by auto
qed

section \<open>Candidates the answerer cannot read\<close>

lemma no_bare_v6:
  assumes "length gs = 8"
  shows "parse_socket_addr (show_ipv6 gs @ '':'' @ port) = None"
proof -
  have start: "(\<exists>s. show_ipv6 gs @ '':'' @ port = colon # s) \<or> (\<exists>g s. show_ipv6 gs @ '':'' @ port = hex g @ s \<and> ends_group s)"
    using show_ipv6_start [OF assms, of port] by simp
  have br: "read_char (CHR ''['') (hex g @ s) = None" for g s
    using read_char_hex [of g s] by simp
  show ?thesis using start
  proof
    assume "\<exists>s. show_ipv6 gs @ '':'' @ port = colon # s"
    then obtain s where s: "show_ipv6 gs @ '':'' @ port = colon # s" by blast
    show ?thesis unfolding s
      by (simp add: parse_socket_addr_def read_sock_v4_def read_ipv4_def read_number_colon read_sock_v6_def)
  next
    assume "\<exists>g s. show_ipv6 gs @ '':'' @ port = hex g @ s \<and> ends_group s"
    then obtain g s where s: "show_ipv6 gs @ '':'' @ port = hex g @ s" "ends_group s" by blast
    show ?thesis unfolding s(1)
      by (simp add: parse_socket_addr_def read_sock_v4_def read_ipv4_hex [OF s(2)] read_sock_v6_def br)
  qed
qed

text \<open>An offer whose only candidate is an IPv6 one, which \<open>ParsedOffer\<close> reads, has no usable
  candidate for the answerer: it joins address and port without brackets.\<close>

lemma candidate_address_v6:
  assumes "length gs = 8" "list_all (\<lambda>s. graphic s \<and> s \<noteq> []) [f, tr, pr, port]"
  shows "candidate_address_lines [''a=candidate:'' @ host_candidate f tr pr (show_ipv6 gs) port] = None"
proof -
  have ip: "list_all (\<lambda>s. graphic s \<and> s \<noteq> []) [f, tr, pr, show_ipv6 gs, port]"
    using assms show_ipv6_colon [OF assms(1)] by auto
  show ?thesis
    using trim_candidate_line [of f tr pr "show_ipv6 gs" port] assms split_host_candidate [OF ip] no_bare_v6 [OF assms(1)]
    by (simp add: Let_def)
qed

end
