(* ===== verification/Core_Bench.thy ===== *)
theory Core_Bench
  imports Trust
begin

text \<open>
  The core benchmark, \<open>examples/core-bench.rs\<close>: two tunnels of the direct backend in one process, an
  offerer and an answerer, whose datagrams are handed from one to the other. It is the one place of
  the repository where both halves of a session meet, so it is modelled as the composition of two
  backends. The tunnels run on two stacks, since each draws its own credentials and certificate.
  The environment variables are arguments; measuring time and printing are left out. A panic is
  \<open>Inl\<close>, and \<open>None\<close> is a loop that does not end.
\<close>

section \<open>Setting up\<close>

definition OFFERER :: rstr where "OFFERER = ''127.0.0.1:41000''"

definition ANSWERER :: rstr where "ANSWERER = ''127.0.0.1:41001''"

definition bench_config :: "rstr \<Rightarrow> tunnel_config option" where
  "bench_config remote = map_option
     (\<lambda>a. (tunnel_config_new a (replicate 4 (CHR ''u'')) (replicate 22 (CHR ''p'')) ''aa:bb'')
        \<lparr>cfg_disable_fingerprint_verification := True\<rparr>) (parse_socket_addr remote)"

fun answer_value_lines :: "rstr \<Rightarrow> rstr list \<Rightarrow> rstr option" where
  "answer_value_lines name [] = None"
| "answer_value_lines name (l # ls) = (case strip_prefix name l of
       Some v \<Rightarrow> Some v
     | None \<Rightarrow> answer_value_lines name ls)"

definition answer_value :: "rstr \<Rightarrow> rstr \<Rightarrow> rstr option" where
  "answer_value answer name = answer_value_lines name (lines answer)"

text \<open>The two tunnels and the number of messages the answerer has handed out.\<close>

record ('o, 'a) bench =
  bn_offerer :: 'o
  bn_answerer :: 'a
  bn_received :: nat

type_synonym ('i, 'k, 'd, 's, 'a) bench_pair =
  "(('i, 'k, 'd, 's, 'a) direct_tunnel, ('i, 'k, 'd, 's, 'a) direct_tunnel) bench"

definition bench_setup ::
  "('i, 'c, 'k, 'd, 's, 'a, 'e) stack \<Rightarrow> ('i, 'c, 'k, 'd, 's, 'a, 'e) stack \<Rightarrow> rstr + ('i, 'k, 'd, 's, 'a) bench_pair" where
  "bench_setup EO EA =
     (case (parse_socket_addr OFFERER, parse_socket_addr ANSWERER, bench_config ANSWERER, bench_config OFFERER) of
        (Some offerer_local, Some answerer_local, Some co, Some ca) \<Rightarrow>
          (case dt_offerer EO co offerer_local 0 of
             Inl e \<Rightarrow> Inl (show_tunnel_error e)
           | Inr offerer \<Rightarrow> (case dt_offer_sdp EO offerer of
               None \<Rightarrow> Inl ''offer_sdp''
             | Some offer \<Rightarrow> (case dt_answerer EA ca answerer_local offer 0 of
                 Inl e \<Rightarrow> Inl (show_tunnel_error e)
               | Inr answerer \<Rightarrow> (case dt_answer_sdp EA answerer of
                   None \<Rightarrow> Inl ''answer_sdp''
                 | Some answer \<Rightarrow>
                     (let offerer = dt_apply_remote_answer_sdp answer offerer in
                      case (answer_value answer ''a=ice-ufrag:'', answer_value answer ''a=ice-pwd:'') of
                        (Some ufrag, Some pwd) \<Rightarrow> (case dt_set_remote_ice_credentials EO ufrag pwd offerer of
                            (Inl e, _) \<Rightarrow> Inl (show_tunnel_error e)
                          | (Inr _, offerer) \<Rightarrow> Inr \<lparr>bn_offerer = offerer, bn_answerer = answerer, bn_received = 0\<rparr>)
                      | _ \<Rightarrow> Inl ''answer carried no credentials''))))) 
      | _ \<Rightarrow> Inl ''invalid socket address syntax'')"

section \<open>Moving datagrams\<close>

definition offer_side ::
  "'o tunnel_api \<Rightarrow> 'a tunnel_api \<Rightarrow> nat \<Rightarrow> ('o, 'a) bench \<Rightarrow> (bool \<times> ('o, 'a) bench) option" where
  "offer_side Of An now s = Option.bind (while_let (\<lambda>(moved, s). case poll_event_op Of (bn_offerer s) of
       (None, t) \<Rightarrow> Done (Some (moved, s\<lparr>bn_offerer := t\<rparr>))
     | (Some e, t) \<Rightarrow>
         (let s = s\<lparr>bn_offerer := t\<rparr> in
          case e of
            SendDatagram bytes \<Rightarrow> (case receive_op An now bytes (bn_answerer s) of
                None \<Rightarrow> Done None
              | Some u \<Rightarrow> More (True, s\<lparr>bn_answerer := u\<rparr>))
          | _ \<Rightarrow> More (moved, s))) (False, s)) id"

definition answer_side ::
  "'o tunnel_api \<Rightarrow> 'a tunnel_api \<Rightarrow> nat \<Rightarrow> ('o, 'a) bench \<Rightarrow> (bool \<times> ('o, 'a) bench) option" where
  "answer_side Of An now s = Option.bind (while_let (\<lambda>(moved, s). case poll_event_op An (bn_answerer s) of
       (None, t) \<Rightarrow> Done (Some (moved, s\<lparr>bn_answerer := t\<rparr>))
     | (Some e, t) \<Rightarrow>
         (let s = s\<lparr>bn_answerer := t\<rparr> in
          case e of
            SendDatagram bytes \<Rightarrow> (case receive_op Of now bytes (bn_offerer s) of
                None \<Rightarrow> Done None
              | Some u \<Rightarrow> More (True, s\<lparr>bn_offerer := u\<rparr>))
          | Message _ \<Rightarrow> More (moved, s\<lparr>bn_received := bn_received s + 1\<rparr>)
          | _ \<Rightarrow> More (moved, s))) (False, s)) id"

definition bench_pump ::
  "'o tunnel_api \<Rightarrow> 'a tunnel_api \<Rightarrow> nat \<Rightarrow> ('o, 'a) bench \<Rightarrow> ('o, 'a) bench option" where
  "bench_pump Of An now s = Option.bind (while_let (\<lambda>s. case offer_side Of An now s of
       None \<Rightarrow> Done None
     | Some (m1, s) \<Rightarrow> (case answer_side Of An now s of
           None \<Rightarrow> Done None
         | Some (m2, s) \<Rightarrow> if m1 \<or> m2 then More s else Done (Some s))) s) id"

section \<open>The two phases\<close>

definition bench_handshake ::
  "'o tunnel_api \<Rightarrow> 'a tunnel_api \<Rightarrow> ('o, 'a) bench \<Rightarrow> (rstr + nat \<times> ('o, 'a) bench) option" where
  "bench_handshake Of An s = Option.bind (while_let (\<lambda>(now, s).
       if is_open_op Of (bn_offerer s) \<and> is_open_op An (bn_answerer s) then Done (Some (Inr (now, s)))
       else (case bench_pump Of An now s of
           None \<Rightarrow> Done None
         | Some s \<Rightarrow>
             if is_finished_op Of (bn_offerer s) \<or> is_finished_op An (bn_answerer s)
             then Done (Some (Inl ''handshake failed''))
             else
               (case (tick_op Of (now + 1) (bn_offerer s), tick_op An (now + 1) (bn_answerer s)) of
                  (Some t, Some u) \<Rightarrow>
                    if now + 1 < 20000 then More (now + 1, s\<lparr>bn_offerer := t, bn_answerer := u\<rparr>)
                    else Done (Some (Inl ''handshake timed out''))
                | _ \<Rightarrow> Done None))) (0, s)) id"

text \<open>\<open>usize\<close> subtraction of the release build, which wraps.\<close>

definition usize_sub :: "nat \<Rightarrow> nat \<Rightarrow> nat" where
  "usize_sub a b = nat ((int a - int b) mod 2 ^ 64)"

definition send_window ::
  "'o tunnel_api \<Rightarrow> byte list \<Rightarrow> nat \<Rightarrow> nat \<Rightarrow> nat \<Rightarrow> nat \<times> nat \<times> 'o \<Rightarrow> (rstr + nat \<times> nat \<times> 'o) option" where
  "send_window Of payload messages window delivered s = Option.bind (while_let (\<lambda>(sent, backpressure, t).
       if sent < messages \<and> usize_sub sent delivered < window then
         (case send_op Of payload t of
            None \<Rightarrow> Done None
          | Some (Accepted, t) \<Rightarrow> More (sent + 1, backpressure, t)
          | Some (Backpressure, t) \<Rightarrow> Done (Some (Inr (sent, backpressure + 1, t)))
          | Some (TooLarge, t) \<Rightarrow> Done (Some (Inl ''benchmark payload exceeds max-message-size''))
          | Some (NotOpen, t) \<Rightarrow> Done (Some (Inl ''channel closed during throughput'')))
       else Done (Some (Inr (sent, backpressure, t)))) s) id"

text \<open>The counter \<open>delivered\<close> of the source is \<open>bn_received\<close>, started anew.\<close>

definition bench_throughput ::
  "'o tunnel_api \<Rightarrow> 'a tunnel_api \<Rightarrow> byte list \<Rightarrow> nat \<Rightarrow> nat \<Rightarrow> nat \<Rightarrow> ('o, 'a) bench \<Rightarrow>
   (rstr + nat \<times> nat \<times> ('o, 'a) bench) option" where
  "bench_throughput Of An payload messages window now s = Option.bind (while_let (\<lambda>(now, sent, backpressure, s).
       if bn_received s < messages then
         (case send_window Of payload messages window (bn_received s) (sent, backpressure, bn_offerer s) of
            None \<Rightarrow> Done None
          | Some (Inl e) \<Rightarrow> Done (Some (Inl e))
          | Some (Inr (sent, backpressure, t)) \<Rightarrow>
              (case bench_pump Of An now (s\<lparr>bn_offerer := t\<rparr>) of
                 None \<Rightarrow> Done None
               | Some s \<Rightarrow> More (now + 1, sent, backpressure, s)))
       else Done (Some (Inr (sent, backpressure, s)))) (now, 0, 0, s\<lparr>bn_received := 0\<rparr>)) id"

definition bench_main ::
  "('i, 'c, 'k, 'd, 's, 'a, 'e) stack \<Rightarrow> ('i, 'c, 'k, 'd, 's, 'a, 'e) stack \<Rightarrow> nat \<Rightarrow> nat \<Rightarrow> nat \<Rightarrow>
   (rstr + nat \<times> nat \<times> nat \<times> ('i, 'k, 'd, 's, 'a) bench_pair) option" where
  "bench_main EO EA payload_bytes window messages =
     (case bench_setup EO EA of
        Inl e \<Rightarrow> Some (Inl e)
      | Inr s \<Rightarrow> Option.bind (bench_handshake (direct_api EO) (direct_api EA) s) (\<lambda>r. case r of
            Inl e \<Rightarrow> Some (Inl e)
          | Inr (handshake_ms, s) \<Rightarrow>
              map_option (map_sum id (\<lambda>(sent, backpressure, s). (handshake_ms, sent, backpressure, s)))
                (bench_throughput (direct_api EO) (direct_api EA) (replicate payload_bytes 7) messages window handshake_ms s)))"

section \<open>Both tunnels are in sessions\<close>

primrec is_message :: "event \<Rightarrow> bool" where
  "is_message (SendDatagram b) = False"
| "is_message Opened = False"
| "is_message (Message b) = True"
| "is_message (Closed r) = False"

text \<open>Both tunnels are in a session of their own, and the answerer has handed out \<open>k\<close> messages more
  than are counted.\<close>

definition bench_ok :: "'o tunnel_api \<Rightarrow> 'a tunnel_api \<Rightarrow> 'o \<Rightarrow> 'a \<Rightarrow> nat \<Rightarrow> ('o, 'a) bench \<Rightarrow> bool" where
  "bench_ok Of An o0 a0 k s = ((\<exists>out. host_reach Of o0 (bn_offerer s, out))
     \<and> (\<exists>out. host_reach An a0 (bn_answerer s, out) \<and> bn_received s + k = length (filter is_message out)))"

lemma bench_ok_offerer:
  assumes "bench_ok Of An o0 a0 k s" "\<And>out. \<exists>out'. host_step Of c (bn_offerer s, out) = Some (t, out')"
  shows "bench_ok Of An o0 a0 k (s\<lparr>bn_offerer := t\<rparr>)"
proof -
  obtain out where "host_reach Of o0 (bn_offerer s, out)" using assms(1) by (auto simp: bench_ok_def)
  then have "\<exists>out'. host_reach Of o0 (t, out')"
    using assms(2) [of out] host_reach.step [of Of o0 "(bn_offerer s, out)" c] by blast
  then show ?thesis using assms(1) by (simp add: bench_ok_def)
qed

lemma bench_ok_answerer:
  assumes "bench_ok Of An o0 a0 k s"
    and "\<And>out. host_step An c (bn_answerer s, out) = Some (t, out @ es)" "n = bn_received s + length (filter is_message es)"
  shows "bench_ok Of An o0 a0 k (s\<lparr>bn_answerer := t, bn_received := n\<rparr>)"
proof -
  obtain out where "host_reach An a0 (bn_answerer s, out)" "bn_received s + k = length (filter is_message out)"
    using assms(1) by (auto simp: bench_ok_def)
  then have "host_reach An a0 (t, out @ es)" "n + k = length (filter is_message (out @ es))"
    using assms(2) [of out] assms(3) host_reach.step by auto
  then show ?thesis using assms(1) by (auto simp: bench_ok_def)
qed

lemma bench_ok_answerer_call:
  assumes "bench_ok Of An o0 a0 k s" "\<And>out. host_step An c (bn_answerer s, out) = Some (t, out)"
  shows "bench_ok Of An o0 a0 k (s\<lparr>bn_answerer := t\<rparr>)"
  using bench_ok_answerer [OF assms(1), of c t "[]" "bn_received s"] assms(2) by simp

lemma bench_ok_poll_offerer:
  assumes "bench_ok Of An o0 a0 k s" "poll_event_op Of (bn_offerer s) = (e, t)"
  shows "bench_ok Of An o0 a0 k (s\<lparr>bn_offerer := t\<rparr>)"
  by (rule bench_ok_offerer [OF assms(1), where c = PollEvent]) (cases e, simp_all add: assms(2))

lemma bench_ok_poll_answerer:
  assumes "bench_ok Of An o0 a0 k s"
  shows "poll_event_op An (bn_answerer s) = (None, t) \<Longrightarrow> bench_ok Of An o0 a0 k (s\<lparr>bn_answerer := t\<rparr>)"
    and "poll_event_op An (bn_answerer s) = (Some e, t) \<Longrightarrow> \<not> is_message e \<Longrightarrow> bench_ok Of An o0 a0 k (s\<lparr>bn_answerer := t\<rparr>)"
    and "poll_event_op An (bn_answerer s) = (Some e, t) \<Longrightarrow> is_message e \<Longrightarrow>
      bench_ok Of An o0 a0 k (s\<lparr>bn_answerer := t, bn_received := bn_received s + 1\<rparr>)"
  using bench_ok_answerer [OF assms, of PollEvent t "[]" "bn_received s"]
    bench_ok_answerer [OF assms, of PollEvent t "[e]" "bn_received s"]
    bench_ok_answerer [OF assms, of PollEvent t "[e]" "bn_received s + 1"]
  by simp_all

lemma bench_ok_receive_offerer:
  "bench_ok Of An o0 a0 k s \<Longrightarrow> receive_op Of n d (bn_offerer s) = Some t \<Longrightarrow> bench_ok Of An o0 a0 k (s\<lparr>bn_offerer := t\<rparr>)"
  by (rule bench_ok_offerer [where c = "Receive n d"]) simp_all

lemma bench_ok_receive_answerer:
  "bench_ok Of An o0 a0 k s \<Longrightarrow> receive_op An n d (bn_answerer s) = Some t \<Longrightarrow> bench_ok Of An o0 a0 k (s\<lparr>bn_answerer := t\<rparr>)"
  by (rule bench_ok_answerer_call [where c = "Receive n d"]) simp_all

lemma offer_side_ok:
  assumes "offer_side Of An now s = Some r" "bench_ok Of An o0 a0 k s"
  shows "bench_ok Of An o0 a0 k (snd r)"
  using assms(1) unfolding offer_side_def
proof (rule while_bind_inv [where I = "\<lambda>r. bench_ok Of An o0 a0 k (snd r)"])
  fix v w :: "bool \<times> ('a, 'b) bench"
  assume i: "bench_ok Of An o0 a0 k (snd v)"
  obtain m x where v: "v = (m, x)" by (cases v)
  obtain e t where p: "poll_event_op Of (bn_offerer x) = (e, t)" by (cases "poll_event_op Of (bn_offerer x)")
  have x: "bench_ok Of An o0 a0 k (x\<lparr>bn_offerer := t\<rparr>)" using i v bench_ok_poll_offerer [OF _ p] by simp
  let ?step = "\<lambda>(moved, s). case poll_event_op Of (bn_offerer s) of
       (None, t) \<Rightarrow> Done (Some (moved, s\<lparr>bn_offerer := t\<rparr>))
     | (Some e, t) \<Rightarrow> (let s = s\<lparr>bn_offerer := t\<rparr> in
          case e of SendDatagram bytes \<Rightarrow> (case receive_op An now bytes (bn_answerer s) of
                None \<Rightarrow> Done None | Some u \<Rightarrow> More (True, s\<lparr>bn_answerer := u\<rparr>))
          | _ \<Rightarrow> More (moved, s))"
  show "?step v = More w \<Longrightarrow> bench_ok Of An o0 a0 k (snd w)"
    using x p v bench_ok_receive_answerer [OF x, of now] by (cases e) (auto simp: Let_def split: event.split_asm option.split_asm)
  show "?step v = Done (Some w) \<Longrightarrow> bench_ok Of An o0 a0 k (snd w)"
    using x p v by (cases e) (auto simp: Let_def split: event.split_asm option.split_asm)
qed (simp add: assms(2))

lemma answer_side_ok:
  assumes "answer_side Of An now s = Some r" "bench_ok Of An o0 a0 k s"
  shows "bench_ok Of An o0 a0 k (snd r)"
  using assms(1) unfolding answer_side_def
proof (rule while_bind_inv [where I = "\<lambda>r. bench_ok Of An o0 a0 k (snd r)"])
  fix v w :: "bool \<times> ('a, 'b) bench"
  assume i: "bench_ok Of An o0 a0 k (snd v)"
  obtain m x where v: "v = (m, x)" by (cases v)
  obtain e t where p: "poll_event_op An (bn_answerer x) = (e, t)" by (cases "poll_event_op An (bn_answerer x)")
  have i: "bench_ok Of An o0 a0 k x" using i v by simp
  note a = bench_ok_poll_answerer [OF i]
  let ?step = "\<lambda>(moved, s). case poll_event_op An (bn_answerer s) of
       (None, t) \<Rightarrow> Done (Some (moved, s\<lparr>bn_answerer := t\<rparr>))
     | (Some e, t) \<Rightarrow> (let s = s\<lparr>bn_answerer := t\<rparr> in
          case e of SendDatagram bytes \<Rightarrow> (case receive_op Of now bytes (bn_offerer s) of
                None \<Rightarrow> Done None | Some u \<Rightarrow> More (True, s\<lparr>bn_offerer := u\<rparr>))
          | Message _ \<Rightarrow> More (moved, s\<lparr>bn_received := bn_received s + 1\<rparr>)
          | _ \<Rightarrow> More (moved, s))"
  show "?step v = More w \<Longrightarrow> bench_ok Of An o0 a0 k (snd w)"
    using p v a bench_ok_receive_offerer [of Of An o0 a0 k "x\<lparr>bn_answerer := t\<rparr>" now]
    by (cases e) (auto simp: Let_def split: event.split_asm option.split_asm)
  show "?step v = Done (Some w) \<Longrightarrow> bench_ok Of An o0 a0 k (snd w)"
    using a p v by (cases e) (auto simp: Let_def split: event.split_asm option.split_asm)
qed (simp add: assms(2))

lemma bench_pump_ok:
  assumes "bench_pump Of An now s = Some u" "bench_ok Of An o0 a0 k s"
  shows "bench_ok Of An o0 a0 k u"
  using assms(1) unfolding bench_pump_def
proof (rule while_bind_inv [where I = "bench_ok Of An o0 a0 k"])
  fix v w :: "('a, 'b) bench"
  assume i: "bench_ok Of An o0 a0 k v"
  let ?step = "\<lambda>s. case offer_side Of An now s of None \<Rightarrow> Done None
     | Some (m1, s) \<Rightarrow> (case answer_side Of An now s of None \<Rightarrow> Done None
         | Some (m2, s) \<Rightarrow> if m1 \<or> m2 then More s else Done (Some s))"
  have "offer_side Of An now v = Some (m, x) \<Longrightarrow> answer_side Of An now x = Some (n, y) \<Longrightarrow> bench_ok Of An o0 a0 k y" for m x n y
    using offer_side_ok [OF _ i, of now "(m, x)"] answer_side_ok [of Of An now x "(n, y)" o0 a0 k] by simp
  then show "?step v = More w \<Longrightarrow> bench_ok Of An o0 a0 k w" "?step v = Done (Some w) \<Longrightarrow> bench_ok Of An o0 a0 k w"
    by (auto split: option.split_asm prod.split_asm if_split_asm)
qed (rule assms(2))

lemma bench_handshake_ok:
  assumes "bench_handshake Of An s = Some r" "bench_ok Of An o0 a0 k s"
  shows "case r of Inl e \<Rightarrow> True
    | Inr (now, u) \<Rightarrow> bench_ok Of An o0 a0 k u \<and> is_open_op Of (bn_offerer u) \<and> is_open_op An (bn_answerer u) \<and> now < 20000"
  using assms(1) unfolding bench_handshake_def
proof (rule while_bind_inv [where I = "\<lambda>(now, s). bench_ok Of An o0 a0 k s \<and> now < 20000"])
  fix v w :: "nat \<times> ('a, 'b) bench" and r
  assume i: "case v of (now, s) \<Rightarrow> bench_ok Of An o0 a0 k s \<and> now < 20000"
  obtain now x where v: "v = (now, x)" by (cases v)
  have x: "bench_ok Of An o0 a0 k x" "now < 20000" using i v by simp_all
  have t: "bench_ok Of An o0 a0 k (y\<lparr>bn_offerer := t, bn_answerer := u\<rparr>)"
    if "bench_pump Of An now x = Some y" "tick_op Of (Suc now) (bn_offerer y) = Some t" "tick_op An (Suc now) (bn_answerer y) = Some u"
    for y t u
  proof -
    have "bench_ok Of An o0 a0 k (y\<lparr>bn_offerer := t\<rparr>)"
      by (rule bench_ok_offerer [OF bench_pump_ok [OF that(1) x(1)], where c = "Tick (Suc now)"]) (simp add: that(2))
    then show ?thesis by (rule bench_ok_answerer_call [where c = "Tick (Suc now)"]) (simp add: that(3))
  qed
  let ?step = "\<lambda>(now, s). if is_open_op Of (bn_offerer s) \<and> is_open_op An (bn_answerer s) then Done (Some (Inr (now, s)))
       else (case bench_pump Of An now s of None \<Rightarrow> Done None
         | Some s \<Rightarrow> if is_finished_op Of (bn_offerer s) \<or> is_finished_op An (bn_answerer s)
             then Done (Some (Inl ''handshake failed''))
             else (case (tick_op Of (now + 1) (bn_offerer s), tick_op An (now + 1) (bn_answerer s)) of
                  (Some t, Some u) \<Rightarrow>
                    if now + 1 < 20000 then More (now + 1, s\<lparr>bn_offerer := t, bn_answerer := u\<rparr>)
                    else Done (Some (Inl ''handshake timed out''))
                | _ \<Rightarrow> Done None))"
  show "?step v = More w \<Longrightarrow> case w of (now, s) \<Rightarrow> bench_ok Of An o0 a0 k s \<and> now < 20000"
    using v x t by (auto split: if_split_asm option.split_asm)
  show "?step v = Done (Some r) \<Longrightarrow> case r of Inl e \<Rightarrow> True
    | Inr (now, u) \<Rightarrow> bench_ok Of An o0 a0 k u \<and> is_open_op Of (bn_offerer u) \<and> is_open_op An (bn_answerer u) \<and> now < 20000"
    using v x by (auto split: if_split_asm option.split_asm)
qed (simp add: assms(2))

lemma send_window_ok:
  assumes "send_window Of d n w k0 (sent, b, bn_offerer s) = Some (Inr (sent', b', t))" "bench_ok Of An o0 a0 k s" "sent \<le> n"
  shows "bench_ok Of An o0 a0 k (s\<lparr>bn_offerer := t\<rparr>) \<and> sent' \<le> n"
proof -
  let ?I = "\<lambda>(sent, b :: nat, t). bench_ok Of An o0 a0 k (s\<lparr>bn_offerer := t\<rparr>) \<and> sent \<le> n"
  have "case Inr (sent', b', t) of Inl (e :: rstr) \<Rightarrow> True | Inr v \<Rightarrow> ?I v"
    using assms(1) unfolding send_window_def
  proof (rule while_bind_inv [where I = ?I])
    fix v u r assume i: "?I v"
    obtain m c x where v: "v = (m, c, x)" by (cases v)
    have x: "bench_ok Of An o0 a0 k (s\<lparr>bn_offerer := x\<rparr>)" "m \<le> n" using i v by simp_all
    have t: "send_op Of d x = Some (q, y) \<Longrightarrow> bench_ok Of An o0 a0 k (s\<lparr>bn_offerer := y\<rparr>)" for q y
      using bench_ok_offerer [OF x(1), of "Send d" y] by simp
    let ?step = "\<lambda>(sent, backpressure, t). if sent < n \<and> usize_sub sent k0 < w then
         (case send_op Of d t of None \<Rightarrow> Done None
          | Some (Accepted, t) \<Rightarrow> More (sent + 1, backpressure, t)
          | Some (Backpressure, t) \<Rightarrow> Done (Some (Inr (sent, backpressure + 1, t)))
          | Some (TooLarge, t) \<Rightarrow> Done (Some (Inl ''benchmark payload exceeds max-message-size''))
          | Some (NotOpen, t) \<Rightarrow> Done (Some (Inl ''channel closed during throughput'')))
       else Done (Some (Inr (sent, backpressure, t)))"
    show "?step v = More u \<Longrightarrow> ?I u"
      using v x t by (auto split: if_split_asm option.split_asm prod.split_asm send_result.split_asm)
    show "?step v = Done (Some r) \<Longrightarrow> case r of Inl (e :: rstr) \<Rightarrow> True | Inr v \<Rightarrow> ?I v"
      using v x t by (auto split: if_split_asm option.split_asm prod.split_asm send_result.split_asm)
  qed (use assms(2,3) in simp)
  then show ?thesis by simp
qed

lemma bench_throughput_ok:
  assumes "bench_throughput Of An d n w now s = Some (Inr (sent, b, u))" "bench_ok Of An o0 a0 0 s"
  shows "bench_ok Of An o0 a0 (bn_received s) u \<and> sent \<le> n \<and> n \<le> bn_received u"
proof -
  let ?ok = "bench_ok Of An o0 a0 (bn_received s)"
  let ?I = "\<lambda>(now :: nat, sent, b :: nat, s). ?ok s \<and> sent \<le> n"
  let ?Q = "\<lambda>r. case r of Inl (e :: rstr) \<Rightarrow> True | Inr (sent, b, u) \<Rightarrow> ?ok u \<and> sent \<le> n \<and> n \<le> bn_received u"
  have "?Q (Inr (sent, b, u))"
    using assms(1) unfolding bench_throughput_def
  proof (rule while_bind_inv [where I = ?I])
    fix v x r assume i: "?I v"
    obtain now m c y where v: "v = (now, m, c, y)" by (cases v)
    have y: "?ok y" "m \<le> n" using i v by simp_all
    have t: "?ok z \<and> m' \<le> n"
      if "send_window Of d n w (bn_received y) (m, c, bn_offerer y) = Some (Inr (m', c', t))"
        "bench_pump Of An now (y\<lparr>bn_offerer := t\<rparr>) = Some z" for m' c' t z
      using bench_pump_ok [OF that(2)] send_window_ok [OF that(1) y] by blast
    let ?step = "\<lambda>(now, sent, backpressure, s). if bn_received s < n then
         (case send_window Of d n w (bn_received s) (sent, backpressure, bn_offerer s) of
            None \<Rightarrow> Done None | Some (Inl e) \<Rightarrow> Done (Some (Inl e))
          | Some (Inr (sent, backpressure, t)) \<Rightarrow> (case bench_pump Of An now (s\<lparr>bn_offerer := t\<rparr>) of
                 None \<Rightarrow> Done None | Some s \<Rightarrow> More (now + 1, sent, backpressure, s)))
       else Done (Some (Inr (sent, backpressure, s)))"
    show "?step v = More x \<Longrightarrow> ?I x"
      using v y t by (auto split: if_split_asm option.split_asm prod.split_asm sum.split_asm)
    show "?step v = Done (Some r) \<Longrightarrow> ?Q r"
      using v y t by (auto split: if_split_asm option.split_asm prod.split_asm sum.split_asm)
  qed (use assms(2) in \<open>simp add: bench_ok_def\<close>)
  then show ?thesis by simp
qed

text \<open>The set-up calls are host calls, too.\<close>

lemma bench_setup_ok:
  assumes "bench_setup EO EA = Inr s"
  shows "\<exists>o0 a0. dt_constructed EO o0 \<and> dt_constructed EA a0 \<and> bench_ok (direct_api EO) (direct_api EA) o0 a0 0 s"
proof -
  obtain co lo ca la o0 offer a0 answer ufrag pwd r t where "dt_offerer EO co lo 0 = Inr o0" "dt_answerer EA ca la offer 0 = Inr a0"
    and t: "dt_set_remote_ice_credentials EO ufrag pwd (dt_apply_remote_answer_sdp answer o0) = (r, t)"
    and s: "s = \<lparr>bn_offerer = t, bn_answerer = a0, bn_received = 0\<rparr>"
    using assms unfolding bench_setup_def Let_def
    by (auto split: option.split_asm sum.split_asm prod.split_asm)
  then have c: "dt_constructed EO o0" "dt_constructed EA a0" by (auto simp: dt_constructed_def)
  have "host_reach (direct_api EO) o0 (dt_apply_remote_answer_sdp answer o0, [])"
    by (rule host_reach.step [OF host_reach.start, where c = "ApplyAnswer answer"]) simp
  then have "host_reach (direct_api EO) o0 (t, [])"
    by (rule host_reach.step [where c = "SetCredentials ufrag pwd"]) (simp add: t)
  then have "bench_ok (direct_api EO) (direct_api EA) o0 a0 0 s"
    using s by (auto simp: bench_ok_def intro!: exI [of _ "[]"] host_reach.start)
  with c show ?thesis by blast
qed

section \<open>Credentials\<close>

lemma answer_value_skip: "strip_prefix name l = None \<Longrightarrow> answer_value_lines name (l # ls) = answer_value_lines name ls"
  by simp

lemma answer_value_render:
  assumes "describes E (dt_ice t) ufrag pwd addr" "graphic (dt_fingerprint_algorithm t)" "graphic setup"
    and "graphic (dt_local_fingerprint t)"
  shows "answer_value (render_sdp E setup t) ''a=ice-ufrag:'' = Some ufrag
    \<and> answer_value (render_sdp E setup t) ''a=ice-pwd:'' = Some pwd"
proof -
  obtain c cs f tr pr where d: "get_local_credentials E (dt_ice t) = (ufrag, pwd)" "graphic ufrag" "graphic pwd"
      "get_local_candidates E (dt_ice t) = c # cs" "list_all (\<lambda>s. graphic s \<and> s \<noteq> []) [f, tr, pr]"
    and m: "candidate_marshal E c = host_candidate f tr pr (show_ip (sock_ip addr)) (show_dec (unat (sock_port addr)))"
    using assms(1) unfolding describes_def by blast
  obtain family unspecified where fam: "sdp_family (is_ipv4 (dt_local_addr t)) = (family, unspecified)"
    by (cases "sdp_family (is_ipv4 (dt_local_addr t))")
  let ?ls = "render_sdp_lines (is_ipv4 (dt_local_addr t)) (dt_fingerprint_algorithm t) (dt_local_fingerprint t)
      setup (dt_sctp_port t) ufrag pwd (candidate_marshal E c)"
  have sdp: "render_sdp E setup t = crlf_text ?ls" using d by (simp add: render_sdp_def)
  have "list_all (\<lambda>l. LF \<notin> set l) ?ls"
    using d assms host_candidate_no_LF [OF d(5)] no_LF_family [OF fam]
    by (simp add: render_sdp_lines_def fam m graphic_no_LF)
  then have ls: "lines (render_sdp E setup t) = ?ls" unfolding sdp by (rule lines_crlf_text)
  show ?thesis by (simp add: answer_value_def ls render_sdp_lines_def fam)
qed

section \<open>A scripted run\<close>

text \<open>A scripted answering side: it completes a handshake by answering the record, and an
  association by confirming it.\<close>

definition script_server :: "(ice_script, host_config, byte list, byte list list, unit, assoc_script, byte list) stack" where
  "script_server = scripted\<lparr>
     dtls_read := (\<lambda>now r m d. (script_dtls_read m, if take 1 m = [22] then d @ [[22]] else d)),
     sctp_handle := (\<lambda>now r d s. (if hd (d @ [255]) = 0
       then Some (0, NewAssociation (assoc_fresh\<lparr>as_events := [SctpConnected], as_out := [[2]]\<rparr>))
       else Some (0, AssociationEvent d), s))\<rparr>"

text \<open>The two tunnels as the set-up leaves them, and as the handshake leaves them.\<close>

definition bench_offerer_config :: tunnel_config where
  "bench_offerer_config = (tunnel_config_new (SockV4 (127, 0, 0, 1) 41001) (replicate 4 (CHR ''u'')) (replicate 22 (CHR ''p'')) ''aa:bb'')
     \<lparr>cfg_disable_fingerprint_verification := True\<rparr>"
definition bench_answerer_config :: tunnel_config where
  "bench_answerer_config = (tunnel_config_new (SockV4 (127, 0, 0, 1) 41000) (replicate 4 (CHR ''u'')) (replicate 22 (CHR ''p'')) ''aa:bb'')
     \<lparr>cfg_disable_fingerprint_verification := True\<rparr>"

lemma bench_addresses:
  "parse_socket_addr OFFERER = Some (SockV4 (127, 0, 0, 1) 41000)" "parse_socket_addr ANSWERER = Some (SockV4 (127, 0, 0, 1) 41001)"
proof -
  have o: "OFFERER = show_ipv4 (127, 0, 0, 1) @ colon # show_dec (unat (41000 :: u16))"
    and a: "ANSWERER = show_ipv4 (127, 0, 0, 1) @ colon # show_dec (unat (41001 :: u16))"
    by (simp_all add: OFFERER_def ANSWERER_def show_radix_def digits.simps digit_char_def char_eq_iff_code)
  show "parse_socket_addr OFFERER = Some (SockV4 (127, 0, 0, 1) 41000)" unfolding o by (rule parse_show_v4)
  show "parse_socket_addr ANSWERER = Some (SockV4 (127, 0, 0, 1) 41001)" unfolding a by (rule parse_show_v4)
qed
lemma bench_configs: "bench_config ANSWERER = Some bench_offerer_config" "bench_config OFFERER = Some bench_answerer_config"
  by (simp_all add: bench_config_def bench_addresses bench_offerer_config_def bench_answerer_config_def)

definition script_bench_ice :: "rstr \<times> rstr \<Rightarrow> u16 \<Rightarrow> ice_script" where
  "script_bench_ice r port = \<lparr>is_selected = False, is_events = [], is_writes = [[0]], is_local = (''lufr'', ''lpwd''),
     is_remote = Some r, is_candidates = [\<lparr>hc_address = show_ip (IpV4 (127, 0, 0, 1)), hc_port = port, hc_component = 1\<rparr>]\<rparr>"

definition bench_o0 :: script_tunnel where
  "bench_o0 = (let t = (initial_tunnel scripted Offerer bench_offerer_config (SockV4 (127, 0, 0, 1) 41000) 0
          (script_bench_ice (replicate 4 (CHR ''u''), replicate 22 (CHR ''p'')) 41000))\<lparr>dt_local_fingerprint := fingerprint_hex [179, 3]\<rparr>
      in t\<lparr>dt_dtls_config := Some (dtls_config_of scripted [48, 130, 1] t)\<rparr>)"

lemma bench_offerer: "dt_offerer scripted bench_offerer_config (SockV4 (127, 0, 0, 1) 41000) 0 = Inr bench_o0"
  by (simp add: direct_eval script_eval bench_offerer_config_def bench_o0_def script_bench_ice_def)

lemma bench_o0_describes: "describes scripted (dt_ice bench_o0) ''lufr'' ''lpwd'' (SockV4 (127, 0, 0, 1) 41000)"
proof -
  let ?c = "\<lparr>hc_address = show_ip (IpV4 (127, 0, 0, 1)), hc_port = 41000, hc_component = 1\<rparr>"
  have "get_local_candidates scripted (dt_ice bench_o0) = [?c]"
    "get_local_credentials scripted (dt_ice bench_o0) = (''lufr'', ''lpwd'')"
    by (simp_all add: bench_o0_def script_bench_ice_def initial_tunnel_def Let_def)
  moreover have "list_all (\<lambda>s. graphic s \<and> s \<noteq> []) [''1'', ''udp'', ''2130706431'']" by simp
  ultimately show ?thesis unfolding describes_def by (intro conjI exI) (assumption | simp)+
qed

lemma bench_fingerprint [simp]: "fingerprint_hex [179, 3] \<noteq> []"
  by (simp add: fingerprint_hex_Cons hex02_def)

lemma bench_offer_parse:
  "parse_offer (render_sdp scripted ''actpass'' bench_o0) =
     Inr \<lparr>po_ufrag = ''lufr'', po_pwd = ''lpwd'', po_remote = SockV4 (127, 0, 0, 1) 41000, po_fingerprint = fingerprint_hex [179, 3]\<rparr>"
  using render_sdp_parse [OF bench_o0_describes, of "''actpass''"]
    by (simp add: bench_o0_def Let_def dtls_config_of_def initial_tunnel_def bench_offerer_config_def tunnel_config_new_def)

definition bench_a0 :: script_tunnel where
  "bench_a0 = (let t = (initial_tunnel script_server Answerer (bench_answerer_config\<lparr>cfg_remote_fingerprint := fingerprint_hex [179, 3]\<rparr>)
          (SockV4 (127, 0, 0, 1) 41001) 0 (script_bench_ice (''lufr'', ''lpwd'') 41001))\<lparr>dt_local_fingerprint := fingerprint_hex [179, 3]\<rparr>
      in t\<lparr>dt_dtls_config := Some (dtls_config_of script_server [48, 130, 1] t)\<rparr>)"

lemma bench_answerer: "dt_answerer script_server bench_answerer_config (SockV4 (127, 0, 0, 1) 41001) (render_sdp scripted ''actpass'' bench_o0) 0 = Inr bench_a0"
  by (simp add: dt_answerer_def bench_offer_parse direct_eval script_eval bench_answerer_config_def bench_a0_def
      script_bench_ice_def script_server_def)

lemma bench_a0_describes: "describes script_server (dt_ice bench_a0) ''lufr'' ''lpwd'' (SockV4 (127, 0, 0, 1) 41001)"
proof -
  let ?c = "\<lparr>hc_address = show_ip (IpV4 (127, 0, 0, 1)), hc_port = 41001, hc_component = 1\<rparr>"
  have "get_local_candidates script_server (dt_ice bench_a0) = [?c]"
    "get_local_credentials script_server (dt_ice bench_a0) = (''lufr'', ''lpwd'')"
    by (simp_all add: bench_a0_def script_bench_ice_def initial_tunnel_def Let_def script_server_def)
  moreover have "list_all (\<lambda>s. graphic s \<and> s \<noteq> []) [''1'', ''udp'', ''2130706431'']" by simp
  ultimately show ?thesis unfolding describes_def by (intro conjI exI) (assumption | simp add: script_server_def)+
qed

definition bench_o1 :: script_tunnel where
  "bench_o1 = bench_o0\<lparr>dt_remote_fingerprint := fingerprint_hex [179, 3], dt_ice := (dt_ice bench_o0)\<lparr>is_remote := Some (''lufr'', ''lpwd'')\<rparr>\<rparr>"

lemma bench_script_setup: "bench_setup scripted script_server = Inr \<lparr>bn_offerer = bench_o1, bn_answerer = bench_a0, bn_received = 0\<rparr>"
proof -
  have a: "graphic (dt_fingerprint_algorithm bench_a0)" "graphic (dt_local_fingerprint bench_a0)" "dt_local_fingerprint bench_a0 = fingerprint_hex [179, 3]"
    "dt_role bench_a0 = Answerer"
    by (simp_all add: bench_a0_def Let_def dtls_config_of_def initial_tunnel_def bench_answerer_config_def tunnel_config_new_def)
  have p: "graphic ''passive''" by simp
  have d: "dt_offer_sdp scripted bench_o0 = Some (render_sdp scripted ''actpass'' bench_o0)"
     "dt_answer_sdp script_server bench_a0 = Some (render_sdp script_server ''passive'' bench_a0)" by (simp_all add: a dt_offer_sdp_def dt_answer_sdp_def)
  show ?thesis
    using render_sdp_parse [OF bench_a0_describes a(1) p a(2)] answer_value_render [OF bench_a0_describes a(1) p a(2)]
    by (simp add: bench_setup_def bench_addresses bench_configs bench_offerer bench_answerer d a dt_apply_remote_answer_sdp_def
      dt_set_remote_ice_credentials_def bench_o1_def)
qed

definition bench_open :: "instant \<Rightarrow> sctp_transport_config option \<Rightarrow> script_tunnel \<Rightarrow> script_tunnel" where
  "bench_open now c t = t\<lparr>dt_ice := (dt_ice t)\<lparr>is_selected := True, is_writes := []\<rparr>, dt_dtls := [],
     dt_sctp := Some (), dt_sctp_config := c, dt_association := Some script_assoc1, dt_association_handle := Some 0,
     dt_dtls_started := True, dt_dtls_connected := True, dt_sctp_connected := True,
     dt_channel_dialed := True, dt_opened := True, dt_last_now := now, dt_events := [],
     dt_trace := \<lparr>start_ms = 0, ice_ms = Some 1, dtls_ms = Some 1, sctp_ms = Some 1, opened_ms = Some 1\<rparr>\<rparr>"

definition bench_pair_open :: "(ice_script, byte list, byte list list, unit, assoc_script) bench_pair" where
  "bench_pair_open = \<lparr>bn_offerer = bench_open (millis 5002) None bench_o1,
     bn_answerer = bench_open (millis 5002) (Some \<lparr>st_max_message_size = MAX_MESSAGE_SIZE, st_sctp_port = 5000\<rparr>) bench_a0,
     bn_received = 0\<rparr>"

lemmas bench_states = bench_o0_def bench_a0_def bench_o1_def bench_offerer_config_def bench_answerer_config_def script_bench_ice_def
  bench_open_def bench_pair_open_def script_assoc1_def
lemmas bench_eval = offer_side_def answer_side_def bench_pump_def bench_handshake_def

lemma bench_script_handshake:
  "bench_handshake (direct_api scripted) (direct_api script_server) \<lparr>bn_offerer = bench_o1, bn_answerer = bench_a0, bn_received = 0\<rparr>
    = Some (Inr (2, bench_pair_open))"
  by (simp add: direct_eval script_eval bench_states script_server_def bench_eval)

lemma bench_script_throughput:
  "\<exists>s. bench_throughput (direct_api scripted) (direct_api script_server) [7, 7, 7] 1 2 2 bench_pair_open = Some (Inr (1, 0, s))"
  by (simp add: direct_eval script_eval bench_states script_server_def bench_eval bench_throughput_def send_window_def usize_sub_def
    MAX_MESSAGE_SIZE_def DEFAULT_SEND_BUFFER_CAP_def saturating_add_usize_def)

section \<open>Properties\<close>

text \<open>
  C35. Two tunnels wired together find each other's credentials: what the benchmark reads from an
  answer and installs in the offerer are exactly the ICE user name and password the answering
  tunnel drew, whatever they are.
\<close>

theorem bench_credentials:
  assumes "describes EA (dt_ice a) ufrag pwd addr" "graphic (dt_fingerprint_algorithm a)"
    and "graphic (dt_local_fingerprint a)" "dt_role a = Answerer"
  shows "\<exists>answer. dt_answer_sdp EA a = Some answer
    \<and> answer_value answer ''a=ice-ufrag:'' = Some ufrag \<and> answer_value answer ''a=ice-pwd:'' = Some pwd"
proof -
  have "graphic ''passive''" by simp
  then show ?thesis using answer_value_render [OF assms(1,2) _ assms(3)] assms(4) by (simp add: dt_answer_sdp_def)
qed

theorem bench_credentials_witness:
  "\<exists>answer. dt_answer_sdp script_server bench_a0 = Some answer
    \<and> answer_value answer ''a=ice-ufrag:'' = Some ''lufr'' \<and> answer_value answer ''a=ice-pwd:'' = Some ''lpwd''"
  by (rule bench_credentials [OF bench_a0_describes])
    (simp_all add: bench_a0_def Let_def dtls_config_of_def initial_tunnel_def bench_answerer_config_def tunnel_config_new_def)

text \<open>A phase that starts afresh: a session of its own from where the two tunnels stand.\<close>

lemma bench_ok_start: "bench_ok Of An (bn_offerer s) (bn_answerer s) 0 (s\<lparr>bn_received := 0\<rparr>)"
  using host_reach.start [of Of "bn_offerer s"] host_reach.start [of An "bn_answerer s"]
  by (fastforce simp: bench_ok_def)

lemma bench_throughput_reset:
  "bench_throughput Of An d n w now (s\<lparr>bn_received := 0\<rparr>) = bench_throughput Of An d n w now s"
  by (simp add: bench_throughput_def)

lemma reach_stays_open: "host_reach (direct_api E) t (u, out) \<Longrightarrow> dt_opened t \<Longrightarrow> dt_opened u"
  using direct.reach_history [of E t "(u, out)"] by (auto simp: tview_def advances.simps)

text \<open>
  C33. A benchmark that completes has measured what it reports. The set-up built both tunnels, and
  the handshake took them, within 20000 ms and over calls of the tunnels' own, to a state in which
  both are open. From there the messages were exchanged in one session of each tunnel, at whose end
  both are still open; no more messages were accepted than asked for, the deliveries reached the
  number asked for, and they are exactly the messages the answering tunnel handed out since the
  handshake.
\<close>

theorem bench_main_sound:
  assumes "bench_main EO EA payload_bytes window n = Some (Inr (handshake_ms, sent, backpressure, s))"
  shows "\<exists>s0 s1. bench_setup EO EA = Inr s0
    \<and> bench_handshake (direct_api EO) (direct_api EA) s0 = Some (Inr (handshake_ms, s1)) \<and> handshake_ms < 20000
    \<and> dt_opened (bn_offerer s1) \<and> dt_opened (bn_answerer s1)
    \<and> (\<exists>o0 a0 out out'. dt_constructed EO o0 \<and> dt_constructed EA a0
        \<and> host_reach (direct_api EO) o0 (bn_offerer s1, out) \<and> host_reach (direct_api EA) a0 (bn_answerer s1, out'))
    \<and> (\<exists>out out'. host_reach (direct_api EO) (bn_offerer s1) (bn_offerer s, out)
        \<and> host_reach (direct_api EA) (bn_answerer s1) (bn_answerer s, out')
        \<and> bn_received s = length (filter is_message out'))
    \<and> dt_opened (bn_offerer s) \<and> dt_opened (bn_answerer s) \<and> sent \<le> n \<and> n \<le> bn_received s"
proof -
  obtain s0 s1 where s0: "bench_setup EO EA = Inr s0"
    and s1: "bench_handshake (direct_api EO) (direct_api EA) s0 = Some (Inr (handshake_ms, s1))"
    and t: "bench_throughput (direct_api EO) (direct_api EA) (replicate payload_bytes 7) n window handshake_ms s1
      = Some (Inr (sent, backpressure, s))"
  proof (cases "bench_setup EO EA")
    case (Inr s0)
    then obtain r where r: "bench_handshake (direct_api EO) (direct_api EA) s0 = Some r"
      using assms by (auto simp: bench_main_def bind_eq_Some_conv)
    then show ?thesis
    proof (cases r)
      case [simp]: (Inr v)
      obtain now s1 where v: "v = (now, s1)" by (cases v)
      obtain q where q: "bench_throughput (direct_api EO) (direct_api EA) (replicate payload_bytes 7) n window now s1 = Some q"
        "map_sum id (\<lambda>(sent, backpressure, s). (now, sent, backpressure, s)) q = Inr (handshake_ms, sent, backpressure, s)"
        using assms \<open>bench_setup EO EA = Inr s0\<close> r v by (auto simp: bench_main_def)
      then show ?thesis using that [OF \<open>bench_setup EO EA = Inr s0\<close>] r v by (cases q) auto
    qed (use assms \<open>bench_setup EO EA = Inr s0\<close> in \<open>simp add: bench_main_def\<close>)
  qed (use assms in \<open>simp add: bench_main_def\<close>)
  obtain o0 a0 where c: "dt_constructed EO o0" "dt_constructed EA a0" "bench_ok (direct_api EO) (direct_api EA) o0 a0 0 s0"
    using bench_setup_ok [OF s0] by blast
  have h: "bench_ok (direct_api EO) (direct_api EA) o0 a0 0 s1" "handshake_ms < 20000"
    "dt_opened (bn_offerer s1)" "dt_opened (bn_answerer s1)"
    using bench_handshake_ok [OF s1 c(3)] by simp_all
  have t: "bench_ok (direct_api EO) (direct_api EA) (bn_offerer s1) (bn_answerer s1) 0 s" "sent \<le> n" "n \<le> bn_received s"
    using bench_throughput_ok [OF t [folded bench_throughput_reset [where s = s1]] bench_ok_start] by simp_all
  then obtain out out' where r: "host_reach (direct_api EO) (bn_offerer s1) (bn_offerer s, out)"
    "host_reach (direct_api EA) (bn_answerer s1) (bn_answerer s, out')" "bn_received s = length (filter is_message out')"
    by (auto simp: bench_ok_def)
  have o: "dt_opened (bn_offerer s)" "dt_opened (bn_answerer s)"
    using reach_stays_open [OF r(1) h(3)] reach_stays_open [OF r(2) h(4)] by simp_all
  obtain out1 out2 where "host_reach (direct_api EO) o0 (bn_offerer s1, out1)" "host_reach (direct_api EA) a0 (bn_answerer s1, out2)"
    using h(1) by (auto simp: bench_ok_def)
  with s0 s1 h(2-4) c(1,2) r o t(2,3) show ?thesis by blast
qed

theorem bench_main_sound_witness:
  "\<exists>s s0 s1. bench_main scripted script_server 3 2 1 = Some (Inr (2, 1, 0, s)) \<and> 1 \<le> bn_received s
     \<and> bench_setup scripted script_server = Inr s0
     \<and> bench_handshake (direct_api scripted) (direct_api script_server) s0 = Some (Inr (2, s1))
     \<and> dt_opened (bn_offerer s1) \<and> dt_opened (bn_answerer s1)"
proof -
  obtain s where s: "bench_main scripted script_server 3 2 1 = Some (Inr (2, 1, 0, s))"
    using bench_script_throughput by (auto simp: bench_main_def bench_script_setup bench_script_handshake numeral_3_eq_3)
  from bench_main_sound [OF this] show ?thesis using s by blast
qed

end
