(* ===== verification/Host_Loops.thy ===== *)
theory Host_Loops
  imports Refpeer Core_Bench
begin

text \<open>
  The hosts' own loops end. The answerer's event loop calls \<open>send\<close> for every message it polls, which
  queues datagrams behind the event just taken; each half of the benchmark's pump hands the datagrams
  of one tunnel to the other. Both end whenever the protocol crates' queues run empty under polling:
  the first because answering a message never queues another one, the second because receiving
  touches the other tunnel only.
\<close>

section \<open>Loops over a queue\<close>

lemma while_bind_wf:
  assumes "wf R" "I s"
    and more: "\<And>s s'. I s \<Longrightarrow> step s = More s' \<Longrightarrow> I s' \<and> (s', s) \<in> R"
    and exit: "\<And>s. I s \<Longrightarrow> step s \<noteq> Done None"
  shows "\<exists>r. Option.bind (while_let step s) id = Some r"
  using assms(1,2)
proof (induction s rule: wf_induct_rule)
  case (less s)
  show ?case
  proof (cases "step s")
    case (More s')
    then show ?thesis using less.IH [of s'] more [OF less.prems More] by (simp add: while_let_More)
  next
    case (Done r)
    then show ?thesis using exit [OF less.prems] by (cases r) simp_all
  qed
qed

text \<open>A loop that returns nothing is an infinite chain of rounds, and the other way round.\<close>

lemma while_let_chain:
  assumes "while_let step s = None"
  shows "\<exists>f. f 0 = s \<and> (\<forall>k. step (f k) = More (f (Suc k)))"
proof -
  define f where "f k = ((\<lambda>s. case step s of More s' \<Rightarrow> s' | Done _ \<Rightarrow> s) ^^ k) s" for k
  have more: "\<exists>s'. step s = More s' \<and> while_let step s' = None" if "while_let step s = None" for s
    using that by (cases "step s") (simp_all add: while_let_More)
  have n: "while_let step (f k) = None" for k
  proof (induction k)
    case (Suc k)
    then show ?case using more [OF Suc] by (auto simp: f_def)
  qed (simp add: f_def assms)
  have "step (f k) = More (f (Suc k))" for k using more [OF n [of k]] by (auto simp: f_def)
  then show ?thesis by (intro exI [of _ f]) (simp add: f_def)
qed

lemma chain_while_let:
  assumes "\<And>k. step (f k) = More (f (Suc k))"
  shows "while_let step (f 0) = None"
proof (rule ccontr)
  assume "while_let step (f 0) \<noteq> None"
  then obtain r where r: "while_let step (f 0) = Some r" by blast
  have False by (rule while_let_inv [where I = "\<lambda>s. \<exists>k. s = f k", OF r]) (use assms in auto)
  then show False .
qed

section \<open>Sending queues datagrams only\<close>

definition messages_of :: "event list \<Rightarrow> event list" where
  "messages_of = filter is_message"

lemma messages_drain_dtls:
  "drain_dtls_transmits E t = Some u \<Longrightarrow> messages_of (dt_events u) = messages_of (dt_events t)"
  unfolding drain_dtls_transmits_def
  by (erule while_let_inv [where I = "\<lambda>u. messages_of (dt_events u) = messages_of (dt_events t)"])
    (auto simp: messages_of_def push_event_def split: prod.splits option.splits)

lemma events_drain_channel: "drain_channel E t = (r, u) \<Longrightarrow> dt_events u = dt_events t"
  by (auto simp: drain_channel_def open_stream_def Let_def split: if_split_asm option.split_asm prod.split_asm sum.split_asm)

lemma events_drain_sctp_transmits: "drain_sctp_transmits E t = Some (r, u) \<Longrightarrow> dt_events u = dt_events t"
  by (auto simp: drain_sctp_transmits_def bind_eq_Some_conv split: option.split_asm)

lemma messages_flush:
  "flush_message E t = Some u \<Longrightarrow> messages_of (dt_events u) = messages_of (dt_events t)"
  by (cases "drain_channel E t")
    (auto simp: flush_message_def bind_eq_Some_conv dest!: events_drain_channel events_drain_sctp_transmits messages_drain_dtls)

lemma messages_send:
  "dt_send E d t = Some (r, u) \<Longrightarrow> messages_of (dt_events u) = messages_of (dt_events t)"
  by (auto simp: dt_send_def Let_def bind_eq_Some_conv
      split: if_split_asm option.split_asm prod.split_asm sum.split_asm dest!: messages_flush)

section \<open>The answerer\<close>

definition poll_order :: "('i, 'k, 'd, 's, 'a) direct_tunnel turn \<Rightarrow> ('i, 'k, 'd, 's, 'a) direct_tunnel turn \<Rightarrow> bool" where
  "poll_order u s \<longleftrightarrow> (let q = \<lambda>s. dt_events (tn_tunnel s) in
     length (messages_of (q u)) < length (messages_of (q s))
     \<or> length (messages_of (q u)) = length (messages_of (q s)) \<and> length (q u) < length (q s))"

lemma wf_poll_order: "wf {(u, s :: ('i, 'k, 'd, 's, 'a) direct_tunnel turn). poll_order u s}"
proof -
  let ?f = "\<lambda>s :: ('i, 'k, 'd, 's, 'a) direct_tunnel turn. (length (messages_of (dt_events (tn_tunnel s))), length (dt_events (tn_tunnel s)))"
  have "{(u, s). poll_order u s} = inv_image (less_than <*lex*> less_than) ?f"
    by (auto simp: poll_order_def Let_def)
  moreover have "wf (inv_image (less_than <*lex*> less_than) ?f)" by (intro wf_inv_image wf_lex_prod wf_less_than)
  ultimately show ?thesis by (simp only:)
qed

lemma answerer_event_order:
  assumes "dt_events (tn_tunnel s) = e # q" "answerer_event (direct_api E) b64 e (s\<lparr>tn_tunnel := (tn_tunnel s)\<lparr>dt_events := q\<rparr>\<rparr>) = Some u"
  shows "poll_order u s"
  using assms by (cases e) (auto simp: answerer_event_def poll_order_def Let_def messages_of_def
      dest!: messages_send [unfolded messages_of_def] split: if_split_asm)

lemma answerer_poll_total:
  assumes "stack_drains E"
  shows "\<exists>u. answerer_poll (direct_api E) b64 s = Some u"
  unfolding answerer_poll_def
proof (rule while_bind_wf [OF wf_poll_order, where I = "\<lambda>_. True"])
  fix v w :: "('a, 'c, 'd, 'e, 'f) direct_tunnel turn"
  let ?step = "\<lambda>s. case poll_event_op (direct_api E) (tn_tunnel s) of (None, t) \<Rightarrow> Done (Some (s\<lparr>tn_tunnel := t\<rparr>))
     | (Some e, t) \<Rightarrow> (case answerer_event (direct_api E) b64 e (s\<lparr>tn_tunnel := t\<rparr>) of None \<Rightarrow> Done None | Some s \<Rightarrow> More s)"
  show "?step v = More w \<Longrightarrow> True \<and> (w, v) \<in> {(u, s). poll_order u s}"
    by (cases "dt_events (tn_tunnel v)")
      (auto simp: dt_poll_event_def dest: answerer_event_order split: option.split_asm)
  have "\<exists>u. answerer_event (direct_api E) b64 e x = Some u" for e x
  proof (cases e)
    case (Message m)
    then show ?thesis using send_total [OF assms, of m "tn_tunnel x"] by (auto simp: answerer_event_def)
  qed (simp_all add: answerer_event_def)
  then show "?step v \<noteq> Done None"
    by (cases "dt_events (tn_tunnel v)") (auto simp: dt_poll_event_def split: option.split)
qed simp

lemma answerer_turn_total:
  assumes "stack_drains E"
  shows "\<exists>r. answerer_turn (direct_api E) b64 now_ms recv_ms recv t n = Some r"
proof -
  obtain t1 where t1: "dt_tick E now_ms t = Some t1" using tick_total [OF assms] by blast
  obtain s where s: "answerer_poll (direct_api E) b64
      \<lparr>tn_tunnel = t1, tn_outgoing = [], tn_terminal = None, tn_echoes = n, tn_lines = []\<rparr> = Some s"
    using answerer_poll_total [OF assms] by blast
  have "\<exists>u. dt_receive E recv_ms d (tn_tunnel s) = Some u" for d using pump_methods_total [OF assms] by blast
  then show ?thesis using t1 s by (cases "tn_terminal s"; cases recv) (auto simp: answerer_turn_def)
qed

text \<open>
  C37. The reference answerer always makes progress: when the queues of the protocol crates run empty
  under polling, no turn of its loop hangs, although it sends while it drains the events, so it
  returns for every sequence of datagrams, clock readings and socket errors.
\<close>

theorem answerer_main_returns:
  assumes "stack_drains E"
  shows "\<exists>r. answerer_main E b64 decode args local_addr stdin is = Some r"
proof -
  have run: "\<exists>r. answerer_run (direct_api E) b64 lifetime is t n ls sent = Some r" for lifetime t n ls sent
  proof (induction "is" arbitrary: t n ls sent)
    case (Cons i "is")
    obtain new out q where "answerer_turn (direct_api E) b64 (as_ms (ti_timeout_now i)) (as_ms (ti_read_now i)) (ti_recv i) t n
        = Some (new, out, q)"
      using answerer_turn_total [OF assms] by (metis prod_cases3)
    then show ?case using Cons.IH by (auto split: sum.split turn_result.split)
  qed simp
  then show ?thesis by (auto simp: answerer_main_def Let_def split: option.split sum.split prod.split)
qed

theorem answerer_main_returns_witness:
  "stack_drains scripted \<and> (\<exists>r. answerer_main scripted (\<lambda>_. []) (\<lambda>_. Inr script_offer) [] script_addr [''OFFER x''] script_answer_turns = Some r)"
  using scripted_drains answerer_main_returns [OF scripted_drains] by blast

section \<open>Half a pump\<close>

lemma receive_not_None: "stack_drains E \<Longrightarrow> dt_receive E n d t \<noteq> None"
  using pump_methods_total(1) by (metis option.distinct(1))

lemma offer_side_total:
  assumes "stack_drains EA"
  shows "\<exists>r. offer_side (direct_api EO) (direct_api EA) now s = Some r"
  unfolding offer_side_def
proof (rule while_bind_total [where I = "\<lambda>_. True" and m = "\<lambda>(m, s). length (dt_events (bn_offerer s))"])
  fix v w :: "bool \<times> (('h, 'i, 'j, 'k, 'l) direct_tunnel, ('a, 'c, 'd, 'e, 'f) direct_tunnel) bench"
  let ?step = "\<lambda>(moved, s). case poll_event_op (direct_api EO) (bn_offerer s) of
       (None, t) \<Rightarrow> Done (Some (moved, s\<lparr>bn_offerer := t\<rparr>))
     | (Some e, t) \<Rightarrow> (let s = s\<lparr>bn_offerer := t\<rparr> in
          case e of SendDatagram bytes \<Rightarrow> (case receive_op (direct_api EA) now bytes (bn_answerer s) of
                None \<Rightarrow> Done None | Some u \<Rightarrow> More (True, s\<lparr>bn_answerer := u\<rparr>))
          | _ \<Rightarrow> More (moved, s))"
  obtain m x where v: "v = (m, x)" by (cases v)
  show "?step v = More w \<Longrightarrow> True \<and> (case w of (m, s) \<Rightarrow> length (dt_events (bn_offerer s))) < (case v of (m, s) \<Rightarrow> length (dt_events (bn_offerer s)))"
    unfolding v by (cases "dt_events (bn_offerer x)") (auto simp: dt_poll_event_def Let_def split: event.split_asm option.split_asm)
  show "?step v \<noteq> Done None"
    unfolding v by (cases "dt_events (bn_offerer x)")
      (simp_all add: receive_not_None [OF assms] dt_poll_event_def Let_def split: event.split option.split)
qed simp

lemma answer_side_total:
  assumes "stack_drains EO"
  shows "\<exists>r. answer_side (direct_api EO) (direct_api EA) now s = Some r"
  unfolding answer_side_def
proof (rule while_bind_total [where I = "\<lambda>_. True" and m = "\<lambda>(m, s). length (dt_events (bn_answerer s))"])
  fix v w :: "bool \<times> (('a, 'c, 'd, 'e, 'f) direct_tunnel, ('h, 'i, 'j, 'k, 'l) direct_tunnel) bench"
  let ?step = "\<lambda>(moved, s). case poll_event_op (direct_api EA) (bn_answerer s) of
       (None, t) \<Rightarrow> Done (Some (moved, s\<lparr>bn_answerer := t\<rparr>))
     | (Some e, t) \<Rightarrow> (let s = s\<lparr>bn_answerer := t\<rparr> in
          case e of SendDatagram bytes \<Rightarrow> (case receive_op (direct_api EO) now bytes (bn_offerer s) of
                None \<Rightarrow> Done None | Some u \<Rightarrow> More (True, s\<lparr>bn_offerer := u\<rparr>))
          | Message _ \<Rightarrow> More (moved, s\<lparr>bn_received := bn_received s + 1\<rparr>)
          | _ \<Rightarrow> More (moved, s))"
  obtain m x where v: "v = (m, x)" by (cases v)
  show "?step v = More w \<Longrightarrow> True \<and> (case w of (m, s) \<Rightarrow> length (dt_events (bn_answerer s))) < (case v of (m, s) \<Rightarrow> length (dt_events (bn_answerer s)))"
    unfolding v by (cases "dt_events (bn_answerer x)") (auto simp: dt_poll_event_def Let_def split: event.split_asm option.split_asm)
  show "?step v \<noteq> Done None"
    unfolding v by (cases "dt_events (bn_answerer x)")
      (simp_all add: receive_not_None [OF assms] dt_poll_event_def Let_def split: event.split option.split)
qed simp

section \<open>The handshake phase\<close>

text \<open>The states the handshake loop of one run from \<open>s\<close> goes through, with its clock, at the head of
  the loop.\<close>

inductive bench_at :: "'o tunnel_api \<Rightarrow> 'a tunnel_api \<Rightarrow> ('o, 'a) bench \<Rightarrow> nat \<times> ('o, 'a) bench \<Rightarrow> bool" for Of An s where
  start: "bench_at Of An s (0, s)"
| tick: "bench_at Of An s (now, u) \<Longrightarrow> \<not> (is_open_op Of (bn_offerer u) \<and> is_open_op An (bn_answerer u)) \<Longrightarrow>
    bench_pump Of An now u = Some v \<Longrightarrow>
    \<not> is_finished_op Of (bn_offerer v) \<Longrightarrow> \<not> is_finished_op An (bn_answerer v) \<Longrightarrow>
    tick_op Of (now + 1) (bn_offerer v) = Some t \<Longrightarrow> tick_op An (now + 1) (bn_answerer v) = Some t' \<Longrightarrow>
    now + 1 < 20000 \<Longrightarrow> bench_at Of An s (now + 1, v\<lparr>bn_offerer := t, bn_answerer := t'\<rparr>)"

text \<open>The two tunnels answer each other for ever: the rounds \<open>f 0\<close>, \<open>f 1\<close>, ... of one pump, each of
  which hands at least one datagram over.\<close>

definition answer_for_ever :: "'o tunnel_api \<Rightarrow> 'a tunnel_api \<Rightarrow> nat \<Rightarrow> (nat \<Rightarrow> ('o, 'a) bench) \<Rightarrow> bool" where
  "answer_for_ever Of An now f = (\<forall>k. \<exists>m1 v m2. offer_side Of An now (f k) = Some (m1, v)
     \<and> answer_side Of An now v = Some (m2, f (Suc k)) \<and> (m1 \<or> m2))"

text \<open>A pump whose two sides return.\<close>

lemma bench_pump_None:
  assumes "\<And>u. \<exists>r. offer_side Of An now u = Some r" "\<And>u. \<exists>r. answer_side Of An now u = Some r"
  shows "bench_pump Of An now s = None \<longleftrightarrow> (\<exists>f. f 0 = s \<and> answer_for_ever Of An now f)"
proof -
  define step where "step = (\<lambda>s. case offer_side Of An now s of None \<Rightarrow> Done None
     | Some (m1, s) \<Rightarrow> (case answer_side Of An now s of None \<Rightarrow> Done None
         | Some (m2, s) \<Rightarrow> if m1 \<or> m2 then More s else Done (Some s)))"
  have more: "step u = More w \<longleftrightarrow> (\<exists>m1 v m2. offer_side Of An now u = Some (m1, v)
      \<and> answer_side Of An now v = Some (m2, w) \<and> (m1 \<or> m2))" for u w
    by (auto simp: step_def split: option.split prod.split)
  have ends: "step u \<noteq> Done None" for u
  proof -
    obtain m1 v where "offer_side Of An now u = Some (m1, v)" using assms(1) [of u] by auto
    moreover obtain m2 w where "answer_side Of An now v = Some (m2, w)" using assms(2) [of v] by auto
    ultimately show ?thesis by (simp add: step_def)
  qed
  have "x \<noteq> None" if "while_let step s = Some x" for x
    by (rule while_let_inv [where I = "\<lambda>_. True", OF that]) (simp, simp, metis ends)
  then have "bench_pump Of An now s = None \<longleftrightarrow> while_let step s = None"
    unfolding bench_pump_def step_def [symmetric] by (cases "while_let step s") auto
  also have "\<dots> \<longleftrightarrow> (\<exists>f. f 0 = s \<and> (\<forall>k. step (f k) = More (f (Suc k))))"
  proof
    assume "\<exists>f. f 0 = s \<and> (\<forall>k. step (f k) = More (f (Suc k)))"
    then obtain f where f: "f 0 = s" "\<And>k. step (f k) = More (f (Suc k))" by blast
    from chain_while_let [of step f, OF f(2)] f(1) show "while_let step s = None" by simp
  qed (rule while_let_chain)
  finally show ?thesis unfolding more answer_for_ever_def .
qed

lemma bench_handshake_None:
  assumes "\<And>n t. tick_op Of n t \<noteq> None" "\<And>n t. tick_op An n t \<noteq> None"
  shows "bench_handshake Of An s = None \<longleftrightarrow> (\<exists>now u. bench_at Of An s (now, u)
    \<and> \<not> (is_open_op Of (bn_offerer u) \<and> is_open_op An (bn_answerer u)) \<and> bench_pump Of An now u = None)" (is "_ \<longleftrightarrow> ?stuck")
    and "bench_handshake Of An s = Some r \<Longrightarrow> (case r of
        Inl e \<Rightarrow> e = ''handshake failed'' \<or> e = ''handshake timed out''
      | Inr (now, u) \<Rightarrow> now < 20000 \<and> bench_at Of An s (now, u) \<and> is_open_op Of (bn_offerer u) \<and> is_open_op An (bn_answerer u))"
proof -
  let ?step = "\<lambda>(now, s). if is_open_op Of (bn_offerer s) \<and> is_open_op An (bn_answerer s) then Done (Some (Inr (now, s)))
       else (case bench_pump Of An now s of None \<Rightarrow> Done None
         | Some s \<Rightarrow> if is_finished_op Of (bn_offerer s) \<or> is_finished_op An (bn_answerer s)
             then Done (Some (Inl ''handshake failed''))
             else (case (tick_op Of (now + 1) (bn_offerer s), tick_op An (now + 1) (bn_answerer s)) of
                  (Some t, Some u) \<Rightarrow>
                    if now + 1 < 20000 then More (now + 1, s\<lparr>bn_offerer := t, bn_answerer := u\<rparr>)
                    else Done (Some (Inl ''handshake timed out''))
                | _ \<Rightarrow> Done None))"
  let ?I = "\<lambda>v. bench_at Of An s v \<and> fst v < 20000"
  have more: "?I w \<and> 20000 - fst w < 20000 - fst v" if "?I v" "?step v = More w" for v w
    using that by (cases v) (auto split: if_split_asm option.split_asm intro: bench_at.tick [unfolded Suc_eq_plus1 [symmetric]])
  have start: "?I (0, s)" by (simp add: bench_at.start)
  have reached: "while_let ?step (0, s) = while_let ?step v" if "bench_at Of An s v" for v
    using that
  proof (induction rule: bench_at.induct)
    case (tick now u v t t')
    then have "?step (now, u) = More (now + 1, v\<lparr>bn_offerer := t, bn_answerer := t'\<rparr>)" by simp
    with tick.IH show ?case using while_let_More [of ?step "(now, u)"] by simp
  qed simp
  obtain x where x: "while_let ?step (0, s) = Some x"
    using while_let_total [of ?I "(0, s)" ?step "\<lambda>v. 20000 - fst v", OF start more] by blast
  have Q: "(case x of None \<Rightarrow> ?stuck | Some (Inl e) \<Rightarrow> e = ''handshake failed'' \<or> e = ''handshake timed out''
      | Some (Inr (now, u)) \<Rightarrow> now < 20000 \<and> bench_at Of An s (now, u) \<and> is_open_op Of (bn_offerer u) \<and> is_open_op An (bn_answerer u))"
  proof (rule while_let_inv [where I = ?I, OF x start])
    fix v r
    assume v: "?I v" "?step v = Done r"
    obtain now u where vu: "v = (now, u)" by (cases v)
    have ticks: "\<exists>t t'. tick_op Of (now + 1) (bn_offerer w) = Some t \<and> tick_op An (now + 1) (bn_answerer w) = Some t'" for w
      using assms by auto
    show "case r of None \<Rightarrow> ?stuck | Some (Inl e) \<Rightarrow> e = ''handshake failed'' \<or> e = ''handshake timed out''
      | Some (Inr (now, u)) \<Rightarrow> now < 20000 \<and> bench_at Of An s (now, u) \<and> is_open_op Of (bn_offerer u) \<and> is_open_op An (bn_answerer u)"
    proof (cases "bench_pump Of An now u")
      case None
      then show ?thesis using v unfolding vu by (auto split: if_split_asm)
    next
      case (Some w)
      then show ?thesis using v ticks [of w] unfolding vu by (auto split: if_split_asm)
    qed
  qed (use more in blast)
  have h: "bench_handshake Of An s = x" unfolding bench_handshake_def using x by (cases x) simp_all
  have out: "x = None" if ?stuck
  proof -
    from that obtain now u where a: "bench_at Of An s (now, u)" "bench_pump Of An now u = None"
      "\<not> (is_open_op Of (bn_offerer u) \<and> is_open_op An (bn_answerer u))" by blast
    then have "?step (now, u) = Done None" by simp
    then have "while_let ?step (now, u) = Some None" by simp
    with reached [OF a(1)] x show ?thesis by simp
  qed
  have "?stuck" if "x = None" using Q unfolding that by simp
  with out show "bench_handshake Of An s = None \<longleftrightarrow> ?stuck" unfolding h by (rule iffI [rotated])
  show "case r of Inl e \<Rightarrow> e = ''handshake failed'' \<or> e = ''handshake timed out''
      | Inr (now, u) \<Rightarrow> now < 20000 \<and> bench_at Of An s (now, u) \<and> is_open_op Of (bn_offerer u) \<and> is_open_op An (bn_answerer u)"
    if "bench_handshake Of An s = Some r"
  proof -
    have xr: "x = Some r" using h that by simp
    show ?thesis using Q unfolding xr by simp
  qed
qed

text \<open>
  C34. The benchmark's handshake phase ends unless its two tunnels answer each other for ever. When
  the queues of the protocol crates run empty under polling, each half of a pump returns in every
  state; a handshake that returns has either failed, or both tunnels open within 20000 ms in a state
  its own loop went through; and it does not return exactly when the loop comes, with a tunnel not
  open yet, to a pump whose rounds go on without end, each of them handing over a datagram.
\<close>

theorem bench_handshake_returns:
  assumes "stack_drains EO" "stack_drains EA"
  shows "(\<exists>r. offer_side (direct_api EO) (direct_api EA) n t = Some r)
    \<and> (\<exists>r. answer_side (direct_api EO) (direct_api EA) n t = Some r)
    \<and> (case bench_handshake (direct_api EO) (direct_api EA) s of
         Some (Inl e) \<Rightarrow> e = ''handshake failed'' \<or> e = ''handshake timed out''
       | Some (Inr (now, u)) \<Rightarrow> now < 20000 \<and> bench_at (direct_api EO) (direct_api EA) s (now, u)
           \<and> dt_opened (bn_offerer u) \<and> dt_opened (bn_answerer u)
       | None \<Rightarrow> \<exists>now u f. bench_at (direct_api EO) (direct_api EA) s (now, u)
           \<and> \<not> (dt_opened (bn_offerer u) \<and> dt_opened (bn_answerer u))
           \<and> f 0 = u \<and> answer_for_ever (direct_api EO) (direct_api EA) now f)
    \<and> (bench_handshake (direct_api EO) (direct_api EA) s \<noteq> None \<longrightarrow>
         (\<nexists>now u f. bench_at (direct_api EO) (direct_api EA) s (now, u)
           \<and> \<not> (dt_opened (bn_offerer u) \<and> dt_opened (bn_answerer u))
           \<and> f 0 = u \<and> answer_for_ever (direct_api EO) (direct_api EA) now f))"
proof -
  have t: "tick_op (direct_api EO) n t \<noteq> None" "tick_op (direct_api EA) n u \<noteq> None" for n t u
    using tick_total [OF assms(1), of n t] tick_total [OF assms(2), of n u] by auto
  note none = bench_handshake_None [of "direct_api EO" "direct_api EA", OF t, of s]
  note pump = bench_pump_None [of "direct_api EO" "direct_api EA", OF offer_side_total [OF assms(2)] answer_side_total [OF assms(1)]]
  have stuck: "bench_handshake (direct_api EO) (direct_api EA) s = None \<longleftrightarrow>
      (\<exists>now u f. bench_at (direct_api EO) (direct_api EA) s (now, u)
           \<and> \<not> (dt_opened (bn_offerer u) \<and> dt_opened (bn_answerer u))
           \<and> f 0 = u \<and> answer_for_ever (direct_api EO) (direct_api EA) now f)"
    unfolding none(1) pump by simp
  show ?thesis
  proof (intro conjI offer_side_total [OF assms(2)] answer_side_total [OF assms(1)])
    show "bench_handshake (direct_api EO) (direct_api EA) s \<noteq> None \<longrightarrow>
         (\<nexists>now u f. bench_at (direct_api EO) (direct_api EA) s (now, u)
           \<and> \<not> (dt_opened (bn_offerer u) \<and> dt_opened (bn_answerer u))
           \<and> f 0 = u \<and> answer_for_ever (direct_api EO) (direct_api EA) now f)"
      unfolding stuck by (rule impI)
  qed (use none(2) stuck in \<open>auto split: option.split sum.split\<close>)
qed

lemma script_server_drains: "stack_drains script_server"
  using scripted_drains by (simp add: stack_drains_def script_server_def)

text \<open>The scripted pair: its handshake opens both tunnels, and its pumps end in each state on the way.\<close>

theorem bench_handshake_returns_witness:
  "\<exists>now u. bench_handshake (direct_api scripted) (direct_api script_server)
       \<lparr>bn_offerer = bench_o1, bn_answerer = bench_a0, bn_received = 0\<rparr> = Some (Inr (now, u))
     \<and> now < 20000 \<and> dt_opened (bn_offerer u) \<and> dt_opened (bn_answerer u)
     \<and> (\<exists>r. offer_side (direct_api scripted) (direct_api script_server) now u = Some r)
     \<and> (\<exists>r. answer_side (direct_api scripted) (direct_api script_server) now u = Some r)
     \<and> (\<nexists>f. f 0 = \<lparr>bn_offerer = bench_o1, bn_answerer = bench_a0, bn_received = 0\<rparr>
         \<and> answer_for_ever (direct_api scripted) (direct_api script_server) 0 f)"
proof -
  let ?s = "\<lparr>bn_offerer = bench_o1, bn_answerer = bench_a0, bn_received = 0\<rparr>"
  note h = bench_handshake_returns [OF scripted_drains script_server_drains, where n = 2 and t = bench_pair_open and s = ?s,
      unfolded bench_script_handshake]
  have "\<not> dt_opened (bn_offerer ?s)"
    by (simp add: bench_o1_def bench_o0_def Let_def initial_tunnel_def)
  moreover have "bench_at (direct_api scripted) (direct_api script_server) ?s (0, ?s)" by (rule bench_at.start)
  ultimately have "\<nexists>f. f 0 = ?s \<and> answer_for_ever (direct_api scripted) (direct_api script_server) 0 f"
    using h by blast
  then show ?thesis using h bench_script_handshake by auto
qed

end
