(* ===== verification/Sdp_Spec.thy ===== *)
theory Sdp_Spec
  imports Sdp
begin

text \<open>
  What the two readers of \<open>direct/mod.rs\<close> take from a description, stated without their loops: the
  values an attribute has in the text, line by line. The reader of an offer takes the last value of
  each attribute, the reader of an answer the first fingerprint.
\<close>

section \<open>Attributes of a description\<close>

definition attribute_values :: "rstr \<Rightarrow> rstr \<Rightarrow> rstr list" where
  "attribute_values key sdp = List.map_filter (\<lambda>raw. map_option trim (strip_prefix key (trim raw))) (lines sdp)"

text \<open>A fingerprint without an algorithm before it is no fingerprint.\<close>

definition line_fingerprint :: "rstr \<Rightarrow> rstr option" where
  "line_fingerprint raw = Option.bind (strip_prefix ''a=fingerprint:'' (trim raw))
     (\<lambda>value. map_option (\<lambda>(_, v). to_lowercase (trim v)) (split_once (CHR '' '') value))"

text \<open>A candidate counts when it is a host candidate of component 1 at a numeric address.\<close>

definition line_candidate :: "rstr \<Rightarrow> socket_addr option" where
  "line_candidate raw = Option.bind (strip_prefix ''a=candidate:'' (trim raw))
     (\<lambda>value. let fields = split_whitespace value in
        if 8 \<le> length fields \<and> fields ! 1 = ''1'' \<and> fields ! 7 = ''host''
        then parse_candidate_addr (fields ! 4) (fields ! 5) else None)"

definition last_opt :: "'a list \<Rightarrow> 'a option" where
  "last_opt xs = (if xs = [] then None else Some (last xs))"

definition require :: "rstr \<Rightarrow> 'a option \<Rightarrow> tunnel_error + 'a" where
  "require what v = (case v of None \<Rightarrow> Inl (Config (''offer has no '' @ what)) | Some a \<Rightarrow> Inr a)"

definition offer_spec :: "rstr \<Rightarrow> tunnel_error + parsed_offer" where
  "offer_spec sdp =
     (let fingerprints = List.map_filter line_fingerprint (lines sdp);
          candidates = List.map_filter line_candidate (lines sdp)
      in case require ''ice-ufrag'' (last_opt (attribute_values ''a=ice-ufrag:'' sdp)) of
           Inl e \<Rightarrow> Inl e
         | Inr ufrag \<Rightarrow> (case require ''ice-pwd'' (last_opt (attribute_values ''a=ice-pwd:'' sdp)) of
             Inl e \<Rightarrow> Inl e
           | Inr pwd \<Rightarrow> (case require ''host candidate'' (last_opt candidates) of
               Inl e \<Rightarrow> Inl e
             | Inr remote \<Rightarrow> Inr \<lparr>po_ufrag = ufrag, po_pwd = pwd, po_remote = remote,
                 po_fingerprint = or_default [] (last_opt fingerprints)\<rparr>)))"

section \<open>One line at a time\<close>

lemma prefix_exclusive:
  assumes "strip_prefix k l = Some v" "\<And>w. k @ v \<noteq> k' @ w"
  shows "strip_prefix k' l = None"
  using assms strip_prefix_Some by (cases "strip_prefix k' l") metis+

lemma keys_exclusive:
  "strip_prefix ''a=ice-ufrag:'' l = Some v \<Longrightarrow> strip_prefix ''a=ice-pwd:'' l = None
     \<and> strip_prefix ''a=fingerprint:'' l = None \<and> strip_prefix ''a=candidate:'' l = None"
  "strip_prefix ''a=ice-pwd:'' l = Some v \<Longrightarrow> strip_prefix ''a=fingerprint:'' l = None \<and> strip_prefix ''a=candidate:'' l = None"
  "strip_prefix ''a=fingerprint:'' l = Some v \<Longrightarrow> strip_prefix ''a=candidate:'' l = None"
  by (auto intro: prefix_exclusive)

text \<open>A line updates each of the four fields with its own value, if it has one.\<close>

definition newer :: "'a option \<Rightarrow> 'a option \<Rightarrow> 'a option" where
  "newer old v = (case v of None \<Rightarrow> old | Some a \<Rightarrow> Some a)"

lemma offer_line_fields:
  "offer_line raw acc = \<lparr>oa_ufrag = newer (oa_ufrag acc) (map_option trim (strip_prefix ''a=ice-ufrag:'' (trim raw))),
     oa_pwd = newer (oa_pwd acc) (map_option trim (strip_prefix ''a=ice-pwd:'' (trim raw))),
     oa_remote = newer (oa_remote acc) (line_candidate raw),
     oa_fingerprint = newer (oa_fingerprint acc) (line_fingerprint raw)\<rparr>"
  using keys_exclusive [of "trim raw"]
  by (auto simp: offer_line_def newer_def line_candidate_def line_fingerprint_def Let_def split: option.split)

lemma fold_newer: "fold (\<lambda>l old. newer old (f l)) ls v = newer v (last_opt (List.map_filter f ls))"
  by (induction ls arbitrary: v) (auto simp: newer_def last_opt_def map_filter_simps split: option.split)

lemma offer_fold:
  "fold offer_line ls acc = \<lparr>oa_ufrag = fold (\<lambda>l old. newer old (map_option trim (strip_prefix ''a=ice-ufrag:'' (trim l)))) ls (oa_ufrag acc),
     oa_pwd = fold (\<lambda>l old. newer old (map_option trim (strip_prefix ''a=ice-pwd:'' (trim l)))) ls (oa_pwd acc),
     oa_remote = fold (\<lambda>l old. newer old (line_candidate l)) ls (oa_remote acc),
     oa_fingerprint = fold (\<lambda>l old. newer old (line_fingerprint l)) ls (oa_fingerprint acc)\<rparr>"
  by (induction ls arbitrary: acc) (simp_all add: offer_line_fields)

lemma answer_lines: "answer_fingerprint_lines ls = (case List.map_filter line_fingerprint ls of [] \<Rightarrow> None | f # _ \<Rightarrow> Some f)"
  by (induction ls) (auto simp: line_fingerprint_def map_filter_simps split: option.split)

text \<open>
  C16. The readers of descriptions take exactly what the text says. \<open>ParsedOffer::parse\<close> is its
  declarative description: of the user name, the password, the host candidate of component 1 and the
  fingerprint it takes the last value in the text, each independently of the other lines, and it fails
  exactly when one of the first three is missing, naming the first that is; \<open>parse_answer_fingerprint\<close>
  takes the first fingerprint, so on a text with several the two readers may take different ones.
\<close>

theorem description_readers_exact:
  "parse_offer sdp = offer_spec sdp
   \<and> parse_answer_fingerprint sdp = (case List.map_filter line_fingerprint (lines sdp) of [] \<Rightarrow> None | f # _ \<Rightarrow> Some f)"
proof
  have n: "newer None v = v" for v :: "'b option" by (cases v) (simp_all add: newer_def)
  show "parse_offer sdp = offer_spec sdp"
    by (simp add: parse_offer_def offer_fold offer_init_def fold_newer n offer_spec_def require_def attribute_values_def Let_def split: option.split)
  show "parse_answer_fingerprint sdp = (case List.map_filter line_fingerprint (lines sdp) of [] \<Rightarrow> None | f # _ \<Rightarrow> Some f)"
    by (simp add: parse_answer_fingerprint_def answer_lines)
qed

end
