(* ===== verification/Spec2Isabelle.thy ===== *)
theory Spec2Isabelle
  imports Wasm_Spec Wasm_Std Timeline Host_Loops Sdp_Spec
begin

text \<open>
  A verification development of \<open>rtc-tunnel\<close>: one pre-negotiated binary data channel to a known
  peer over ICE, DTLS and SCTP, as a sans-I/O state machine with a C ABI for WebAssembly.

  \<^bold>\<open>The program and its parts.\<close> The core crate (\<open>crates/rtc-tunnel-core\<close>) has one public type,
  \<open>Tunnel\<close>, with two implementations of the same methods: \<open>DirectTunnel\<close> (\<open>direct/mod.rs\<close>, shipped),
  which drives the ICE, DTLS and SCTP crates itself, and the \<open>rtc\<close>-driven one (\<open>tunnel.rs\<close>), kept for
  the reference peer and cross checks. The host owns sockets and clock: it passes datagrams and
  time in (\<open>receive\<close>, \<open>tick\<close>, \<open>send\<close>, \<open>close\<close>) and takes events out (\<open>poll_event\<close>). The wasm crate
  (\<open>crates/rtc-tunnel-wasm\<close>) exports these methods as C functions over handles and linear memory;
  \<open>scripts/wasm-std\<close> replaces the clock and the randomness of the standard library by host imports.
  The reference peer (\<open>crates/rtc-tunnel-refpeer\<close>) answers in the interop tests.

  \<^bold>\<open>The theories\<close>, in the order they build on each other:

  \<^item> \<open>Prelude\<close>: machine types, \<open>error + value\<close> results, \<open>while let\<close> loops, saturating arithmetic.
  \<^item> \<open>Rust_Str\<close>, \<open>Net_Addr\<close>, \<open>Net_Addr6\<close>: what the sources use of Rust's strings, number formatting
    and socket addresses; reading back a displayed address gives the address.
  \<^item> \<open>Core_Types\<close>: \<open>config.rs\<close>, \<open>error.rs\<close>, \<open>event.rs\<close>, \<open>lib.rs\<close>, \<open>trace.rs\<close>.
  \<^item> \<open>Backend\<close>: the method table both backends and the ABI share, host sessions as sequences of calls
    (\<open>host_reach\<close>), and the locale \<open>tunnel_backend\<close>, the contract each backend keeps: the event queue
    only grows at its end, \<open>opened\<close> and \<open>finished\<close> are never taken back, and their events are queued
    exactly when the flags turn on. The theorems about whole sessions are proved in the locale.
  \<^item> \<open>Sdp\<close>: the readers and writers of session descriptions of both backends and the reference peer;
    \<open>Sdp_Spec\<close>: that the readers of the direct backend are their declarative description.
  \<^item> \<open>Engines\<close>: the ICE, DTLS, SCTP and certificate crates as one argument record, \<open>stack\<close>.
  \<^item> \<open>Direct\<close>: every method of \<open>direct/mod.rs\<close>. \<open>Direct_Inv\<close> has its invariant and that every method
    keeps it; \<open>Direct_Props\<close> that every method returns, and the interpretation of \<open>tunnel_backend\<close>;
    \<open>Direct_Spec\<close> the theorems about sessions; \<open>Direct_Wire\<close> those about datagrams, messages and
    sending; \<open>Trust\<close> those about descriptions, fingerprints and who is trusted.
  \<^item> \<open>Scripted\<close>: a concrete stack with list queues, on which the concrete sessions run.
  \<^item> \<open>Rtc_Tunnel\<close>, \<open>Rtc_Spec\<close>: every method of \<open>tunnel.rs\<close> over the peer connection as an argument
    record, \<open>pc_stack\<close>, the second interpretation of \<open>tunnel_backend\<close>, and its theorems.
  \<^item> \<open>Contracts\<close>: what both backends share beyond that: the configurations they accept, the silence of
    a finished tunnel, deferred datagrams, deadlines; and that trust is settled at construction.
    \<open>Timeline\<close>: that the handshake trace is ordered in time when the host's clock is.
  \<^item> \<open>Wasm_Num\<close>, \<open>Wasm_Abi\<close>, \<open>Wasm_Spec\<close>: doubles, UTF-8 and linear memory; the exported functions
    of \<open>rtc-tunnel-wasm/src/lib.rs\<close> over any backend; that sessions of ABI calls refine host sessions.
  \<^item> \<open>Wasm_Std\<close>: \<open>scripts/wasm-std/time.rs\<close>, \<open>random.rs\<close> and \<open>rtc-tunnel-wasm/src/entropy.rs\<close>, with
    \<open>Duration\<close> as seconds and nanoseconds; that its clock computes the instants of the direct backend.
  \<^item> \<open>Refpeer\<close>: \<open>answerer.rs\<close> and \<open>main.rs\<close> of the reference peer, one definition per loop turn.
  \<^item> \<open>Core_Bench\<close>: \<open>examples/core-bench.rs\<close>, an offerer and an answerer wired to each other: the
    composition of two backends, with the session each of them is in. \<open>Host_Loops\<close>: that the loop of
    the answerer ends, and that the benchmark's handshake does not end only when its two tunnels
    answer each other for ever.

  \<^bold>\<open>How code becomes definitions.\<close> A struct is a record with the struct's fields, a method a
  definition on it with the method's guards and early returns in their order. A method that can fail
  returns \<open>error + value\<close> together with the state it leaves, since Rust keeps the effects made before
  an error. Text is the list of its UTF-8 bytes, integers are words or bounded numbers with the
  wrap-around or saturation of the source, instants are nanoseconds (a subtraction below zero is
  \<open>None\<close>), doubles are \<open>m * 2 ^ e\<close>.

  \<^bold>\<open>Loops.\<close> A \<open>while let\<close> loop that polls a crate is \<open>while_let\<close>, whose value is \<open>None\<close> when the loop
  does not end; no fuel is used. That the loops end is proved from one hypothesis about the crates,
  \<open>stack_drains\<close> (\<open>pc_drains\<close> for the peer connection): the queue behind each poll runs empty when
  polled. The scripted stacks satisfy it. That construction succeeds is proved from \<open>stack_builds\<close> and
  \<open>pc_builds\<close>: the crates' own constructors do not fail. Every other theorem holds for any behaviour of the crates,
  or names what it needs, such as \<open>delivers\<close>, that a stream hands out the chunks sent to it.

  \<^bold>\<open>Not modelled.\<close> The protocol crates themselves, whose code is not part of the repository, except
  that the peer connection crate and a few helpers are vendored: they are the arguments above. The
  TypeScript packages, the Go peer and the build scripts are other languages. Of the reference peer,
  sockets, standard input and output and process exit are arguments and results of a turn. Log
  messages of refused inputs are left out, they change no state.
\<close>

section \<open>Across the ABI\<close>

text \<open>
  C7. The handshake budget reaches the host of the wasm module: for a handle \<open>create\<close> returned on
  the direct backend, after any sequence of ABI calls, a tick whose time is at or past the creation
  time plus the timeout (the given one when positive, else 30 seconds) returns and leaves the
  handle reporting itself open or finished.
\<close>

theorem abi_handshake_budget:
  assumes "rtc_tunnel_create (direct_api E) mem a = Some (Some h0, err)" "abi_reach (direct_api E) h0 (h, out)"
    and "stack_drains E"
    and "f64_as_u64 (f64_max_zero (ca_now_ms a))
           + (if f64_positive (ca_handshake_timeout_ms a) then f64_as_u64 (ca_handshake_timeout_ms a) else 30000)
         \<le> f64_as_u64 (f64_max_zero now)"
  shows "\<exists>h'. rtc_tunnel_tick (direct_api E) (Some h) now = Some (Some h')
    \<and> (rtc_tunnel_is_open (direct_api E) (Some h') = 1 \<or> rtc_tunnel_is_finished (direct_api E) (Some h') = 1)"
proof -
  obtain remote u p f g la t where n: "dt_new E (create_config a remote u p f g) la (f64_as_u64 (f64_max_zero (ca_now_ms a))) = Inr t"
    and h0: "h0 = new_handle (direct_api E) t"
    using create_new [OF assms(1)] by auto
  have r: "host_reach (direct_api E) t (th_tunnel h, out)"
    using direct.abi_reach_host [OF assms(2)] h0 by (simp add: new_handle_def)
  obtain v where v: "dt_tick E (f64_as_u64 (f64_max_zero now)) (th_tunnel h) = Some v" using tick_total [OF assms(3)] by blast
  have "dt_opened v \<or> dt_finished v"
    using tick_deadline [OF session_deadline [OF n r] v] assms(4) by (simp add: create_config_timeout)
  with v show ?thesis by (auto simp: rtc_tunnel_tick_def on_tunnel_def rtc_tunnel_is_open_def rtc_tunnel_is_finished_def)
qed

theorem abi_handshake_budget_witness:
  "\<exists>h'. rtc_tunnel_tick (direct_api scripted) (Some script_h0) (Finite 35000 0) = Some (Some h')
    \<and> (rtc_tunnel_is_open (direct_api scripted) (Some h') = 1 \<or> rtc_tunnel_is_finished (direct_api scripted) (Some h') = 1)"
  by (rule abi_handshake_budget [OF script_create abi_reach.abi_start scripted_drains])
    (simp add: script_args_def f64_positive_def f64_max_zero_def f64_as_u64_def)

text \<open>
  C25. The ABI does not depend on which backend the module was built with: on the \<open>rtc\<close> backend,
  too, a session of ABI calls on a created handle is a session of host calls on its tunnel, and the
  decoded and queued events hold one \<open>Opened\<close> exactly when it is open and one \<open>Closed\<close> exactly when
  it is finished.
\<close>

theorem rtc_abi_sessions:
  assumes "rtc_tunnel_create (rtc_api P) mem a = Some (Some h0, err)" "abi_reach (rtc_api P) h0 (h, out)"
  shows "host_reach (rtc_api P) (th_tunnel h0) (th_tunnel h, out)
    \<and> length (filter is_opened_event (out @ rt_events (th_tunnel h))) = (if rt_opened (th_tunnel h) then 1 else 0)
    \<and> length (filter is_closed_event (out @ rt_events (th_tunnel h))) = (if rt_finished (th_tunnel h) then 1 else 0)"
proof -
  obtain config la n t where "rt_new P config la n = Some (Inr t)" "h0 = new_handle (rtc_api P) t"
    using create_handle [OF assms(1)] by auto
  then have c: "rt_constructed P (th_tunnel h0)" by (auto simp: new_handle_def rt_constructed_def)
  have r: "host_reach (rtc_api P) (th_tunnel h0) (th_tunnel h, out)" using rtc.abi_reach_host [OF assms(2)] by simp
  from rtc.reach_counts [OF r rt_constructed_start [OF c]] r show ?thesis by simp
qed

theorem rtc_abi_sessions_witness:
  "host_reach (rtc_api scripted_pc) script_r0 (script_r0, [])
   \<and> length (filter is_opened_event (rt_events script_r0)) = (if rt_opened script_r0 then 1 else 0)"
  using rtc_abi_sessions [OF script_rtc_create abi_reach.abi_start] by (simp add: new_handle_def)

end
